(* ===== verification/Prelude.thy ===== *)
theory Prelude
  imports Main "HOL-Library.AList" "HOL-Library.Char_ord" "HOL-Library.List_Lexorder"
begin

text \<open>
  Shared vocabulary of the development: the fact collections the component theories fill, and
  generic lemmas on lists, options and association lists.

  A Go \<^verbatim>\<open>map[string]T\<close> is an association list whose keys are distinct; a read is
  \<^const>\<open>map_of\<close>, a write is \<^const>\<open>AList.update\<close>, and where the program fixes an
  order of the keys (JSON text, printing) the list is sorted by key first.
\<close>

named_theorems go_string "equations of the string functions that automation may unfold"
named_theorems store_simps "row selection and update facts of the database model"
named_theorems handler_defs "definitions of request handlers"

section \<open>Lists\<close>

lemma dropWhile_not_hd: "dropWhile P xs = y # ys \<Longrightarrow> \<not> P y"
  by (metis hd_dropWhile list.distinct(1) list.sel(1))

lemma dropWhile_rev_last:
  assumes "rev (dropWhile P (rev xs)) = ys @ [y]"
  shows "\<not> P y"
proof -
  from assms have "dropWhile P (rev xs) = y # rev ys"
    by (metis rev_append rev_rev_ident append_Cons append_Nil rev.simps)
  then show ?thesis by (rule dropWhile_not_hd)
qed

lemma concat_map_eq_Nil: "concat (map f xs) = [] \<longleftrightarrow> (\<forall>x \<in> set xs. f x = [])"
  by (induction xs) auto

lemma find_set: "find P xs = Some x \<Longrightarrow> x \<in> set xs \<and> P x"
  by (metis find_Some_iff nth_mem)

text \<open>Rows with a unique key: a condition that fixes the key selects one row.\<close>

lemma filter_unique:
  assumes "distinct (map f xs)" "a \<in> set xs" "P a" "\<And>b. b \<in> set xs \<Longrightarrow> P b \<Longrightarrow> f b = f a"
  shows "filter P xs = [a]"
  using assms
proof (induction xs)
  case (Cons x xs)
  have ne: "f b \<noteq> f x" if "b \<in> set xs" for b using Cons.prems(1) that by (metis distinct.simps(2) image_eqI list.simps(9) set_map)
  show ?case
  proof (cases "x = a")
    case True
    have "\<not> P b" if "b \<in> set xs" for b
      using Cons.prems(4) [of b] ne [OF that] that True by auto
    then show ?thesis using True Cons.prems(3) by (simp add: filter_empty_conv)
  next
    case False
    then have mem: "a \<in> set xs" using Cons.prems(2) by simp
    then have "\<not> P x" using ne [OF mem] Cons.prems(4) [of x] by auto
    moreover have "filter P xs = [a]"
      by (rule Cons.IH [OF _ mem Cons.prems(3)]) (use Cons.prems(1) in simp, rule Cons.prems(4), simp_all)
    ultimately show ?thesis by simp
  qed
qed simp

section \<open>Association lists as Go maps\<close>

definition gkeys :: "('k \<times> 'v) list \<Rightarrow> 'k list" where
  "gkeys m = map fst m"

definition wf_map :: "('k \<times> 'v) list \<Rightarrow> bool" where
  "wf_map m \<longleftrightarrow> distinct (map fst m)"

lemma wf_map_Nil [simp, intro]: "wf_map []"
  by (simp add: wf_map_def)

lemma wf_map_update [intro]: "wf_map m \<Longrightarrow> wf_map (AList.update k v m)"
  by (simp add: wf_map_def distinct_update)

lemma map_of_update_same [simp]: "map_of (AList.update k v m) k = Some v"
  by (simp add: update_conv')

lemma map_of_update_other [simp]: "k' \<noteq> k \<Longrightarrow> map_of (AList.update k v m) k' = map_of m k'"
  by (simp add: update_conv')

lemma map_of_sort_key:
  assumes "wf_map m"
  shows "map_of (sort_key fst m) = map_of m"
proof (rule map_of_inject_set [THEN iffD2])
  show "set (sort_key fst m) = set m" by simp
qed (use assms in \<open>auto simp: wf_map_def distinct_map\<close>)

text \<open>The order in which a map's entries are listed is invisible once they are sorted by key.\<close>

lemma sort_key_map_eq:
  fixes m m' :: "('k::linorder \<times> 'v) list"
  assumes "wf_map m" "wf_map m'" "map_of m = map_of m'"
  shows "sort_key fst m = sort_key fst m'"
proof (rule map_sorted_distinct_set_unique [where f = fst])
  have eq: "set m = set m'"
    using assms by (simp add: wf_map_def map_of_inject_set)
  then show "set (sort_key fst m) = set (sort_key fst m')" by simp
  show "inj_on fst (set (sort_key fst m) \<union> set (sort_key fst m'))"
    using assms(1) eq by (simp add: wf_map_def distinct_map)
qed (use assms in \<open>simp_all add: wf_map_def distinct_map\<close>)

end
