(* ===== verification/Go_Strings.thy ===== *)
theory Go_Strings
  imports Prelude
begin

text \<open>
  The part of Go's \<^verbatim>\<open>strings\<close>, \<^verbatim>\<open>strconv\<close>, \<^verbatim>\<open>encoding/hex\<close> and \<^verbatim>\<open>net/url\<close>
  packages the program uses.  A Go string is its list of bytes, so \<^typ>\<open>string\<close> is a byte list and
  \<^const>\<open>length\<close> is Go's \<^verbatim>\<open>len\<close>.  White space is Unicode white space in its UTF-8 encoding.
  Case conversion acts on the ASCII letters and leaves every other byte alone.
\<close>

section \<open>Searching and splitting\<close>

definition has_prefix :: "string \<Rightarrow> string \<Rightarrow> bool" where
  "has_prefix p s \<longleftrightarrow> take (length p) s = p"

definition has_suffix :: "string \<Rightarrow> string \<Rightarrow> bool" where
  "has_suffix p s \<longleftrightarrow> has_prefix (rev p) (rev s)"

text \<open>\<open>str_cut\<close> splits around the first occurrence of the separator (\<^verbatim>\<open>strings.Cut\<close>);
  \<^verbatim>\<open>strings.Index\<close> is the length of the first part.\<close>

fun str_cut :: "string \<Rightarrow> string \<Rightarrow> (string \<times> string) option" where
  "str_cut sep [] = (if sep = [] then Some ([], []) else None)"
| "str_cut sep (c # cs) =
     (if has_prefix sep (c # cs) then Some ([], drop (length sep) (c # cs))
      else map_option (\<lambda>(a, b). (c # a, b)) (str_cut sep cs))"

definition str_contains :: "string \<Rightarrow> string \<Rightarrow> bool" where
  "str_contains s sub \<longleftrightarrow> str_cut sub s \<noteq> None"

definition str_index :: "string \<Rightarrow> string \<Rightarrow> nat option" where
  "str_index s sub = map_option (\<lambda>(a, b). length a) (str_cut sub s)"

lemma str_cut_append: "str_cut sep s = Some (a, b) \<Longrightarrow> s = a @ sep @ b"
proof (induction s arbitrary: a b)
  case (Cons c cs)
  then show ?case
    by (auto simp: has_prefix_def split: if_splits) (metis append_take_drop_id drop_Suc_Cons)
qed (auto split: if_splits)

lemma str_cut_shorter: "sep \<noteq> [] \<Longrightarrow> str_cut sep s = Some (a, b) \<Longrightarrow> length b < length s"
  using str_cut_append [of sep s a b] by simp

lemma str_cut_single:
  "str_cut [c] s = (if c \<in> set s
     then Some (takeWhile (\<lambda>x. x \<noteq> c) s, tl (dropWhile (\<lambda>x. x \<noteq> c) s)) else None)"
  by (induction s) (auto simp: has_prefix_def)

lemma str_contains_single [go_string]: "str_contains s [c] \<longleftrightarrow> c \<in> set s"
  by (simp add: str_contains_def str_cut_single)

function str_split :: "string \<Rightarrow> string \<Rightarrow> string list" where
  "str_split sep s =
     (case if sep = [] then None else str_cut sep s of
        None \<Rightarrow> [s]
      | Some (a, b) \<Rightarrow> a # str_split sep b)"
  by pat_completeness auto
termination
  by (relation "measure (\<lambda>(sep, s). length s)") (auto simp: str_cut_shorter split: if_splits)

declare str_split.simps [simp del]

fun str_join :: "string \<Rightarrow> string list \<Rightarrow> string" where
  "str_join sep [] = []"
| "str_join sep [x] = x"
| "str_join sep (x # y # ys) = x @ sep @ str_join sep (y # ys)"

lemma str_split_nonempty [simp]: "str_split sep s \<noteq> []"
  by (subst str_split.simps) (auto split: option.splits)

lemma str_join_Cons: "xs \<noteq> [] \<Longrightarrow> str_join sep (x # xs) = x @ sep @ str_join sep xs"
  by (cases xs) auto

text \<open>Joining what a split returns gives the string back.\<close>

lemma str_join_split: "str_join sep (str_split sep s) = s"
proof (induction sep s rule: str_split.induct)
  case (1 sep s)
  show ?case
  proof (cases "if sep = [] then None else str_cut sep s")
    case None
    then show ?thesis by (subst str_split.simps) simp
  next
    case (Some p)
    obtain a b where p: "p = (a, b)" by (cases p)
    with Some have cut: "str_cut sep s = Some (a, b)" by (auto split: if_splits)
    have "str_join sep (str_split sep b) = b" using 1 [OF Some p [symmetric]] .
    then show ?thesis
      using Some p str_cut_append [OF cut]
      by (subst str_split.simps) (simp add: str_join_Cons)
  qed
qed

lemma str_split_single_parts: "x \<in> set (str_split [c] s) \<Longrightarrow> c \<notin> set x"
proof (induction "[c]" s rule: str_split.induct)
  case (1 s)
  show ?case
  proof (cases "c \<in> set s")
    case True
    let ?a = "takeWhile (\<lambda>x. x \<noteq> c) s" and ?b = "tl (dropWhile (\<lambda>x. x \<noteq> c) s)"
    have cut: "str_cut [c] s = Some (?a, ?b)" using True by (simp add: str_cut_single)
    then have "str_split [c] s = ?a # str_split [c] ?b" by (subst str_split.simps) simp
    with "1.prems" have "x = ?a \<or> x \<in> set (str_split [c] ?b)" by simp
    then show ?thesis
      using "1.hyps" [of "(?a, ?b)" ?a ?b] cut set_takeWhileD by fastforce
  next
    case False
    then have "str_split [c] s = [s]" by (subst str_split.simps) (simp add: str_cut_single)
    with "1.prems" False show ?thesis by simp
  qed
qed

lemma str_split_set: "x \<in> set (str_split sep s) \<Longrightarrow> set x \<subseteq> set s"
proof (induction sep s rule: str_split.induct)
  case (1 sep s)
  show ?case
  proof (cases "if sep = [] then None else str_cut sep s")
    case None
    then have "str_split sep s = [s]" by (subst str_split.simps) simp
    with "1.prems" show ?thesis by simp
  next
    case (Some p)
    obtain a b where p: "p = (a, b)" by (cases p)
    with Some have cut: "str_cut sep s = Some (a, b)" by (auto split: if_splits)
    have "str_split sep s = a # str_split sep b"
      using Some p by (subst str_split.simps) simp
    with "1.prems" have "x = a \<or> x \<in> set (str_split sep b)" by simp
    then show ?thesis
      using "1.IH" [OF Some p [symmetric]] str_cut_append [OF cut] by auto
  qed
qed

section \<open>Trimming\<close>

definition trim_left :: "string \<Rightarrow> string \<Rightarrow> string" where
  "trim_left cutset s = dropWhile (\<lambda>c. c \<in> set cutset) s"

definition trim_right :: "string \<Rightarrow> string \<Rightarrow> string" where
  "trim_right cutset s = rev (dropWhile (\<lambda>c. c \<in> set cutset) (rev s))"

definition str_trim :: "string \<Rightarrow> string \<Rightarrow> string" where
  "str_trim cutset s = trim_right cutset (trim_left cutset s)"

lemma set_trim_left: "set (trim_left cutset s) \<subseteq> set s"
  by (auto simp: trim_left_def dest: set_dropWhileD)

lemma set_trim_right: "set (trim_right cutset s) \<subseteq> set s"
  by (auto simp: trim_right_def dest: set_dropWhileD)

lemma set_str_trim: "set (str_trim cutset s) \<subseteq> set s"
  using set_trim_left [of cutset s] set_trim_right [of cutset "trim_left cutset s"]
  by (auto simp: str_trim_def)

lemma trim_right_last: "trim_right cutset s = xs @ [x] \<Longrightarrow> x \<notin> set cutset"
  unfolding trim_right_def by (drule dropWhile_rev_last)

lemma trim_right_prefix: "\<exists>t. s = trim_right cutset s @ t"
  unfolding trim_right_def by (metis rev_append rev_rev_ident takeWhile_dropWhile_id)

lemma str_trim_hd: "str_trim cutset s = x # xs \<Longrightarrow> x \<notin> set cutset"
proof -
  assume a: "str_trim cutset s = x # xs"
  obtain t where "trim_left cutset s = str_trim cutset s @ t"
    using trim_right_prefix [of "trim_left cutset s" cutset] by (auto simp: str_trim_def)
  with a have "dropWhile (\<lambda>c. c \<in> set cutset) s = x # (xs @ t)" by (simp add: trim_left_def)
  then show ?thesis using dropWhile_not_hd [of "\<lambda>c. c \<in> set cutset" s x "xs @ t"] by simp
qed

lemma str_trim_last: "str_trim cutset s = xs @ [x] \<Longrightarrow> x \<notin> set cutset"
  unfolding str_trim_def by (rule trim_right_last)

lemma str_trim_id:
  assumes "s \<noteq> [] \<Longrightarrow> hd s \<notin> set cutset" and "s \<noteq> [] \<Longrightarrow> last s \<notin> set cutset"
  shows "str_trim cutset s = s"
proof (cases s rule: rev_cases)
  case (snoc ys y)
  have "dropWhile (\<lambda>c. c \<in> set cutset) s = s"
    using assms(1) by (cases s) auto
  moreover have "dropWhile (\<lambda>c. c \<in> set cutset) (rev s) = rev s"
    using assms(2) snoc by simp
  ultimately show ?thesis by (simp add: str_trim_def trim_left_def trim_right_def)
qed (simp add: str_trim_def trim_left_def trim_right_def)

text \<open>UTF-8 encodings of the characters \<^verbatim>\<open>unicode.IsSpace\<close> accepts.\<close>

definition space_seqs :: "string list" where
  "space_seqs =
     [[CHR 0x20], [CHR 0x09], [CHR 0x0A], [CHR 0x0B], [CHR 0x0C], [CHR 0x0D],
      [CHR 0xC2, CHR 0x85], [CHR 0xC2, CHR 0xA0], [CHR 0xE1, CHR 0x9A, CHR 0x80],
      [CHR 0xE2, CHR 0x80, CHR 0x80], [CHR 0xE2, CHR 0x80, CHR 0x81],
      [CHR 0xE2, CHR 0x80, CHR 0x82], [CHR 0xE2, CHR 0x80, CHR 0x83],
      [CHR 0xE2, CHR 0x80, CHR 0x84], [CHR 0xE2, CHR 0x80, CHR 0x85],
      [CHR 0xE2, CHR 0x80, CHR 0x86], [CHR 0xE2, CHR 0x80, CHR 0x87],
      [CHR 0xE2, CHR 0x80, CHR 0x88], [CHR 0xE2, CHR 0x80, CHR 0x89],
      [CHR 0xE2, CHR 0x80, CHR 0x8A], [CHR 0xE2, CHR 0x80, CHR 0xA8],
      [CHR 0xE2, CHR 0x80, CHR 0xA9], [CHR 0xE2, CHR 0x80, CHR 0xAF],
      [CHR 0xE2, CHR 0x81, CHR 0x9F], [CHR 0xE3, CHR 0x80, CHR 0x80]]"

definition strip_one :: "string list \<Rightarrow> string \<Rightarrow> string option" where
  "strip_one qs s = find (\<lambda>q. q \<noteq> [] \<and> has_prefix q s) qs"

lemma strip_one_shorter: "strip_one qs s = Some q \<Longrightarrow> length (drop (length q) s) < length s"
  by (cases s) (auto simp: strip_one_def has_prefix_def dest!: find_set)

function strip_seqs :: "string list \<Rightarrow> string \<Rightarrow> string" where
  "strip_seqs qs s =
     (case strip_one qs s of None \<Rightarrow> s | Some q \<Rightarrow> strip_seqs qs (drop (length q) s))"
  by pat_completeness auto
termination
  by (relation "measure (\<lambda>(qs, s). length s)") (auto simp: strip_one_shorter simp del: length_drop)

declare strip_seqs.simps [simp del]

definition trim_space :: "string \<Rightarrow> string" where
  "trim_space s = rev (strip_seqs (map rev space_seqs) (rev (strip_seqs space_seqs s)))"

lemma strip_seqs_Nil [simp]: "strip_seqs qs [] = []"
  by (subst strip_seqs.simps)
     (auto simp: strip_one_def has_prefix_def find_None_iff split: option.splits dest: find_set)

lemma strip_seqs_suffix: "\<exists>t. s = t @ strip_seqs qs s"
proof (induction qs s rule: strip_seqs.induct)
  case (1 qs s)
  show ?case
  proof (cases "strip_one qs s")
    case None
    then show ?thesis by (subst strip_seqs.simps) simp
  next
    case (Some q)
    with 1 obtain t where "drop (length q) s = t @ strip_seqs qs (drop (length q) s)" by auto
    then have "s = (take (length q) s @ t) @ strip_seqs qs (drop (length q) s)"
      by (metis append.assoc append_take_drop_id)
    moreover have "strip_seqs qs s = strip_seqs qs (drop (length q) s)"
      using Some by (subst strip_seqs.simps) simp
    ultimately show ?thesis by metis
  qed
qed

lemma strip_seqs_done: "strip_one qs (strip_seqs qs s) = None"
proof (induction qs s rule: strip_seqs.induct)
  case (1 qs s)
  then show ?case
    by (cases "strip_one qs s") (subst strip_seqs.simps, simp)+
qed

lemma strip_seqs_id: "strip_one qs s = None \<Longrightarrow> strip_seqs qs s = s"
  by (subst strip_seqs.simps) simp

lemma has_prefix_append: "has_prefix q s \<Longrightarrow> has_prefix q (s @ t)"
  by (auto simp: has_prefix_def)
     (metis append_eq_append_conv2 append_take_drop_id append_Nil2 length_take min.absorb2
        nat_le_linear take_all take_append)

lemma strip_one_prefix: "strip_one qs (s @ t) = None \<Longrightarrow> strip_one qs s = None"
  using has_prefix_append by (auto simp: strip_one_def find_None_iff)

text \<open>Trimming white space is idempotent.\<close>

lemma trim_space_idem [simp]: "trim_space (trim_space s) = trim_space s"
proof -
  define u where "u = strip_seqs space_seqs s"
  define w where "w = strip_seqs (map rev space_seqs) (rev u)"
  obtain t where "rev u = t @ w" using strip_seqs_suffix unfolding w_def by blast
  then have "u = rev w @ rev t" by (metis rev_append rev_rev_ident)
  moreover have "strip_one space_seqs u = None" unfolding u_def by (rule strip_seqs_done)
  ultimately have "strip_one space_seqs (rev w) = None" using strip_one_prefix by metis
  then have "strip_seqs space_seqs (rev w) = rev w" by (rule strip_seqs_id)
  moreover have "strip_seqs (map rev space_seqs) w = w"
    using strip_seqs_done strip_seqs_id unfolding w_def by blast
  ultimately show ?thesis
    by (simp add: trim_space_def u_def [symmetric] w_def [symmetric])
qed

lemma trim_space_Nil [simp]: "trim_space [] = []"
  by (simp add: trim_space_def)

lemma set_strip_seqs: "set (strip_seqs qs s) \<subseteq> set s"
  by (metis strip_seqs_suffix set_append sup.cobounded2)

lemma set_trim_space: "set (trim_space s) \<subseteq> set s"
  using set_strip_seqs [of "map rev space_seqs" "rev (strip_seqs space_seqs s)"]
    set_strip_seqs [of space_seqs s]
  by (auto simp: trim_space_def)

text \<open>\<^verbatim>\<open>strings.Fields\<close>: the maximal runs without white space.\<close>

definition emit_field :: "string \<Rightarrow> string list \<Rightarrow> string list" where
  "emit_field cur fs = (if cur = [] then fs else rev cur # fs)"

function fields_go :: "string \<Rightarrow> string \<Rightarrow> string list" where
  "fields_go cur s =
     (case s of [] \<Rightarrow> emit_field cur []
      | c # cs \<Rightarrow>
          (case strip_one space_seqs s of
             Some q \<Rightarrow> emit_field cur (fields_go [] (drop (length q) s))
           | None \<Rightarrow> fields_go (c # cur) cs))"
  by pat_completeness auto
termination
  by (relation "measure (\<lambda>(cur, s). length s)") (auto dest: strip_one_shorter)

declare fields_go.simps [simp del]

definition str_fields :: "string \<Rightarrow> string list" where
  "str_fields s = fields_go [] s"

section \<open>Case conversion\<close>

definition is_lower :: "char \<Rightarrow> bool" where
  "is_lower c \<longleftrightarrow> CHR ''a'' \<le> c \<and> c \<le> CHR ''z''"

definition is_upper :: "char \<Rightarrow> bool" where
  "is_upper c \<longleftrightarrow> CHR ''A'' \<le> c \<and> c \<le> CHR ''Z''"

definition is_digit :: "char \<Rightarrow> bool" where
  "is_digit c \<longleftrightarrow> CHR ''0'' \<le> c \<and> c \<le> CHR ''9''"

definition is_alnum :: "char \<Rightarrow> bool" where
  "is_alnum c \<longleftrightarrow> is_lower c \<or> is_upper c \<or> is_digit c"

definition lower_char :: "char \<Rightarrow> char" where
  "lower_char c = (if is_upper c then char_of (of_char c + 32 :: nat) else c)"

definition upper_char :: "char \<Rightarrow> char" where
  "upper_char c = (if is_lower c then char_of (of_char c - 32 :: nat) else c)"

definition to_lower :: "string \<Rightarrow> string" where
  "to_lower s = map lower_char s"

definition to_upper :: "string \<Rightarrow> string" where
  "to_upper s = map upper_char s"

lemma char_le_nat: "c \<le> d \<longleftrightarrow> (of_char c :: nat) \<le> of_char d"
  by (simp add: less_eq_char_def)

lemma char_eq_nat: "c = d \<longleftrightarrow> (of_char c :: nat) = of_char d"
  by simp

lemma of_char_lower_char:
  "(of_char (lower_char c) :: nat) = (if is_upper c then of_char c + 32 else of_char c)"
  by (auto simp: lower_char_def is_upper_def char_le_nat)

lemma lower_char_idem [simp]: "lower_char (lower_char c) = lower_char c"
  by (simp add: char_eq_nat of_char_lower_char is_upper_def char_le_nat)

lemma to_lower_idem [simp]: "to_lower (to_lower s) = to_lower s"
  by (simp add: to_lower_def)

lemma lower_char_not_upper [simp]: "\<not> is_upper (lower_char c)"
  by (simp add: is_upper_def char_le_nat of_char_lower_char)

lemma lower_char_alnum: "is_alnum c \<Longrightarrow> is_lower (lower_char c) \<or> is_digit (lower_char c)"
  by (auto simp: is_alnum_def is_upper_def is_lower_def is_digit_def char_le_nat of_char_lower_char)

lemma lower_char_id: "\<not> is_upper c \<Longrightarrow> lower_char c = c"
  by (simp add: lower_char_def)

lemma to_lower_id: "(\<And>c. c \<in> set s \<Longrightarrow> \<not> is_upper c) \<Longrightarrow> to_lower s = s"
  by (simp add: to_lower_def lower_char_id map_idI)

lemma lower_not_upper: "is_lower c \<Longrightarrow> \<not> is_upper c"
  by (auto simp: is_lower_def is_upper_def char_le_nat)

lemma digit_not_upper: "is_digit c \<Longrightarrow> \<not> is_upper c"
  by (auto simp: is_digit_def is_upper_def char_le_nat)

section \<open>Numbers as text\<close>

definition digit_char :: "nat \<Rightarrow> char" where
  "digit_char d = char_of (48 + d)"

definition digit_val :: "char \<Rightarrow> nat" where
  "digit_val c = of_char c - 48"

fun show_nat :: "nat \<Rightarrow> string" where
  "show_nat n = (if n < 10 then [digit_char n] else show_nat (n div 10) @ [digit_char (n mod 10)])"

declare show_nat.simps [simp del]

definition show_int :: "int \<Rightarrow> string" where
  "show_int i = (if i < 0 then CHR ''-'' # show_nat (nat (- i)) else show_nat (nat i))"

definition read_nat :: "string \<Rightarrow> nat" where
  "read_nat s = foldl (\<lambda>a c. a * 10 + digit_val c) 0 s"

lemma of_char_digit_char: "d < 10 \<Longrightarrow> (of_char (digit_char d) :: nat) = 48 + d"
  by (simp add: digit_char_def)

lemma digit_val_char: "d < 10 \<Longrightarrow> digit_val (digit_char d) = d"
  by (simp add: digit_val_def of_char_digit_char)

lemma digit_char_digit: "d < 10 \<Longrightarrow> is_digit (digit_char d)"
  by (simp add: is_digit_def char_le_nat of_char_digit_char)

lemma show_nat_digits: "c \<in> set (show_nat n) \<Longrightarrow> is_digit c"
proof (induction n rule: show_nat.induct)
  case (1 n)
  then show ?case
    by (subst (asm) show_nat.simps) (auto simp: digit_char_digit split: if_splits)
qed

lemma show_nat_nonempty [simp]: "show_nat n \<noteq> []"
  by (subst show_nat.simps) simp

lemma read_show_nat [simp]: "read_nat (show_nat n) = n"
proof (induction n rule: show_nat.induct)
  case (1 n)
  then show ?case
    by (subst show_nat.simps) (auto simp: read_nat_def digit_val_char)
qed

lemma show_nat_inject: "show_nat m = show_nat n \<longleftrightarrow> m = n"
  by (metis read_show_nat)

lemma minus_not_digit: "\<not> is_digit CHR ''-''"
  by (simp add: is_digit_def char_le_nat)

lemma show_nat_not_minus: "show_nat n \<noteq> CHR ''-'' # s"
  using show_nat_digits [of "CHR ''-''" n] minus_not_digit by fastforce

lemma show_int_inject: "show_int i = show_int j \<longleftrightarrow> i = j"
  using show_nat_not_minus
  by (auto simp: show_int_def show_nat_inject split: if_splits) metis

lemma show_int_chars: "c \<in> set (show_int i) \<Longrightarrow> is_digit c \<or> c = CHR ''-''"
  by (auto simp: show_int_def dest: show_nat_digits split: if_splits)

text \<open>\<^verbatim>\<open>strconv.Atoi\<close>: an optional sign, at least one digit, and a value that fits 64 bits.\<close>

definition atoi :: "string \<Rightarrow> int option" where
  "atoi s =
     (let neg = (s \<noteq> [] \<and> hd s = CHR ''-'');
          ds = (if s \<noteq> [] \<and> (hd s = CHR ''-'' \<or> hd s = CHR ''+'') then tl s else s);
          v = (if neg then - int (read_nat ds) else int (read_nat ds))
      in if ds = [] \<or> \<not> list_all is_digit ds then None
         else if v < - (2 ^ 63) \<or> v \<ge> 2 ^ 63 then None else Some v)"

lemma atoi_show_int:
  assumes "- (2 ^ 63) \<le> i" "i < 2 ^ 63"
  shows "atoi (show_int i) = Some i"
proof -
  have d: "list_all is_digit (show_nat n)" for n
    by (auto simp: list_all_iff dest: show_nat_digits)
  have h: "hd (show_nat n) \<noteq> CHR ''-''" "hd (show_nat n) \<noteq> CHR ''+''" for n
    using show_nat_digits [of "hd (show_nat n)" n]
    by (auto simp: is_digit_def char_le_nat)
  show ?thesis
    using assms d h by (auto simp: atoi_def show_int_def Let_def)
qed

section \<open>Hexadecimal\<close>

definition hex_char :: "nat \<Rightarrow> char" where
  "hex_char d = (if d < 10 then char_of (48 + d) else char_of (87 + d))"

definition hex_byte :: "char \<Rightarrow> string" where
  "hex_byte c = [hex_char (of_char c div 16), hex_char (of_char c mod 16)]"

definition hex_encode :: "string \<Rightarrow> string" where
  "hex_encode s = concat (map hex_byte s)"

lemma of_char_hex_char:
  "d < 16 \<Longrightarrow> (of_char (hex_char d) :: nat) = (if d < 10 then 48 + d else 87 + d)"
  by (auto simp: hex_char_def)

lemma hex_char_inject: "a < 16 \<Longrightarrow> b < 16 \<Longrightarrow> hex_char a = hex_char b \<longleftrightarrow> a = b"
  by (auto simp: char_eq_nat of_char_hex_char split: if_splits)

lemma of_char_less: "(of_char c :: nat) < 256"
  using nat_of_char_less_256 by simp

lemma hex_byte_inject: "hex_byte c = hex_byte d \<longleftrightarrow> c = d"
proof
  assume "hex_byte c = hex_byte d"
  then have "of_char c div 16 = (of_char d div 16 :: nat)" "of_char c mod 16 = (of_char d mod 16 :: nat)"
    using of_char_less [of c] of_char_less [of d]
    by (auto simp: hex_byte_def hex_char_inject)
  then show "c = d" by (metis char_eq_nat div_mult_mod_eq)
qed simp

lemma hex_encode_Cons: "hex_encode (c # s) = hex_byte c @ hex_encode s"
  by (simp add: hex_encode_def)

lemma hex_encode_inject: "hex_encode s = hex_encode t \<longleftrightarrow> s = t"
proof
  show "hex_encode s = hex_encode t \<Longrightarrow> s = t"
  proof (induction s arbitrary: t)
    case Nil
    then show ?case by (cases t) (auto simp: hex_encode_def hex_byte_def)
  next
    case (Cons c s)
    then obtain d t' where t: "t = d # t'"
      by (cases t) (auto simp: hex_encode_def hex_byte_def)
    with Cons.prems have "hex_byte c @ hex_encode s = hex_byte d @ hex_encode t'"
      by (simp add: hex_encode_Cons)
    then have "hex_byte c = hex_byte d" "hex_encode s = hex_encode t'"
      by (auto simp: hex_byte_def)
    with Cons.IH t show ?case by (auto simp: hex_byte_inject)
  qed
qed simp

lemma length_hex_encode: "length (hex_encode s) = 2 * length s"
  by (induction s) (auto simp: hex_encode_def hex_byte_def)

lemma hex_char_neq: "d < 16 \<Longrightarrow> hex_char d \<noteq> CHR ''|''"
  by (auto simp: char_eq_nat of_char_hex_char)

lemma hex_byte_no_bar: "CHR ''|'' \<notin> set (hex_byte c)"
proof -
  have "(of_char c :: nat) div 16 < 16" using of_char_less [of c] by (simp only: div_less_iff_less_mult)
  then show ?thesis
    using hex_char_neq [of "of_char c div 16"] hex_char_neq [of "of_char c mod 16"]
    by (auto simp: hex_byte_def)
qed

lemma hex_encode_no_bar: "CHR ''|'' \<notin> set (hex_encode s)"
  by (induction s) (auto simp: hex_encode_def hex_byte_no_bar)

end
