(* ===== verification/Go_Float.thy ===== *)
theory Go_Float
  imports Prelude
begin

text \<open>
  Go's \<^verbatim>\<open>float64\<close>: IEEE 754 binary64 values with round-to-nearest-even, as far as the program
  computes with them (addition, subtraction, division, conversion from and to integers, tests
  against zero).  A finite value is a sign, a mantissa and an exponent; \<open>f64_round\<close> is the only place
  where rounding happens.  Also the 64-bit integer arithmetic of \<^verbatim>\<open>time.Duration\<close>.
\<close>

datatype float64 = FFin bool nat int | FInf bool | FNaN

section \<open>Rounding\<close>

fun bitlen :: "nat \<Rightarrow> nat" where
  "bitlen n = (if n = 0 then 0 else Suc (bitlen (n div 2)))"

declare bitlen.simps [simp del]

definition round_half_even :: "nat \<Rightarrow> nat \<Rightarrow> nat" where
  "round_half_even n d =
     (if 2 * (n mod d) < d \<or> (2 * (n mod d) = d \<and> even (n div d)) then n div d else n div d + 1)"

definition scaled :: "nat \<Rightarrow> nat \<Rightarrow> int \<Rightarrow> nat \<times> nat" where
  "scaled n d e = (n * 2 ^ nat (- e), d * 2 ^ nat e)"

text \<open>The float nearest to \<open>n / d\<close> (for \<open>d > 0\<close>) with the given sign: estimate the exponent from
  the bit lengths, correct it so that the quotient has 53 bits, round, renormalise.\<close>

definition fix_exp :: "nat \<times> nat \<Rightarrow> int \<Rightarrow> int" where
  "fix_exp ab e0 = max (if fst ab div snd ab \<ge> 2 ^ 53 then e0 + 1 else e0) (- 1074)"

definition f64_exp :: "nat \<Rightarrow> nat \<Rightarrow> int \<Rightarrow> int" where
  "f64_exp n d e0 = fix_exp (scaled n d e0) e0"

definition f64_pack :: "bool \<Rightarrow> nat \<Rightarrow> int \<Rightarrow> float64" where
  "f64_pack s m e =
     (if e > 971 then FInf s else if m = 0 then FFin s 0 0 else FFin s m e)"

definition f64_norm :: "bool \<Rightarrow> nat \<Rightarrow> int \<Rightarrow> float64" where
  "f64_norm s q e = (if q = 2 ^ 53 then f64_pack s (2 ^ 52) (e + 1) else f64_pack s q e)"

definition f64_at :: "bool \<Rightarrow> nat \<Rightarrow> nat \<Rightarrow> int \<Rightarrow> float64" where
  "f64_at s n d e = f64_norm s (round_half_even (fst (scaled n d e)) (snd (scaled n d e))) e"

definition f64_round :: "bool \<Rightarrow> nat \<Rightarrow> nat \<Rightarrow> float64" where
  "f64_round s n d =
     (if n = 0 then FFin s 0 0
      else f64_at s n d (f64_exp n d (int (bitlen n) - int (bitlen d) - 53)))"

section \<open>Operations\<close>

definition f64_num :: "nat \<Rightarrow> int \<Rightarrow> nat" where "f64_num m e = m * 2 ^ nat e"
definition f64_den :: "int \<Rightarrow> nat" where "f64_den e = 2 ^ nat (- e)"

definition f64_of_int :: "int \<Rightarrow> float64" where
  "f64_of_int i = f64_round (i < 0) (nat \<bar>i\<bar>) 1"

fun f64_neg :: "float64 \<Rightarrow> float64" where
  "f64_neg (FFin s m e) = FFin (\<not> s) m e"
| "f64_neg (FInf s) = FInf (\<not> s)"
| "f64_neg FNaN = FNaN"

definition signed :: "bool \<Rightarrow> nat \<Rightarrow> int" where
  "signed s m = (if s then - int m else int m)"

text \<open>The exact sum at a common exponent, and its rounding.\<close>

definition f64_exact_sum :: "int \<Rightarrow> bool \<Rightarrow> nat \<Rightarrow> int \<Rightarrow> bool \<Rightarrow> nat \<Rightarrow> int \<Rightarrow> int" where
  "f64_exact_sum e s1 m1 e1 s2 m2 e2 =
     signed s1 (m1 * 2 ^ nat (e1 - e)) + signed s2 (m2 * 2 ^ nat (e2 - e))"

definition f64_of_sum :: "bool \<Rightarrow> int \<Rightarrow> int \<Rightarrow> float64" where
  "f64_of_sum z t e =
     (if t = 0 then FFin z 0 0 else f64_round (t < 0) (f64_num (nat \<bar>t\<bar>) e) (f64_den e))"

fun f64_add :: "float64 \<Rightarrow> float64 \<Rightarrow> float64" where
  "f64_add (FFin s1 m1 e1) (FFin s2 m2 e2) =
     f64_of_sum (s1 \<and> s2) (f64_exact_sum (min e1 e2) s1 m1 e1 s2 m2 e2) (min e1 e2)"
| "f64_add (FInf s1) (FInf s2) = (if s1 = s2 then FInf s1 else FNaN)"
| "f64_add FNaN _ = FNaN"
| "f64_add _ FNaN = FNaN"
| "f64_add (FInf s) (FFin _ _ _) = FInf s"
| "f64_add (FFin _ _ _) (FInf s) = FInf s"

definition f64_sub :: "float64 \<Rightarrow> float64 \<Rightarrow> float64" where
  "f64_sub x y = f64_add x (f64_neg y)"

fun f64_div :: "float64 \<Rightarrow> float64 \<Rightarrow> float64" where
  "f64_div (FFin s1 m1 e1) (FFin s2 m2 e2) =
     (if m2 = 0 then (if m1 = 0 then FNaN else FInf (s1 \<noteq> s2))
      else f64_round (s1 \<noteq> s2) (f64_num m1 e1 * f64_den e2) (f64_den e1 * f64_num m2 e2))"
| "f64_div FNaN _ = FNaN"
| "f64_div _ FNaN = FNaN"
| "f64_div (FInf _) (FInf _) = FNaN"
| "f64_div (FInf s1) (FFin s2 _ _) = FInf (s1 \<noteq> s2)"
| "f64_div (FFin s1 _ _) (FInf s2) = FFin (s1 \<noteq> s2) 0 0"

fun f64_is_zero :: "float64 \<Rightarrow> bool" where
  "f64_is_zero (FFin s m e) \<longleftrightarrow> m = 0"
| "f64_is_zero _ \<longleftrightarrow> False"

fun f64_pos :: "float64 \<Rightarrow> bool" where
  "f64_pos (FFin s m e) \<longleftrightarrow> \<not> s \<and> m \<noteq> 0"
| "f64_pos (FInf s) \<longleftrightarrow> \<not> s"
| "f64_pos FNaN \<longleftrightarrow> False"

section \<open>64-bit integers\<close>

definition wrap64 :: "int \<Rightarrow> int" where
  "wrap64 x = (x + 2 ^ 63) mod 2 ^ 64 - 2 ^ 63"

definition in_int64 :: "int \<Rightarrow> bool" where
  "in_int64 x \<longleftrightarrow> - (2 ^ 63) \<le> x \<and> x < 2 ^ 63"

text \<open>Conversion truncates towards zero; out of range it yields the smallest integer, as the
  amd64 instruction the compiler emits does.\<close>

definition clip_int64 :: "int \<Rightarrow> int" where
  "clip_int64 t = (if in_int64 t then t else - (2 ^ 63))"

fun f64_to_int64 :: "float64 \<Rightarrow> int" where
  "f64_to_int64 (FFin s m e) =
     clip_int64 (signed s (f64_num m e div f64_den e))"
| "f64_to_int64 _ = - (2 ^ 63)"

text \<open>Go's \<^verbatim>\<open>/\<close> and \<^verbatim>\<open>%\<close> on integers truncate towards zero.\<close>

definition quot :: "int \<Rightarrow> int \<Rightarrow> int" where
  "quot a b = sgn a * sgn b * (\<bar>a\<bar> div \<bar>b\<bar>)"

definition remt :: "int \<Rightarrow> int \<Rightarrow> int" where
  "remt a b = a - b * quot a b"

lemma wrap64_id: "in_int64 x \<Longrightarrow> wrap64 x = x"
  by (simp add: wrap64_def in_int64_def)

lemma wrap64_range: "in_int64 (wrap64 x)"
  unfolding wrap64_def in_int64_def
  using pos_mod_bound [of "2 ^ 64 :: int" "x + 2 ^ 63"] pos_mod_sign [of "2 ^ 64 :: int" "x + 2 ^ 63"]
  by simp

section \<open>Exactness on small integers\<close>

lemma bitlen_0 [simp]: "bitlen 0 = 0"
  by (simp add: bitlen.simps)

lemma bitlen_1 [simp]: "bitlen (Suc 0) = 1"
  by (simp add: bitlen.simps)

lemma bitlen_double: "n > 0 \<Longrightarrow> bitlen n = Suc (bitlen (n div 2))"
  by (simp add: bitlen.simps [of n])

lemma bitlen_bounds: "n > 0 \<Longrightarrow> 2 ^ (bitlen n - 1) \<le> n \<and> n < 2 ^ bitlen n"
proof (induction n rule: bitlen.induct)
  case (1 n)
  show ?case
  proof (cases "n div 2 = 0")
    case True
    with "1.prems" have "n = 1" by arith
    then show ?thesis by simp
  next
    case False
    then have IH: "2 ^ (bitlen (n div 2) - 1) \<le> n div 2" "n div 2 < 2 ^ bitlen (n div 2)"
      using "1.IH" "1.prems" by auto
    have "bitlen (n div 2) > 0" using False bitlen_double [of "n div 2"] by simp
    then obtain k where k: "bitlen (n div 2) = Suc k" by (cases "bitlen (n div 2)") auto
    have "bitlen n = Suc (Suc k)" using "1.prems" k bitlen_double by simp
    moreover have "2 ^ Suc k \<le> n" "n < 2 ^ Suc (Suc k)"
      using IH k by auto
    ultimately show ?thesis by simp
  qed
qed

lemma bitlen_le: "n < 2 ^ k \<Longrightarrow> bitlen n \<le> k"
proof (cases "n = 0")
  case False
  assume "n < 2 ^ k"
  moreover have "2 ^ (bitlen n - 1) \<le> n" using False bitlen_bounds [of n] by simp
  ultimately have "2 ^ (bitlen n - 1) < (2::nat) ^ k" by (rule le_less_trans [rotated])
  then have "bitlen n - 1 < k" by (rule power_less_imp_less_exp [rotated]) simp
  then show ?thesis by simp
qed simp

lemma round_half_even_1 [simp]: "round_half_even n (Suc 0) = n"
  by (simp add: round_half_even_def)

text \<open>An integer below \<open>2 ^ 53\<close> is represented exactly.\<close>

lemma f64_round_exact:
  assumes "0 < n" "n < 2 ^ 53"
  shows "f64_round s n 1 = FFin s (n * 2 ^ (53 - bitlen n)) (int (bitlen n) - 53)"
proof -
  let ?L = "bitlen n"
  have L: "0 < ?L" "?L \<le> 53"
    using assms bitlen_le [of n 53] bitlen_double [of n] by auto
  have b: "2 ^ (?L - 1) \<le> n" "n < 2 ^ ?L" using bitlen_bounds assms by auto
  define e where "e = int ?L - 53"
  have e: "nat (- e) = 53 - ?L" "nat e = 0" using L by (auto simp: e_def)
  have low: "n * 2 ^ (53 - ?L) < 2 ^ 53"
    using b(2) L mult_strict_right_mono [of n "2 ^ ?L" "2 ^ (53 - ?L)"]
    by (simp add: power_add [symmetric])
  have e0: "int ?L - int (bitlen 1) - 53 = e - 1" by (simp add: e_def)
  have e01: "nat (- (e - 1)) = 54 - ?L" "nat (e - 1) = 0" using L by (auto simp: e_def)
  have "2 ^ (?L - 1) * 2 ^ (54 - ?L) \<le> n * 2 ^ (54 - ?L)" using b(1) by simp
  then have ge: "2 ^ 53 \<le> n * 2 ^ (54 - ?L)" using L by (simp add: power_add [symmetric])
  have sc: "scaled n 1 (e - 1) = (n * 2 ^ (54 - ?L), 1)" "scaled n 1 e = (n * 2 ^ (53 - ?L), 1)"
    by (simp_all only: scaled_def e e01 power_0 mult_1_right)
  have mx: "max (e - 1 + 1) (- 1074) = e" "e \<le> 971" using L by (auto simp: e_def)
  have nz: "n * 2 ^ (53 - ?L) \<noteq> 0" "n * 2 ^ (53 - ?L) \<noteq> 2 ^ 53" using assms low by auto
  have "f64_exp n 1 (e - 1) = e" 
    unfolding f64_exp_def fix_exp_def sc fst_conv snd_conv div_by_1 if_P [OF ge] by (rule mx(1))
  then have "f64_round s n 1 = f64_norm s (n * 2 ^ (53 - ?L)) e"
    using assms(1) unfolding f64_round_def f64_at_def e0
    by (simp add: sc(2) round_half_even_1 [unfolded One_nat_def [symmetric]] del: One_nat_def)
  also have "\<dots> = FFin s (n * 2 ^ (53 - ?L)) e"
    unfolding f64_norm_def if_not_P [OF nz(2)] f64_pack_def using nz(1) mx(2) by simp
  finally show ?thesis by (simp only: e_def)
qed

text \<open>The equations that evaluate a closed floating point term.\<close>

lemmas f64_eval = f64_of_int_def f64_round_def f64_exp_def fix_exp_def f64_pack_def f64_norm_def
  f64_at_def bitlen.simps round_half_even_def scaled_def f64_num_def f64_den_def signed_def
  f64_sub_def in_int64_def f64_exact_sum_def f64_of_sum_def clip_int64_def

end
