(* ===== verification/Go_Values.thy ===== *)
theory Go_Values
  imports Go_Strings Go_Float
begin

text \<open>
  Values of Go's \<^verbatim>\<open>any\<close> as they occur in the program: what \<^verbatim>\<open>encoding/json\<close>, JMESPath and the
  policy engine hand over.  \<open>VNilMap\<close> is an interface that holds a nil \<^verbatim>\<open>map[string]any\<close>, which is
  not \<^verbatim>\<open>nil\<close> itself; \<open>VNumber\<close> is a \<^verbatim>\<open>json.Number\<close>.

  The record \<open>runtime\<close> collects the library functions whose text format or cryptography the
  development does not define: decimal conversion of floats, parsing and formatting of times,
  SHA-256.  Everything else (printing with \<^verbatim>\<open>%v\<close>, JSON encoding, type assertions) is defined here.
\<close>

datatype gval =
    VNil
  | VBool bool
  | VInt int
  | VFloat float64
  | VNumber string
  | VStr string
  | VArr "gval list"
  | VMap "(string \<times> gval) list"
  | VNilMap

type_synonym kvs = "(string \<times> gval) list"

text \<open>A variable of type \<^verbatim>\<open>map[string]any\<close>: \<^const>\<open>None\<close> is the nil map.\<close>

type_synonym gomap = "kvs option"

record runtime =
  fmt_float :: "float64 \<Rightarrow> string"
  json_float :: "float64 \<Rightarrow> string"
  parse_float :: "string \<Rightarrow> float64 option"
  parse_time :: "string \<Rightarrow> string \<Rightarrow> int option"
  format_rfc3339 :: "int \<Rightarrow> string"
  sha256 :: "string \<Rightarrow> string"

section \<open>Type assertions\<close>

definition as_str :: "gval \<Rightarrow> string option" where
  "as_str v = (case v of VStr s \<Rightarrow> Some s | _ \<Rightarrow> None)"

definition as_arr :: "gval \<Rightarrow> gval list option" where
  "as_arr v = (case v of VArr xs \<Rightarrow> Some xs | _ \<Rightarrow> None)"

definition as_map :: "gval \<Rightarrow> kvs option" where
  "as_map v = (case v of VMap m \<Rightarrow> Some m | VNilMap \<Rightarrow> Some [] | _ \<Rightarrow> None)"

definition as_float :: "gval \<Rightarrow> float64 option" where
  "as_float v = (case v of VFloat f \<Rightarrow> Some f | _ \<Rightarrow> None)"

definition any_of_map :: "gomap \<Rightarrow> gval" where
  "any_of_map m = (case m of None \<Rightarrow> VNilMap | Some kv \<Rightarrow> VMap kv)"

text \<open>Indexing a map with a missing key gives the zero value, here \<^verbatim>\<open>nil\<close>.\<close>

definition mget :: "kvs \<Rightarrow> string \<Rightarrow> gval" where
  "mget m k = (case map_of m k of None \<Rightarrow> VNil | Some v \<Rightarrow> v)"

text \<open>Decoding a JSON column into a \<^verbatim>\<open>map[string]any\<close> or a slice: another shape leaves it nil.\<close>

definition unmarshal_map :: "gval \<Rightarrow> gomap" where
  "unmarshal_map v = (case v of VMap m \<Rightarrow> Some m | _ \<Rightarrow> None)"

definition unmarshal_arr :: "gval \<Rightarrow> gval list" where
  "unmarshal_arr v = (case v of VArr xs \<Rightarrow> xs | _ \<Rightarrow> [])"

lemma mget_update_same [simp]: "mget (AList.update k v m) k = v"
  by (simp add: mget_def)

lemma mget_update_other [simp]: "k' \<noteq> k \<Longrightarrow> mget (AList.update k v m) k' = mget m k'"
  by (simp add: mget_def)

section \<open>Printing with the verb v\<close>

primrec sprint :: "runtime \<Rightarrow> gval \<Rightarrow> string" where
  "sprint rt VNil = ''<nil>''"
| "sprint rt (VBool b) = (if b then ''true'' else ''false'')"
| "sprint rt (VInt i) = show_int i"
| "sprint rt (VFloat f) = fmt_float rt f"
| "sprint rt (VNumber t) = t"
| "sprint rt (VStr s) = s"
| "sprint rt (VArr xs) = ''['' @ str_join '' '' (map (sprint rt) xs) @ '']''"
| "sprint rt (VMap m) =
     ''map['' @ str_join '' '' (map (\<lambda>(k, s). k @ '':'' @ s)
        (sort_key fst (map (map_prod id (sprint rt)) m))) @ '']''"
| "sprint rt VNilMap = ''map[]''"

section \<open>JSON encoding\<close>

definition json_u :: "nat \<Rightarrow> string" where
  "json_u n = CHR 0x5C # ''u00'' @ [hex_char (n div 16), hex_char (n mod 16)]"

definition json_char :: "char \<Rightarrow> string" where
  "json_char c =
     (if c = CHR 0x22 \<or> c = CHR 0x5C then [CHR 0x5C, c]
      else if c = CHR 0x08 then CHR 0x5C # ''b''
      else if c = CHR 0x0C then CHR 0x5C # ''f''
      else if c = CHR 0x0A then CHR 0x5C # ''n''
      else if c = CHR 0x0D then CHR 0x5C # ''r''
      else if c = CHR 0x09 then CHR 0x5C # ''t''
      else if (of_char c :: nat) < 32 \<or> c = CHR ''<'' \<or> c = CHR ''>'' \<or> c = CHR ''&''
      then json_u (of_char c) else [c])"

text \<open>\<^verbatim>\<open>U+2028\<close> and \<^verbatim>\<open>U+2029\<close> are escaped as well; every other multi-byte character is copied.\<close>

fun json_esc :: "string \<Rightarrow> string" where
  "json_esc [] = []"
| "json_esc (c # cs) =
     (if c = CHR 0xE2 \<and> take 2 cs = [CHR 0x80, CHR 0xA8] then CHR 0x5C # ''u2028'' @ json_esc (drop 2 cs)
      else if c = CHR 0xE2 \<and> take 2 cs = [CHR 0x80, CHR 0xA9] then CHR 0x5C # ''u2029'' @ json_esc (drop 2 cs)
      else json_char c @ json_esc cs)"

definition json_quote :: "string \<Rightarrow> string" where
  "json_quote s = [CHR 0x22] @ json_esc s @ [CHR 0x22]"

definition seq_opts :: "'a option list \<Rightarrow> 'a list option" where
  "seq_opts xs = (if None \<in> set xs then None else Some (map the xs))"

definition json_members :: "(string \<times> string) list \<Rightarrow> string" where
  "json_members ms = ''{'' @ str_join '','' (map (\<lambda>(k, s). json_quote k @ '':'' @ s) (sort_key fst ms)) @ ''}''"

text \<open>\<^verbatim>\<open>json.Marshal\<close>: members are sorted by key; a NaN or an infinity makes the call fail.\<close>

primrec json_enc :: "runtime \<Rightarrow> gval \<Rightarrow> string option" where
  "json_enc rt VNil = Some ''null''"
| "json_enc rt (VBool b) = Some (if b then ''true'' else ''false'')"
| "json_enc rt (VInt i) = Some (show_int i)"
| "json_enc rt (VFloat f) = (case f of FFin _ _ _ \<Rightarrow> Some (json_float rt f) | _ \<Rightarrow> None)"
| "json_enc rt (VNumber t) = Some (if t = [] then ''0'' else t)"
| "json_enc rt (VStr s) = Some (json_quote s)"
| "json_enc rt (VArr xs) =
     map_option (\<lambda>es. ''['' @ str_join '','' es @ '']'') (seq_opts (map (json_enc rt) xs))"
| "json_enc rt (VMap m) =
     (let ms = map (map_prod id (json_enc rt)) m
      in if None \<in> snd ` set ms then None else Some (json_members (map (map_prod id the) ms)))"
| "json_enc rt VNilMap = Some ''null''"

text \<open>The helpers \<^verbatim>\<open>toJSON\<close> and \<^verbatim>\<open>mustJSON\<close> of the services drop the error: a failed encoding is empty.\<close>

definition json_text :: "runtime \<Rightarrow> gval \<Rightarrow> string" where
  "json_text rt v = (case json_enc rt v of None \<Rightarrow> [] | Some s \<Rightarrow> s)"

section \<open>Maps are encoded by content\<close>

lemma wf_map_map_prod: "wf_map (map (map_prod id f) m) = wf_map m"
  by (simp add: wf_map_def comp_def)

lemma map_of_map_prod_id: "map_of (map (map_prod id f) m) k = map_option f (map_of m k)"
  by (induction m) auto

lemma sort_key_map_prod_eq:
  fixes m m' :: "(string \<times> 'v) list"
  assumes "wf_map m" "wf_map m'" "map_of m = map_of m'"
  shows "sort_key fst (map (map_prod id f) m) = sort_key fst (map (map_prod id f) m')"
  using assms by (intro sort_key_map_eq) (auto simp: wf_map_map_prod map_of_map_prod_id fun_eq_iff)

lemma set_eq_of_map_of_eq:
  assumes "wf_map m" "wf_map m'" "map_of m = map_of m'"
  shows "set m = set m'"
  using assms by (simp add: wf_map_def map_of_inject_set)

text \<open>Two maps with the same entries have the same JSON text, in whatever order they were built.\<close>

lemma json_enc_map_order:
  assumes "wf_map m" "wf_map m'" "map_of m = map_of m'"
  shows "json_enc rt (VMap m) = json_enc rt (VMap m')"
proof -
  have "sort_key fst (map (map_prod id the) (map (map_prod id (json_enc rt)) m))
      = sort_key fst (map (map_prod id the) (map (map_prod id (json_enc rt)) m'))"
    using assms by (intro sort_key_map_prod_eq) (auto simp: wf_map_map_prod map_of_map_prod_id fun_eq_iff)
  then show ?thesis
    using set_eq_of_map_of_eq [OF assms] by (simp add: Let_def json_members_def)
qed

lemma sprint_map_order:
  assumes "wf_map m" "wf_map m'" "map_of m = map_of m'"
  shows "sprint rt (VMap m) = sprint rt (VMap m')"
  using sort_key_map_prod_eq [OF assms, of "sprint rt"] by simp

lemma json_text_nil_map: "json_text rt VNilMap = ''null''"
  by (simp add: json_text_def)

lemma json_text_map: "json_text rt (VMap m) \<noteq> ''null''"
  by (simp add: json_text_def Let_def json_members_def)

end
