(* ===== verification/Store.thy ===== *)
theory Store
  imports Go_Values
begin

text \<open>
  The PostgreSQL database as the SQL text of the program uses it: one record per table row (nullable
  columns are options, JSON columns hold values), the tables in row order, and row level security.

  Four things about the server are not fixed by the repository and are therefore fields of the
  state: whether the connected role is subject to the row level security policies of
  \<^verbatim>\<open>db/migrations/0002_policies.sql\<close> (\<open>rls_applies\<close>: false for the owner of the tables and for a
  superuser), whether the server executes a \<^verbatim>\<open>WITH\<close> query that the main statement never refers to
  (\<open>cte_runs\<close>: PostgreSQL documents that it does not), whether it accepts, for a column of type
  \<^verbatim>\<open>uuid\<close>, a parameter whose type the call of \<^verbatim>\<open>set_config\<close> in the same statement has already fixed as
  \<^verbatim>\<open>text\<close> (\<open>text_as_uuid\<close>: PostgreSQL has no operator \<^verbatim>\<open>uuid = text\<close> and no assignment cast, so it
  rejects the statement), and which statements fail (\<open>faults\<close>: the call that issues the statement
  returns an error; a connection that breaks in the middle of a result is not modelled).

  Two rules of the client library matter for loops over rows: an error of \<^verbatim>\<open>rows.Scan\<close> closes the rows,
  so a loop that goes on after it ends there; and an error the server raises while executing a query
  (row level security without a setting) ends the rows silently unless \<^verbatim>\<open>rows.Err\<close> is asked, which the
  program never does.
\<close>

section \<open>Rows\<close>

record resolver_row =
  rv_id :: string
  rv_tenant :: string
  rv_action :: string
  rv_name :: string
  rv_connector_key :: "string option"
  rv_request_template :: "gval option"
  rv_response_sample :: "gval option"
  rv_needs :: "gval option"
  rv_enabled :: bool

record mapping_row =
  mp_id :: string
  mp_tenant :: string
  mp_action :: string
  mp_name :: string
  mp_jmespath :: string
  mp_fact_key :: string
  mp_transform :: "string option"
  mp_transform_args :: "gval option"
  mp_required :: bool

record policy_version_row =
  pv_tenant :: string
  pv_action :: string
  pv_version :: int
  pv_rego :: "string option"
  pv_status :: string

record decision_row =
  dc_id :: string
  dc_tenant :: string
  dc_action :: string
  dc_inputs :: string
  dc_facts :: string
  dc_version :: int
  dc_status :: string
  dc_reasons :: string
  dc_needs :: string
  dc_alternatives :: string
  dc_hash :: "string option"
  dc_expires :: "int option"

record execution_row =
  ex_tenant :: string
  ex_action :: string
  ex_decision :: string
  ex_idempotency_key :: string
  ex_steps :: string
  ex_result :: string
  ex_status :: string

record definition_row =
  df_id :: string
  df_tenant :: string
  df_kind :: "string option"
  df_builtin_kind :: "string option"
  df_config :: "gval option"
  df_secret :: "gval option"
  df_base_url :: "string option"
  df_auth_ref :: "string option"
  df_title :: "string option"
  df_summary :: "string option"

record operation_row =
  op_id :: string
  op_connector :: string
  op_method :: "string option"
  op_path :: "string option"
  op_summary :: "string option"
  op_scopes :: "string list option"
  op_params :: "gval option"
  op_request_tmpl :: "gval option"
  op_enabled :: "bool option"

record tenant_connector_row =
  tc_tenant :: string
  tc_connector :: string
  tc_enabled :: "bool option"
  tc_secrets :: "string option"

record auth_config_row =
  ac_id :: string
  ac_tenant :: string
  ac_name :: string
  ac_type :: string
  ac_config :: gval
  ac_secrets :: "string option"

record usage_row =
  us_tenant :: string
  us_action :: string
  us_method :: string
  us_path :: string
  us_mode :: string
  us_actor :: string
  us_request :: string
  us_status :: int
  us_duration :: int
  us_started :: int

record audit_row =
  au_tenant :: string
  au_action :: string
  au_rail :: "string option"
  au_order :: "string option"
  au_actor :: "string option"
  au_mode :: "string option"
  au_result :: "int option"
  au_request :: "string option"
  au_ts :: int

record tenant_row =
  tn_id :: string
  tn_slug :: "string option"
  tn_host :: "string option"
  tn_issuer :: "string option"
  tn_jwks_url :: "string option"
  tn_base_url :: "string option"
  tn_auth_mode :: "string option"
  tn_discovery_url :: "string option"
  tn_audiences :: "string list option"
  tn_account_claim :: "string option"
  tn_machine_scopes :: "string list option"
  tn_required_acr :: "gval option"
  tn_dpop_required :: "bool option"
  tn_client_user :: "string option"
  tn_client_machine :: "string option"

record action_row =
  an_tenant :: string
  an_key :: string
  an_display :: "string option"
  an_schema :: "gval option"

record connector_row =
  cn_id :: string
  cn_kind :: string
  cn_display :: string
  cn_capabilities :: gval
  cn_requirements :: gval
  cn_audit :: string
  cn_category :: "string option"
  cn_tags :: "string list option"

record tenant_policy_row =
  tp_tenant :: string
  tp_scopes :: "string list"
  tp_step_up :: gval

text \<open>The statements of the program, as far as they can fail on their own.\<close>

datatype stmt =
    FactsBegin | FactsSetConfig | LoadResolvers | LoadMappings | FactsCommit | NeedsQuery
  | LatestPolicy | InsertDecision | SelectDecision | SelectDecisionBind
  | ListOperations | InsertExecution
  | RegistryQuery | AuthConfigQuery | InsertUsage
  | TenantByHost | TenantById | CredsQuery | KindsQuery
  | InsertPolicyVersion | MaxPolicyVersion | PublishPolicyVersion | SelectPolicyVersion
  | ActivePolicy | ListPolicyVersions | PutPolicies
  | ListActions | UpsertAction | ListResolvers | UpsertResolver | DeleteResolver
  | ListMappings | UpsertMapping | DeleteMapping | InsertAction
  | TenantSelf | PutOIDC | ResolveTid
  | ListAuth | CreateAuth | UpdateAuth | DeleteAuth
  | PutTenantConnector | InsertDefinition | UpdateDefinition | SelectDefinition | SelectConnector
  | InsertOperation | DeleteOperations | EnableOperation | SelectOperations | ListConnectors | UpsertConnector
  | CountConnectors
  | ConnectorSchema | MarketplaceSchema | TxBegin | TxSetConfig
  | AuditQuery | UsageDaily | UsageTotals | CoverageQuery | DecisionSummary | ListDecisions

record db =
  rls_applies :: bool
  cte_runs :: bool
  text_as_uuid :: bool
  faults :: "stmt \<Rightarrow> bool"
  resolvers :: "resolver_row list"
  mappings :: "mapping_row list"
  policy_versions :: "policy_version_row list"
  decisions :: "decision_row list"
  executions :: "execution_row list"
  definitions :: "definition_row list"
  operations :: "operation_row list"
  tenant_connectors :: "tenant_connector_row list"
  auth_configs :: "auth_config_row list"
  usage_events :: "usage_row list"
  tenants :: "tenant_row list"
  actions :: "action_row list"
  connectors :: "connector_row list"
  tenant_policies :: "tenant_policy_row list"
  audit_log :: "audit_row list"

section \<open>Row level security\<close>

text \<open>How a statement tries to set \<^verbatim>\<open>app.tenant_id\<close>: by a statement of its own in the same
  transaction, by a \<^verbatim>\<open>WITH s AS (SELECT set_config ...)\<close> prefix, or not at all.\<close>

datatype tenant_ctx = InTx string | ViaCte string | NoCtx

definition tenant_setting :: "db \<Rightarrow> tenant_ctx \<Rightarrow> string option" where
  "tenant_setting d ctx =
     (case ctx of
        InTx t \<Rightarrow> Some t
      | ViaCte t \<Rightarrow> if cte_runs d then Some t else None
      | NoCtx \<Rightarrow> None)"

text \<open>The rows a statement sees.  Under row level security without a setting the policy expression
  \<^verbatim>\<open>current_setting('app.tenant_id')\<close> raises an error (\<^const>\<open>None\<close>).\<close>

definition rls_rows :: "db \<Rightarrow> tenant_ctx \<Rightarrow> ('r \<Rightarrow> string) \<Rightarrow> 'r list \<Rightarrow> 'r list option" where
  "rls_rows d ctx ten rows =
     (if \<not> rls_applies d then Some rows
      else map_option (\<lambda>t. filter (\<lambda>r. ten r = t) rows) (tenant_setting d ctx))"

definition rls_can_write :: "db \<Rightarrow> tenant_ctx \<Rightarrow> string \<Rightarrow> bool" where
  "rls_can_write d ctx t \<longleftrightarrow> \<not> rls_applies d \<or> tenant_setting d ctx = Some t"

text \<open>Running a statement: it fails if the server faults or the policy expression raises.\<close>

definition run_rows :: "db \<Rightarrow> stmt \<Rightarrow> tenant_ctx \<Rightarrow> ('r \<Rightarrow> string) \<Rightarrow> 'r list \<Rightarrow> 'r list option" where
  "run_rows d st ctx ten rows = (if faults d st then None else rls_rows d ctx ten rows)"

text \<open>A query whose rows are read in a loop: only a statement that cannot be sent or prepared is an error of the
  call; an error raised while the rows are produced ends them.\<close>

definition query_rows :: "db \<Rightarrow> stmt \<Rightarrow> tenant_ctx \<Rightarrow> ('r \<Rightarrow> string) \<Rightarrow> 'r list \<Rightarrow> 'r list option" where
  "query_rows d st ctx ten rows =
     (if faults d st then None else Some (case rls_rows d ctx ten rows of None \<Rightarrow> [] | Some rs \<Rightarrow> rs))"

text \<open>\<^verbatim>\<open>BeginTxWithTenant\<close>: a transaction in which the tenant is set, or an error and no transaction.\<close>

definition BeginTxWithTenant :: "db \<Rightarrow> string \<Rightarrow> tenant_ctx option" where
  "BeginTxWithTenant d tenantID = (if faults d TxBegin \<or> faults d TxSetConfig then None else Some (InTx tenantID))"

text \<open>The numbers a column of type \<^verbatim>\<open>int\<close> holds.\<close>

definition int4 :: "int \<Rightarrow> bool" where
  "int4 n \<longleftrightarrow> - (2 ^ 31) \<le> n \<and> n < 2 ^ 31"

lemma tenant_setting_simps [store_simps]:
  "tenant_setting d (InTx t) = Some t"
  "tenant_setting d (ViaCte t) = (if cte_runs d then Some t else None)"
  "tenant_setting d NoCtx = None"
  by (simp_all add: tenant_setting_def)

lemma rls_rows_subset: "rls_rows d ctx ten rows = Some rs \<Longrightarrow> set rs \<subseteq> set rows"
  by (auto simp: rls_rows_def split: if_splits)

lemma rls_rows_tenant:
  "rls_applies d \<Longrightarrow> rls_rows d (InTx t) ten rows = Some (filter (\<lambda>r. ten r = t) rows)"
  by (simp add: rls_rows_def tenant_setting_simps)

text \<open>The \<^verbatim>\<open>WITH\<close> prefix isolates tenants only on a server that runs unreferenced queries.\<close>

lemma rls_rows_cte:
  "rls_applies d \<Longrightarrow> rls_rows d (ViaCte t) ten rows =
     (if cte_runs d then Some (filter (\<lambda>r. ten r = t) rows) else None)"
  by (simp add: rls_rows_def tenant_setting_simps)

lemma rls_rows_owner: "\<not> rls_applies d \<Longrightarrow> rls_rows d ctx ten rows = Some rows"
  by (simp add: rls_rows_def)

lemma BeginTxWithTenant_isolates:
  "BeginTxWithTenant d t = Some ctx \<Longrightarrow> rls_applies d \<Longrightarrow> rls_rows d ctx ten rows = Some (filter (\<lambda>r. ten r = t) rows)"
  by (auto simp: BeginTxWithTenant_def rls_rows_tenant split: if_splits)

text \<open>What a statement returns depends on the tenant context and the rows given, not on other tables.\<close>

lemma run_rows_cong:
  assumes "faults d' = faults d" "rls_applies d' = rls_applies d" "cte_runs d' = cte_runs d"
  shows "run_rows d' st ctx ten rows = run_rows d st ctx ten rows"
  using assms by (cases ctx) (simp_all add: run_rows_def rls_rows_def tenant_setting_def)

end
