(* ===== verification/Config.thy ===== *)
theory Config
  imports Go_Values
begin

text \<open>
  \<^verbatim>\<open>pkg/config/config.go\<close> and \<^verbatim>\<open>pkg/problems/problems.go\<close>: configuration read from the environment.
  The environment is a function from names to values, the empty string for an unset variable, which
  is all \<^verbatim>\<open>os.Getenv\<close> lets the program see.
\<close>

type_synonym environ = "string \<Rightarrow> string"

section \<open>Problem types\<close>

definition Base :: "environ \<Rightarrow> string" where
  "Base env =
     (if env ''PROBLEM_BASE_URL'' \<noteq> [] then trim_right ''/'' (env ''PROBLEM_BASE_URL'')
      else if env ''BASE_PUBLIC_URL'' \<noteq> [] then trim_right ''/'' (env ''BASE_PUBLIC_URL'') @ ''/problems''
      else ''https://example.com/problems'')"

definition Type :: "environ \<Rightarrow> string \<Rightarrow> string" where
  "Type env slug = Base env @ ''/'' @ slug"

section \<open>Service configuration\<close>

record Config =
  Env :: string
  HTTPAddr :: string
  ManifestAddr :: string
  DefaultBasePublicURL :: string
  Issuer :: string
  Audience :: string
  JWKSURL :: string
  RequireDPoP :: bool
  DPoPClockSkew :: int
  RedisURL :: string
  DatabaseURL :: string

definition env_or :: "environ \<Rightarrow> string \<Rightarrow> string \<Rightarrow> string" where
  "env_or env k dflt = (if env k \<noteq> [] then env k else dflt)"

text \<open>\<^verbatim>\<open>strconv.ParseBool\<close> with its error dropped: anything but the accepted spellings of true is false.\<close>

definition parse_bool :: "string \<Rightarrow> bool" where
  "parse_bool s \<longleftrightarrow> s \<in> {''1'', ''t'', ''T'', ''TRUE'', ''true'', ''True''}"

definition envBool :: "environ \<Rightarrow> string \<Rightarrow> bool \<Rightarrow> bool" where
  "envBool env k dflt = (if env k \<noteq> [] then parse_bool (env k) else dflt)"

text \<open>\<^verbatim>\<open>strconv.Atoi\<close> with its error dropped: 0 for a malformed number, the nearest bound for one out of
  range.\<close>

definition atoi_value :: "string \<Rightarrow> int" where
  "atoi_value s =
     (let neg = (s \<noteq> [] \<and> hd s = CHR ''-'');
          ds = (if s \<noteq> [] \<and> (hd s = CHR ''-'' \<or> hd s = CHR ''+'') then tl s else s);
          v = (if neg then - int (read_nat ds) else int (read_nat ds))
      in if ds = [] \<or> \<not> list_all is_digit ds then 0
         else max (- (2 ^ 63)) (min (2 ^ 63 - 1) v))"

definition envDur :: "environ \<Rightarrow> string \<Rightarrow> int \<Rightarrow> int" where
  "envDur env k dflt = (if env k \<noteq> [] then atoi_value (env k) else dflt)"

definition second_ns :: int where "second_ns = 1000000000"

definition Load :: "environ \<Rightarrow> Config" where
  "Load env = \<lparr>
     Env = env_or env ''LAMDIS_ENV'' ''dev'',
     HTTPAddr = env_or env ''LAMDIS_HTTP_ADDR'' '':8080'',
     ManifestAddr = env_or env ''LAMDIS_MANIFEST_ADDR'' '':8081'',
     DefaultBasePublicURL = env_or env ''BASE_PUBLIC_URL'' ''http://localhost:8080'',
     Issuer = env_or env ''OIDC_ISSUER'' '''',
     Audience = env_or env ''OIDC_AUDIENCE'' ''lamdis-gateway'',
     JWKSURL = env_or env ''JWKS_URL'' '''',
     RequireDPoP = envBool env ''REQUIRE_DPOP'' False,
     DPoPClockSkew = wrap64 (envDur env ''DPOP_CLOCK_SKEW_SEC'' 60 * second_ns),
     RedisURL = env_or env ''REDIS_URL'' '''',
     DatabaseURL = env_or env ''DATABASE_URL'' '''' \<rparr>"

lemma atoi_value_range: "- (2 ^ 63) \<le> atoi_value s \<and> atoi_value s < 2 ^ 63"
  by (auto simp: atoi_value_def Let_def)

lemma atoi_value_atoi: "atoi s = Some v \<Longrightarrow> atoi_value s = v"
  by (auto simp: atoi_def atoi_value_def Let_def split: if_splits)

lemma Type_nonempty [simp]: "Type env s \<noteq> []"
  by (simp add: Type_def)

end
