(* ===== verification/Tenants.thy ===== *)
theory Tenants
  imports Store Config
begin

text \<open>
  \<^verbatim>\<open>pkg/tenants\<close>: the tenant record, the provider interface, and its two implementations, one over an
  environment variable (\<^verbatim>\<open>memory.go\<close>) and one over the database (\<^verbatim>\<open>postgres.go\<close>).  A seed is the list of
  JSON objects in \<^verbatim>\<open>TENANT_SEED_JSON\<close>, each the list of its members in order.
\<close>

section \<open>Data\<close>

record Tenant =
  tID :: string
  Slug :: string
  Host :: string
  OAuthIssuer :: string
  tJWKSURL :: string
  BasePublicURL :: string
  AuthMode :: string
  DiscoveryURL :: string
  AcceptedAudiences :: "string list"
  AccountClaim :: string
  MachineAllowedScopes :: "string list"
  RequiredACRByAction :: "(string \<times> string) list"
  DPoPRequired :: bool

record ConnectorCreds =
  ShopifyDomain :: string
  ShopifyToken :: string

definition zero_tenant :: Tenant where
  "zero_tenant = \<lparr> tID = [], Slug = [], Host = [], OAuthIssuer = [], tJWKSURL = [], BasePublicURL = [],
     AuthMode = [], DiscoveryURL = [], AcceptedAudiences = [], AccountClaim = [], MachineAllowedScopes = [],
     RequiredACRByAction = [], DPoPRequired = False \<rparr>"

lemma zero_tenant_fields [simp]:
  "tID zero_tenant = []" "OAuthIssuer zero_tenant = []" "tJWKSURL zero_tenant = []" "AcceptedAudiences zero_tenant = []"
  "MachineAllowedScopes zero_tenant = []" "RequiredACRByAction zero_tenant = []"
  by (simp_all add: zero_tenant_def)

section \<open>The interface\<close>

text \<open>What a provider promises: a tenant found by host or id is the one with that host or id.\<close>

locale tenant_provider =
  fixes ok :: "'p \<Rightarrow> bool"
    and by_host :: "'p \<Rightarrow> string \<Rightarrow> string + Tenant"
    and by_id :: "'p \<Rightarrow> string \<Rightarrow> string + Tenant"
  assumes by_host_host: "ok p \<Longrightarrow> by_host p h = Inr t \<Longrightarrow> Host t = h"
    and by_id_id: "ok p \<Longrightarrow> by_id p i = Inr t \<Longrightarrow> tID t = i"
begin

lemma by_host_inject: "ok p \<Longrightarrow> by_host p h = Inr t \<Longrightarrow> by_host p h' = Inr t \<Longrightarrow> h = h'"
  using by_host_host by blast

end

section \<open>Decoding the seed\<close>

record seed_entry =
  sd_ID :: string
  sd_Slug :: string
  sd_Host :: string
  sd_OAuthIssuer :: string
  sd_JWKSURL :: string
  sd_BasePublicURL :: string
  sd_ShopifyDomain :: string
  sd_ShopifyToken :: string

text \<open>A field without a tag receives every member whose name equals its own up to letter case; a value of
  another type is an error that leaves the field as it was.\<close>

definition seed_field :: "string \<Rightarrow> kvs \<Rightarrow> string" where
  "seed_field name m = foldl (\<lambda>acc (k, v). if to_lower k = to_lower name
      then (case v of VStr s \<Rightarrow> s | _ \<Rightarrow> acc) else acc) [] m"

definition decode_entry :: "kvs \<Rightarrow> seed_entry" where
  "decode_entry m = \<lparr> sd_ID = seed_field ''ID'' m, sd_Slug = seed_field ''Slug'' m, sd_Host = seed_field ''Host'' m,
     sd_OAuthIssuer = seed_field ''OAuthIssuer'' m, sd_JWKSURL = seed_field ''JWKSURL'' m,
     sd_BasePublicURL = seed_field ''BasePublicURL'' m, sd_ShopifyDomain = seed_field ''ShopifyDomain'' m,
     sd_ShopifyToken = seed_field ''ShopifyToken'' m \<rparr>"

section \<open>The provider in memory\<close>

record memProvider =
  byHost :: "(string \<times> Tenant) list"
  creds :: "(string \<times> ConnectorCreds) list"

definition seed_tenant :: "seed_entry \<Rightarrow> Tenant" where
  "seed_tenant e = zero_tenant\<lparr> tID := sd_ID e, Slug := sd_Slug e, Host := sd_Host e,
     OAuthIssuer := sd_OAuthIssuer e, tJWKSURL := sd_JWKSURL e, BasePublicURL := sd_BasePublicURL e,
     AuthMode := ''byoidc'', AccountClaim := ''sub'' \<rparr>"

definition seed_creds :: "seed_entry \<Rightarrow> ConnectorCreds" where
  "seed_creds e = \<lparr> ShopifyDomain = sd_ShopifyDomain e, ShopifyToken = sd_ShopifyToken e \<rparr>"

definition add_seed :: "memProvider \<Rightarrow> seed_entry \<Rightarrow> memProvider" where
  "add_seed p e = p\<lparr> byHost := AList.update (sd_Host e) (seed_tenant e) (byHost p),
     creds := AList.update (sd_ID e @ '':shopify'') (seed_creds e) (creds p) \<rparr>"

definition dev_hosts :: "string list" where
  "dev_hosts = [''localhost:8081'', ''127.0.0.1:8081'', ''host.docker.internal:8081'', ''manifest:8081'',
     ''localhost:8080'', ''127.0.0.1:8080'', ''host.docker.internal:8080'', ''connector:8080'']"

definition dev_tenant :: "environ \<Rightarrow> Tenant" where
  "dev_tenant env = zero_tenant\<lparr> tID := ''00000000-0000-0000-0000-000000000001'', Slug := ''dev'',
     OAuthIssuer := env ''OIDC_ISSUER'', tJWKSURL := env ''JWKS_URL'', BasePublicURL := env ''BASE_PUBLIC_URL'',
     AuthMode := ''byoidc'', AccountClaim := ''sub'' \<rparr>"

text \<open>The decoder \<open>parse\<close> yields the objects of the array, an empty list if the text is not one.\<close>

definition NewMemoryProviderFromEnv :: "(string \<Rightarrow> kvs list) \<Rightarrow> environ \<Rightarrow> memProvider" where
  "NewMemoryProviderFromEnv parse env =
     (if env ''TENANT_SEED_JSON'' \<noteq> []
      then foldl add_seed \<lparr> byHost = [], creds = [] \<rparr> (map decode_entry (parse (env ''TENANT_SEED_JSON'')))
      else \<lparr> byHost = foldl (\<lambda>m h. AList.update h ((dev_tenant env)\<lparr> Host := h \<rparr>) m) [] dev_hosts, creds = [] \<rparr>)"

definition mem_by_host :: "memProvider \<Rightarrow> string \<Rightarrow> string + Tenant" where
  "mem_by_host p host = (case map_of (byHost p) host of Some t \<Rightarrow> Inr t | None \<Rightarrow> Inl ''tenant not found'')"

definition mem_by_id :: "memProvider \<Rightarrow> string \<Rightarrow> string + Tenant" where
  "mem_by_id p i = (case find (\<lambda>(h, t). tID t = i) (byHost p) of
      Some (h, t) \<Rightarrow> Inr t | None \<Rightarrow> Inl ''tenant not found'')"

definition mem_creds :: "memProvider \<Rightarrow> string \<Rightarrow> string \<Rightarrow> string + ConnectorCreds" where
  "mem_creds p tid kind = (case map_of (creds p) (tid @ '':'' @ kind) of
      Some c \<Rightarrow> Inr c | None \<Rightarrow> Inl ''connector creds not found'')"

definition mem_kinds :: "memProvider \<Rightarrow> string \<Rightarrow> string list" where
  "mem_kinds p tid = map (\<lambda>(k, _). drop (length tid + 1) k)
     (filter (\<lambda>(k, _). length k > length tid + 1 \<and> take (length tid) k = tid) (creds p))"

definition mem_ok :: "memProvider \<Rightarrow> bool" where
  "mem_ok p \<longleftrightarrow> (\<forall>(h, t) \<in> set (byHost p). Host t = h)"

lemma mem_ok_add_seed: "mem_ok p \<Longrightarrow> mem_ok (add_seed p e)"
proof -
  assume ok: "mem_ok p"
  have "set (AList.update k v m) \<subseteq> insert (k, v) (set m)" for k v and m :: "(string \<times> Tenant) list"
    by (induction m) auto
  then show ?thesis using ok by (fastforce simp: mem_ok_def add_seed_def seed_tenant_def)
qed

interpretation mem: tenant_provider mem_ok mem_by_host mem_by_id
  by unfold_locales
     (fastforce simp: mem_ok_def mem_by_host_def mem_by_id_def split: option.splits dest!: map_of_SomeD find_set)+

lemma foldl_inv: "P a \<Longrightarrow> (\<And>a x. P a \<Longrightarrow> P (f a x)) \<Longrightarrow> P (foldl f a xs)"
  by (induction xs arbitrary: a) auto

lemma dev_byHost: "byHost (NewMemoryProviderFromEnv parse env) =
    map (\<lambda>h. (h, (dev_tenant env)\<lparr> Host := h \<rparr>)) dev_hosts" if "env ''TENANT_SEED_JSON'' = []"
  using that by (simp add: NewMemoryProviderFromEnv_def dev_hosts_def)

lemma mem_ok_new: "mem_ok (NewMemoryProviderFromEnv parse env)"
proof (cases "env ''TENANT_SEED_JSON'' = []")
  case True
  then show ?thesis by (auto simp: mem_ok_def dev_byHost)
next
  case False
  have "mem_ok \<lparr> byHost = [], creds = [] \<rparr>" by (simp add: mem_ok_def)
  then show ?thesis
    using False by (auto simp: NewMemoryProviderFromEnv_def intro: foldl_inv mem_ok_add_seed)
qed

section \<open>The provider over the database\<close>

text \<open>A member that is not a string leaves the zero value at its key.\<close>

definition acr_map :: "gval option \<Rightarrow> (string \<times> string) list" where
  "acr_map j = (case j of
       Some (VMap m) \<Rightarrow> map (\<lambda>(k, v). (k, case v of VStr s \<Rightarrow> s | _ \<Rightarrow> [])) m
     | _ \<Rightarrow> [])"

definition or_empty :: "string option \<Rightarrow> string" where
  "or_empty c = (case c of None \<Rightarrow> [] | Some s \<Rightarrow> s)"

text \<open>\<^verbatim>\<open>row.Scan\<close>: NULL in slug, host, issuer, mode or the DPoP flag is an error.\<close>

definition scan_tenant :: "tenant_row \<Rightarrow> string + Tenant" where
  "scan_tenant r =
     (case (tn_slug r, tn_host r, tn_issuer r, tn_auth_mode r, tn_dpop_required r) of
        (Some sl, Some h, Some iss, Some mode, Some dpop) \<Rightarrow> Inr \<lparr>
          tID = tn_id r, Slug = sl, Host = h, OAuthIssuer = iss, tJWKSURL = or_empty (tn_jwks_url r),
          BasePublicURL = or_empty (tn_base_url r), AuthMode = mode, DiscoveryURL = or_empty (tn_discovery_url r),
          AcceptedAudiences = (case tn_audiences r of None \<Rightarrow> [] | Some a \<Rightarrow> a),
          AccountClaim = (case tn_account_claim r of None \<Rightarrow> ''sub'' | Some c \<Rightarrow> c),
          MachineAllowedScopes = (case tn_machine_scopes r of None \<Rightarrow> [] | Some a \<Rightarrow> a),
          RequiredACRByAction = acr_map (tn_required_acr r), DPoPRequired = dpop \<rparr>
      | _ \<Rightarrow> Inl ''tenant not found'')"

definition pg_lookup :: "db \<Rightarrow> stmt \<Rightarrow> (tenant_row \<Rightarrow> bool) \<Rightarrow> string + Tenant" where
  "pg_lookup d st P =
     (if faults d st then Inl ''tenant not found''
      else (case find P (tenants d) of None \<Rightarrow> Inl ''tenant not found'' | Some r \<Rightarrow> scan_tenant r))"

definition pg_by_host :: "db \<Rightarrow> string \<Rightarrow> string + Tenant" where
  "pg_by_host d host = pg_lookup d TenantByHost (\<lambda>r. tn_host r = Some host)"

definition pg_by_id :: "db \<Rightarrow> string \<Rightarrow> string + Tenant" where
  "pg_by_id d i = pg_lookup d TenantById (\<lambda>r. tn_id r = i)"

text \<open>The operator \<^verbatim>\<open>->>\<close>: a member of an object as text.\<close>

definition json_text_member :: "runtime \<Rightarrow> gval option \<Rightarrow> string \<Rightarrow> string" where
  "json_text_member rt j k =
     (case j of Some (VMap m) \<Rightarrow> (case map_of m k of
          None \<Rightarrow> [] | Some VNil \<Rightarrow> [] | Some (VStr s) \<Rightarrow> s | Some v \<Rightarrow> json_text rt v)
      | _ \<Rightarrow> [])"

definition pg_creds :: "runtime \<Rightarrow> db \<Rightarrow> string \<Rightarrow> string \<Rightarrow> string + ConnectorCreds" where
  "pg_creds rt d tid kind =
     (if faults d CredsQuery then Inl ''connector creds not found''
      else (case find (\<lambda>r. df_tenant r = tid \<and> df_kind r = Some kind) (definitions d) of
              None \<Rightarrow> Inl ''connector creds not found''
            | Some r \<Rightarrow> Inr \<lparr> ShopifyDomain = json_text_member rt (df_config r) ''domain'',
                              ShopifyToken = json_text_member rt (df_secret r) ''token'' \<rparr>))"

text \<open>The loop drops the error of \<^verbatim>\<open>rows.Scan\<close>: a NULL kind is listed as empty and ends the list.\<close>

fun scan_kinds :: "definition_row list \<Rightarrow> string list" where
  "scan_kinds [] = []"
| "scan_kinds (r # rs) = (case df_kind r of None \<Rightarrow> [[]] | Some k \<Rightarrow> k # scan_kinds rs)"

definition pg_kinds :: "db \<Rightarrow> string \<Rightarrow> string list option" where
  "pg_kinds d tid =
     (if faults d KindsQuery then None
      else Some (scan_kinds (filter (\<lambda>r. df_tenant r = tid) (definitions d))))"

lemma scan_tenant_keys: "scan_tenant r = Inr t \<Longrightarrow> tID t = tn_id r \<and> tn_host r = Some (Host t)"
  by (auto simp: scan_tenant_def split: option.splits prod.splits)

interpretation pg: tenant_provider "\<lambda>_. True" pg_by_host pg_by_id
  by unfold_locales
     (auto simp: pg_by_host_def pg_by_id_def pg_lookup_def split: if_splits option.splits
       dest!: scan_tenant_keys find_set)

section \<open>Seeding the database\<close>

definition seed_row :: "seed_entry \<Rightarrow> tenant_row" where
  "seed_row e = \<lparr> tn_id = sd_ID e, tn_slug = Some (sd_Slug e), tn_host = Some (sd_Host e),
     tn_issuer = Some (sd_OAuthIssuer e), tn_jwks_url = Some (sd_JWKSURL e), tn_base_url = Some (sd_BasePublicURL e),
     tn_auth_mode = Some ''byoidc'', tn_discovery_url = None, tn_audiences = Some [], tn_account_claim = Some ''sub'',
     tn_machine_scopes = Some [], tn_required_acr = Some (VMap []), tn_dpop_required = Some False, tn_client_user = None, tn_client_machine = None \<rparr>"

text \<open>\<^verbatim>\<open>INSERT ... ON CONFLICT (id) DO UPDATE\<close>: slug and host are unique, a clash with another row is an
  error that is dropped.\<close>

definition upsert_tenant :: "db \<Rightarrow> seed_entry \<Rightarrow> db" where
  "upsert_tenant d e =
     (if list_ex (\<lambda>r. tn_id r \<noteq> sd_ID e \<and> (tn_slug r = Some (sd_Slug e) \<or> tn_host r = Some (sd_Host e))) (tenants d)
      then d
      else if list_ex (\<lambda>r. tn_id r = sd_ID e) (tenants d)
      then d\<lparr> tenants := map (\<lambda>r. if tn_id r = sd_ID e
          then r\<lparr> tn_slug := Some (sd_Slug e), tn_host := Some (sd_Host e), tn_issuer := Some (sd_OAuthIssuer e),
                   tn_jwks_url := Some (sd_JWKSURL e), tn_base_url := Some (sd_BasePublicURL e) \<rparr> else r) (tenants d) \<rparr>
      else d\<lparr> tenants := tenants d @ [seed_row e] \<rparr>)"

definition shopify_definition :: "string \<Rightarrow> seed_entry \<Rightarrow> definition_row" where
  "shopify_definition i e = \<lparr> df_id = i, df_tenant = sd_ID e, df_kind = Some ''shopify'',
     df_builtin_kind = Some ''shopify'', df_config = Some (VMap [(''domain'', VStr (sd_ShopifyDomain e))]),
     df_secret = Some (VMap [(''token'', VStr (sd_ShopifyToken e))]), df_base_url = None, df_auth_ref = None,
     df_title = None, df_summary = None \<rparr>"

definition seed_operation :: "string \<Rightarrow> string \<Rightarrow> string \<Rightarrow> string \<Rightarrow> string \<Rightarrow> operation_row" where
  "seed_operation i conn path summary scope = \<lparr> op_id = i, op_connector = conn, op_method = Some ''POST'',
     op_path = Some path, op_summary = Some summary, op_scopes = Some [scope], op_params = None,
     op_request_tmpl = None, op_enabled = Some True \<rparr>"

text \<open>An operation needs its connector (foreign key) and an unused id (primary key).\<close>

definition add_operation :: "db \<Rightarrow> operation_row \<Rightarrow> db" where
  "add_operation d q =
     (if list_ex (\<lambda>f. df_id f = op_connector q) (definitions d) \<and> \<not> list_ex (\<lambda>r. op_id r = op_id q) (operations d)
      then d\<lparr> operations := operations d @ [q] \<rparr> else d)"

text \<open>One entry; \<open>ids\<close> are the three values the process draws from \<^verbatim>\<open>uuid.New()\<close>.\<close>

definition seed_one :: "db \<Rightarrow> seed_entry \<times> string \<times> string \<times> string \<Rightarrow> db" where
  "seed_one d x = (case x of (e, i1, i2, i3) \<Rightarrow>
     let d1 = upsert_tenant d e;
         (defID, d2) = (case find (\<lambda>f. df_tenant f = sd_ID e \<and> df_kind f = Some ''shopify'') (definitions d1) of
             Some f \<Rightarrow> (df_id f, d1)
           | None \<Rightarrow> (i1, if list_ex (\<lambda>r. tn_id r = sd_ID e) (tenants d1)
                             \<and> \<not> list_ex (\<lambda>f. df_id f = i1) (definitions d1)
                          then d1\<lparr> definitions := definitions d1 @ [shopify_definition i1 e] \<rparr> else d1));
         d3 = add_operation d2 (seed_operation i2 defID ''/v1/checkout-link'' ''Create checkout link'' ''order:write'')
     in add_operation d3 (seed_operation i3 defID ''/v1/orders/{id}/refund'' ''Refund order'' ''refund:write''))"

definition SeedFromEnv ::
  "(string \<Rightarrow> kvs list option) \<Rightarrow> (nat \<Rightarrow> string) \<Rightarrow> db \<Rightarrow> string \<Rightarrow> string option \<times> db" where
  "SeedFromEnv parse uuids d jsonSeed =
     (if jsonSeed = [] then (None, d)
      else (case parse jsonSeed of
              None \<Rightarrow> (Some ''invalid seed'', d)
            | Some entries \<Rightarrow>
                (None, foldl seed_one d (map (\<lambda>(j, m). (decode_entry m, uuids (3 * j), uuids (3 * j + 1), uuids (3 * j + 2)))
                   (enumerate 0 entries)))))"

section \<open>Properties of seeding\<close>

lemma seed_names:
  "to_lower ''ID'' = ''id''" "to_lower ''Slug'' = ''slug''" "to_lower ''Host'' = ''host''"
  "to_lower ''OAuthIssuer'' = ''oauthissuer''" "to_lower ''JWKSURL'' = ''jwksurl''"
  "to_lower ''BasePublicURL'' = ''basepublicurl''" "to_lower ''ShopifyDomain'' = ''shopifydomain''"
  "to_lower ''ShopifyToken'' = ''shopifytoken''" "to_lower ''id'' = ''id''" "to_lower ''slug'' = ''slug''"
  "to_lower ''host'' = ''host''" "to_lower ''oauth_issuer'' = ''oauth_issuer''" "to_lower ''jwks_url'' = ''jwks_url''"
  "to_lower ''base_public_url'' = ''base_public_url''" "to_lower ''shopify_domain'' = ''shopify_domain''"
  "to_lower ''shopify_token'' = ''shopify_token''"
  by code_simp+

text \<open>The documented seed loses most of its fields.  For an entry written with the keys the comment on
  \<^verbatim>\<open>SeedFromEnv\<close> gives, only id, slug and host are decoded; issuer, key set URL, public URL and the shop's
  credentials come out empty whatever values were given.\<close>

theorem documented_seed_keys_ignored:
  "decode_entry [(''id'', VStr i), (''slug'', VStr sl), (''host'', VStr h), (''oauth_issuer'', VStr iss),
      (''jwks_url'', VStr j), (''base_public_url'', VStr b), (''shopify_domain'', VStr sd), (''shopify_token'', VStr st)]
   = \<lparr> sd_ID = i, sd_Slug = sl, sd_Host = h, sd_OAuthIssuer = [], sd_JWKSURL = [], sd_BasePublicURL = [],
       sd_ShopifyDomain = [], sd_ShopifyToken = [] \<rparr>"
  by (simp add: decode_entry_def seed_field_def seed_names)

lemma upsert_tables [simp]:
  "operations (upsert_tenant d e) = operations d" "definitions (upsert_tenant d e) = definitions d"
  by (simp_all add: upsert_tenant_def)

text \<open>Every start adds the operations again.  Seeding an entry of a known tenant with fresh ids appends the
  two operations of the shop connector, whether or not operations with the same method and path are
  already there; the conflict clause never applies to freshly drawn ids.\<close>

theorem seed_one_appends:
  assumes "list_ex (\<lambda>r. tn_id r = sd_ID e) (tenants (upsert_tenant d e))"
    and "\<not> list_ex (\<lambda>f. df_id f = i1) (definitions d)"
    and "\<not> list_ex (\<lambda>q. op_id q = i2 \<or> op_id q = i3) (operations d)" "i2 \<noteq> i3"
  shows "\<exists>conn. operations (seed_one d (e, i1, i2, i3)) = operations d
     @ [seed_operation i2 conn ''/v1/checkout-link'' ''Create checkout link'' ''order:write'',
        seed_operation i3 conn ''/v1/orders/{id}/refund'' ''Refund order'' ''refund:write'']"
proof -
  have add: "operations (add_operation d' q) = operations d' @ [q]" "definitions (add_operation d' q) = definitions d'"
    if "list_ex (\<lambda>f. df_id f = op_connector q) (definitions d')" "\<not> list_ex (\<lambda>r. op_id r = op_id q) (operations d')" for d' q
    using that by (simp_all add: add_operation_def)
  have ids: "\<not> list_ex (\<lambda>r. op_id r = i2) (operations d)" "\<not> list_ex (\<lambda>r. op_id r = i3) (operations d)"
    using assms(3) by (auto simp: list_ex_iff)
  show ?thesis
  proof (cases "find (\<lambda>f. df_tenant f = sd_ID e \<and> df_kind f = Some ''shopify'') (definitions d)")
    case None
    then show ?thesis
      using assms ids by (intro exI [of _ i1])
        (simp add: seed_one_def Let_def add shopify_definition_def seed_operation_def)
  next
    case (Some f)
    then have "list_ex (\<lambda>g. df_id g = df_id f) (definitions d)"
      using find_set [OF Some] by (auto simp: list_ex_iff)
    with Some show ?thesis
      using assms ids by (intro exI [of _ "df_id f"]) (simp add: seed_one_def Let_def add seed_operation_def)
  qed
qed

definition demo_entry :: seed_entry where
  "demo_entry = decode_entry [(''id'', VStr ''t1''), (''host'', VStr ''acme.test'')]"

definition no_tables :: db where
  "no_tables = \<lparr> rls_applies = False, cte_runs = False, text_as_uuid = False, faults = (\<lambda>_. False), resolvers = [],
     mappings = [], policy_versions = [], decisions = [], executions = [], definitions = [], operations = [],
     tenant_connectors = [], auth_configs = [], usage_events = [], tenants = [], actions = [], connectors = [],
     tenant_policies = [], audit_log = [] \<rparr>"

theorem seed_one_appends_witness:
  "\<exists>conn. operations (seed_one no_tables (demo_entry, ''c'', ''o1'', ''o2'')) =
      [seed_operation ''o1'' conn ''/v1/checkout-link'' ''Create checkout link'' ''order:write'',
       seed_operation ''o2'' conn ''/v1/orders/{id}/refund'' ''Refund order'' ''refund:write'']"
  using seed_one_appends [of demo_entry no_tables "''c''" "''o1''" "''o2''"]
  by (simp add: no_tables_def upsert_tenant_def seed_row_def)

end
