(* ===== verification/Templates.thy ===== *)
theory Templates
  imports Go_Values
begin

text \<open>
  Request templates of \<^verbatim>\<open>internal/orchestrator/service.go\<close>: placeholders \<^verbatim>\<open>{{a.b}}\<close> filled from the
  inputs, path parameters \<^verbatim>\<open>{name}\<close>, the escaping functions of \<^verbatim>\<open>net/url\<close> and the canonical form of
  header names.  The regular expressions of the code are matched by scanners: their character
  classes are disjoint, so a match at a position is unique.
\<close>

section \<open>Replacing matches\<close>

text \<open>\<^verbatim>\<open>ReplaceAllStringFunc\<close> for a matcher that, at the front of a string, returns the captured group and
  the rest behind the match.\<close>

function replace_all :: "(string \<Rightarrow> (string \<times> string) option) \<Rightarrow> (string \<Rightarrow> string) \<Rightarrow> string \<Rightarrow> string" where
  "replace_all m f s =
     (case m s of
        Some (k, r) \<Rightarrow> if length r < length s then f k @ replace_all m f r else s
      | None \<Rightarrow> (case s of [] \<Rightarrow> [] | c # cs \<Rightarrow> c # replace_all m f cs))"
  by pat_completeness auto
termination by (relation "measure (\<lambda>(m, f, s). length s)") auto

declare replace_all.simps [simp del]

definition is_ws :: "char \<Rightarrow> bool" where
  "is_ws c \<longleftrightarrow> c \<in> {CHR 0x20, CHR 0x09, CHR 0x0A, CHR 0x0C, CHR 0x0D}"

definition name_char :: "char \<Rightarrow> bool" where
  "name_char c \<longleftrightarrow> is_alnum c \<or> c = CHR ''_''"

definition key_char :: "char \<Rightarrow> bool" where
  "key_char c \<longleftrightarrow> name_char c \<or> c = CHR ''.''"

text \<open>The pattern for placeholders: two braces, spaces, a dotted key, spaces, two braces.\<close>

definition match_close :: "string \<Rightarrow> string \<Rightarrow> string \<Rightarrow> (string \<times> string) option" where
  "match_close cl k r = (if k \<noteq> [] \<and> has_prefix cl r then Some (k, drop (length cl) r) else None)"

definition match_key :: "string \<Rightarrow> (string \<times> string) option" where
  "match_key r = match_close ''}}'' (takeWhile key_char r) (dropWhile is_ws (dropWhile key_char r))"

definition match_placeholder :: "string \<Rightarrow> (string \<times> string) option" where
  "match_placeholder s = (if has_prefix ''{{'' s then match_key (dropWhile is_ws (drop 2 s)) else None)"

text \<open>The pattern for path parameters: a name in single braces.\<close>

definition match_param :: "string \<Rightarrow> (string \<times> string) option" where
  "match_param s =
     (if has_prefix ''{'' s then match_close ''}'' (takeWhile name_char (tl s)) (dropWhile name_char (tl s)) else None)"

section \<open>Placeholders\<close>

fun dot_path :: "gval \<Rightarrow> string list \<Rightarrow> gval" where
  "dot_path cur [] = cur"
| "dot_path cur (seg # segs) =
     (case as_map cur of Some mm \<Rightarrow> dot_path (mget mm seg) segs | None \<Rightarrow> VNil)"

definition placeholder_value :: "runtime \<Rightarrow> gomap \<Rightarrow> string \<Rightarrow> string" where
  "placeholder_value rt input key =
     (let cur = dot_path (any_of_map input) (str_split ''.'' key)
      in if cur = VNil then [] else sprint rt cur)"

definition resolve :: "runtime \<Rightarrow> gomap \<Rightarrow> gval \<Rightarrow> string" where
  "resolve rt input v =
     (let s = sprint rt v
      in if \<not> str_contains s ''{{'' then s
         else replace_all match_placeholder (placeholder_value rt input) s)"

section \<open>Escaping\<close>

definition upper_hex :: "nat \<Rightarrow> char" where
  "upper_hex d = char_of (if d < 10 then 48 + d else 55 + d)"

definition percent :: "char \<Rightarrow> string" where
  "percent c = [CHR ''%'', upper_hex (of_char c div 16), upper_hex (of_char c mod 16)]"

definition unreserved :: "char \<Rightarrow> bool" where
  "unreserved c \<longleftrightarrow> is_alnum c \<or> c \<in> set ''-_.~''"

definition PathEscape :: "string \<Rightarrow> string" where
  "PathEscape s = concat (map (\<lambda>c. if unreserved c \<or> c \<in> set ''$&+:=@'' then [c] else percent c) s)"

definition QueryEscape :: "string \<Rightarrow> string" where
  "QueryEscape s = concat (map (\<lambda>c. if unreserved c then [c] else if c = CHR '' '' then ''+'' else percent c) s)"

text \<open>\<^verbatim>\<open>url.Values.Encode\<close> for single values: pairs sorted by key.\<close>

definition Encode :: "(string \<times> string) list \<Rightarrow> string" where
  "Encode kv = str_join ''&'' (map (\<lambda>(k, v). QueryEscape k @ ''='' @ QueryEscape v) (sort_key fst kv))"

section \<open>Path parameters\<close>

definition param_value :: "runtime \<Rightarrow> gomap \<Rightarrow> kvs \<Rightarrow> string \<Rightarrow> string" where
  "param_value rt input pv name =
     (case map_of pv name of
        None \<Rightarrow> ''{'' @ name @ ''}''
      | Some raw \<Rightarrow> (let val = PathEscape (resolve rt input raw)
                     in if val = [] then ''{'' @ name @ ''}'' else val))"

definition fill_path :: "runtime \<Rightarrow> gomap \<Rightarrow> kvs option \<Rightarrow> string \<Rightarrow> string" where
  "fill_path rt input pv u =
     (case pv of None \<Rightarrow> u | Some m \<Rightarrow> replace_all match_param (param_value rt input m) u)"

definition attach_query :: "string \<Rightarrow> string \<Rightarrow> string" where
  "attach_query u enc =
     (if enc = [] then u else if str_contains u ''?'' then u @ ''&'' @ enc else u @ ''?'' @ enc)"

section \<open>Header names\<close>

definition token_char :: "char \<Rightarrow> bool" where
  "token_char c \<longleftrightarrow> is_alnum c \<or> c \<in> set ''!#$%&*+-.^_|~'' \<or> c = CHR 0x27 \<or> c = CHR 0x60"

fun canon_go :: "bool \<Rightarrow> string \<Rightarrow> string" where
  "canon_go up [] = []"
| "canon_go up (c # cs) = (if up then upper_char c else lower_char c) # canon_go (c = CHR ''-'') cs"

definition canonical_key :: "string \<Rightarrow> string" where
  "canonical_key k = (if list_all token_char k then canon_go True k else k)"

definition header_set :: "(string \<times> string) list \<Rightarrow> string \<Rightarrow> string \<Rightarrow> (string \<times> string) list" where
  "header_set h k v = AList.update (canonical_key k) v h"

definition header_get :: "(string \<times> string) list \<Rightarrow> string \<Rightarrow> string" where
  "header_get h k = (case map_of h (canonical_key k) of None \<Rightarrow> [] | Some v \<Rightarrow> v)"

section \<open>Lemmas\<close>

text \<open>Characters that give a URL its structure never come out of an escaped value.\<close>

definition url_struct :: "char \<Rightarrow> bool" where
  "url_struct c \<longleftrightarrow> c \<in> set ''/?# ''"

lemma upper_hex_alnum: "d < 16 \<Longrightarrow> is_alnum (upper_hex d)"
  by (auto simp: upper_hex_def is_alnum_def is_digit_def is_upper_def is_lower_def char_le_nat)

lemma set_percent: "c \<in> set (percent x) \<Longrightarrow> is_alnum c \<or> c = CHR ''%''"
  using upper_hex_alnum [of "of_char x div 16"] upper_hex_alnum [of "of_char x mod 16"]
  by (auto simp: percent_def of_char_def)

lemma alnum_not_special: "is_alnum c \<Longrightarrow> c \<notin> set ''/?# &=+%{}''"
  by (auto simp: is_alnum_def is_lower_def is_upper_def is_digit_def char_le_nat)

lemma set_PathEscape: "c \<in> set (PathEscape s) \<Longrightarrow> unreserved c \<or> c \<in> set ''$&+:=@%''"
  by (auto simp: PathEscape_def unreserved_def dest!: set_percent split: if_splits)

lemma set_QueryEscape: "c \<in> set (QueryEscape s) \<Longrightarrow> unreserved c \<or> c \<in> set ''+%''"
  by (auto simp: QueryEscape_def unreserved_def dest!: set_percent split: if_splits)

lemma unreserved_not_special: "unreserved c \<Longrightarrow> c \<notin> set ''/?# &=+%{}''"
  by (auto simp: unreserved_def dest!: alnum_not_special)

lemma PathEscape_no_struct: "filter url_struct (PathEscape s) = []"
  by (auto simp: filter_empty_conv url_struct_def dest!: set_PathEscape unreserved_not_special)

lemma PathEscape_no_brace: "CHR ''{'' \<notin> set (PathEscape s)"
  by (auto dest!: set_PathEscape unreserved_not_special)

lemma QueryEscape_no_sep: "c \<in> set (QueryEscape s) \<Longrightarrow> c \<noteq> CHR ''&'' \<and> c \<noteq> CHR ''=''"
  by (auto dest!: set_QueryEscape unreserved_not_special)

text \<open>Replacement keeps any projection of the string that it keeps of every match.\<close>

lemma replace_all_filter:
  assumes "\<And>s k r. m s = Some (k, r) \<Longrightarrow> filter P s = filter P (f k) @ filter P r"
  shows "filter P (replace_all m f s) = filter P s"
proof (induction s rule: length_induct)
  case (1 s)
  show ?case
  proof (cases "m s")
    case None
    then show ?thesis using 1 by (subst replace_all.simps) (auto split: list.splits)
  next
    case (Some kr)
    then show ?thesis using 1 assms
      by (subst replace_all.simps) (auto split: prod.splits)
  qed
qed

lemma match_param_split: "match_param s = Some (k, r) \<Longrightarrow> s = ''{'' @ k @ ''}'' @ r \<and> list_all name_char k \<and> k \<noteq> []"
proof -
  assume m: "match_param s = Some (k, r)"
  then obtain t where t: "s = CHR ''{'' # t"
    by (cases s) (auto simp: match_param_def has_prefix_def split: if_splits)
  with m have "k = takeWhile name_char t" "has_prefix ''}'' (dropWhile name_char t)"
      "r = drop 1 (dropWhile name_char t)" "k \<noteq> []"
    by (auto simp: match_param_def match_close_def has_prefix_def split: if_splits)
  then have k: "k = takeWhile name_char t" "k \<noteq> []" and r: "dropWhile name_char t = ''}'' @ r"
    by (cases "dropWhile name_char t"; simp add: has_prefix_def)+
  have "t = k @ ''}'' @ r" using takeWhile_dropWhile_id [of name_char t] unfolding r k(1) [symmetric] by simp
  moreover have "list_all name_char k" unfolding k(1) list_all_iff by (auto dest: set_takeWhileD)
  ultimately show ?thesis using t k(2) by simp
qed

lemma name_char_no_struct: "list_all name_char k \<Longrightarrow> filter url_struct k = []"
  by (auto simp: filter_empty_conv list_all_iff name_char_def url_struct_def dest!: bspec alnum_not_special)

lemma param_value_no_struct: "list_all name_char k \<Longrightarrow> filter url_struct (param_value rt input pv k) = []"
  by (auto simp: param_value_def Let_def PathEscape_no_struct name_char_no_struct url_struct_def
      simp flip: filter_empty_conv split: option.splits)

text \<open>C22: Path parameters cannot change the shape of a URL.  Whatever the inputs are, filling the path
  parameters leaves the sequence of slashes, question marks, hashes and spaces of the configured URL
  unchanged.\<close>

theorem fill_path_structure: "filter url_struct (fill_path rt input pv u) = filter url_struct u"
proof -
  have "filter url_struct s = filter url_struct (param_value rt input m k) @ filter url_struct r"
    if "match_param s = Some (k, r)" for m s k r
    using match_param_split [OF that] param_value_no_struct [of k rt input m] name_char_no_struct [of k]
    by (auto simp: url_struct_def)
  then show ?thesis
    by (auto simp: fill_path_def intro: replace_all_filter split: option.splits)
qed

section \<open>Query strings\<close>

text \<open>The decoder of a server: pairs separated by \<^verbatim>\<open>&\<close>, key and value by the first \<^verbatim>\<open>=\<close>.\<close>

definition hex_value :: "char \<Rightarrow> nat" where
  "hex_value c = (if is_digit c then of_char c - 48 else of_char c - 55)"

fun QueryUnescape :: "string \<Rightarrow> string" where
  "QueryUnescape [] = []"
| "QueryUnescape (c # cs) =
     (if c = CHR ''%'' then (case cs of a # b # r \<Rightarrow> char_of (16 * hex_value a + hex_value b) # QueryUnescape r | _ \<Rightarrow> [])
      else if c = CHR ''+'' then CHR '' '' # QueryUnescape cs else c # QueryUnescape cs)"

definition query_pairs :: "string \<Rightarrow> (string \<times> string) list" where
  "query_pairs s = map (\<lambda>p. case str_cut ''='' p of None \<Rightarrow> (QueryUnescape p, [])
      | Some (a, b) \<Rightarrow> (QueryUnescape a, QueryUnescape b)) (str_split ''&'' s)"

lemma hex_value_upper: "d < 16 \<Longrightarrow> hex_value (upper_hex d) = d"
  by (auto simp: hex_value_def upper_hex_def is_digit_def char_le_nat)

lemma QueryUnescape_percent: "QueryUnescape (percent c @ s) = c # QueryUnescape s"
proof -
  have "(of_char c :: nat) div 16 < 16" using nat_of_char_less_256 [of c] by linarith
  then show ?thesis by (simp add: percent_def hex_value_upper)
qed

lemma QueryUnescape_Escape: "QueryUnescape (QueryEscape s) = s"
proof (induction s)
  case (Cons c s)
  then have IH: "QueryUnescape (concat (map (\<lambda>c. if unreserved c then [c] else if c = CHR '' '' then ''+'' else percent c) s)) = s"
    by (simp add: QueryEscape_def)
  show ?case
    using unreserved_not_special [of c] by (auto simp: QueryEscape_def IH QueryUnescape_percent)
qed (simp add: QueryEscape_def)

lemma str_split_none: "c \<notin> set s \<Longrightarrow> str_split [c] s = [s]"
  by (subst str_split.simps) (simp add: str_cut_single)

lemma str_cut_first: "c \<notin> set a \<Longrightarrow> str_cut [c] (a @ c # b) = Some (a, b)"
  by (simp add: str_cut_single takeWhile_append dropWhile_append takeWhile_eq_all_conv [THEN iffD2]
      dropWhile_eq_Nil_conv [THEN iffD2])

lemma str_split_first: "c \<notin> set a \<Longrightarrow> str_split [c] (a @ c # b) = a # str_split [c] b"
  by (subst str_split.simps) (simp add: str_cut_first)

lemma str_split_join:
  "xs \<noteq> [] \<Longrightarrow> (\<And>x. x \<in> set xs \<Longrightarrow> c \<notin> set x) \<Longrightarrow> str_split [c] (str_join [c] xs) = xs"
proof (induction xs)
  case (Cons x xs)
  then show ?case
    by (cases "xs = []") (auto simp: str_join_Cons str_split_none str_split_first)
qed simp



end
