(* ===== verification/Cache.thy ===== *)
theory Cache
  imports Prelude
begin

text \<open>
  The contract of a cache with a time to live, which the key cache of the authentication middleware
  and the operations cache of the connector registry both implement: a lookup returns an entry younger
  than the time to live, and otherwise asks the source and remembers what it got.
\<close>

text \<open>Every entry is what the source \<open>src\<close> served for its key when it was loaded.\<close>

definition tracks :: "(int \<Rightarrow> 'k \<Rightarrow> 'v option) \<Rightarrow> ('k \<Rightarrow> ('v \<times> int) option) \<Rightarrow> int \<Rightarrow> bool" where
  "tracks src ent now \<longleftrightarrow> (\<forall>k v t. ent k = Some (v, t) \<longrightarrow> t \<le> now \<and> src t k = Some v)"

text \<open>A value is fresh if the source served it within the last \<open>ttl\<close> units of time.\<close>

definition fresh_value :: "(int \<Rightarrow> 'k \<Rightarrow> 'v option) \<Rightarrow> int \<Rightarrow> int \<Rightarrow> 'k \<Rightarrow> 'v \<Rightarrow> bool" where
  "fresh_value src ttl now k v \<longleftrightarrow> (\<exists>t. now - ttl < t \<and> t \<le> now \<and> src t k = Some v)"

lemma tracks_mono: "tracks src ent now \<Longrightarrow> now \<le> now' \<Longrightarrow> tracks src ent now'"
  by (fastforce simp: tracks_def)

locale ttl_cache =
  fixes ttl :: int
    and ent :: "'s \<Rightarrow> 'k \<Rightarrow> ('v \<times> int) option"
    and get :: "('k \<Rightarrow> 'v option) \<Rightarrow> int \<Rightarrow> 's \<Rightarrow> 'k \<Rightarrow> 'v option \<times> 's"
  assumes ttl_pos: "0 < ttl"
    and hit: "ent s k = Some (v, t) \<Longrightarrow> now - t < ttl \<Longrightarrow> get fetch now s k = (Some v, s)"
    and miss: "(\<And>v t. ent s k = Some (v, t) \<Longrightarrow> \<not> now - t < ttl) \<Longrightarrow>
        fst (get fetch now s k) = fetch k
        \<and> ent (snd (get fetch now s k)) = (case fetch k of None \<Rightarrow> ent s | Some v \<Rightarrow> (ent s)(k \<mapsto> (v, now)))"
begin

lemma get_cases:
  obtains (cached) v t where "ent s k = Some (v, t)" "now - t < ttl" "get fetch now s k = (Some v, s)"
  | (loaded) "fst (get fetch now s k) = fetch k"
      "ent (snd (get fetch now s k)) = (case fetch k of None \<Rightarrow> ent s | Some v \<Rightarrow> (ent s)(k \<mapsto> (v, now)))"
proof (cases "\<exists>v t. ent s k = Some (v, t) \<and> now - t < ttl")
  case True
  then show ?thesis using hit that(1) by blast
next
  case False
  then show ?thesis using miss [of s k now fetch] that(2) by blast
qed

text \<open>A lookup keeps the invariant and returns only fresh values.\<close>

lemma get_tracks:
  assumes "tracks src (ent s) now"
  shows "tracks src (ent (snd (get (src now) now s k))) now"
proof (cases rule: get_cases [of s k now "src now"])
  case loaded
  then show ?thesis using assms by (auto simp: tracks_def split: option.splits if_splits)
qed (use assms in simp)

lemma get_fresh:
  assumes "tracks src (ent s) now" "fst (get (src now) now s k) = Some v"
  shows "fresh_value src ttl now k v"
proof (cases rule: get_cases [of s k now "src now"])
  case (cached v' t)
  then have "v' = v" "t \<le> now" "src t k = Some v" using assms by (auto simp: tracks_def)
  then show ?thesis using cached(2) by (auto simp: fresh_value_def intro!: exI [of _ t])
next
  case loaded
  then show ?thesis using assms(2) ttl_pos by (auto simp: fresh_value_def intro!: exI [of _ now])
qed

text \<open>Over a sequence of lookups at non-decreasing times every answer is fresh.\<close>

lemma run_fresh:
  assumes "tracks src (ent s) now0" "sorted (now0 # map fst rs)" "i < length rs" "rs ! i = (now, k)"
    and "fst (get (src now) now (foldl (\<lambda>s (n, k). snd (get (src n) n s k)) s (take i rs)) k) = Some v"
  shows "fresh_value src ttl now k v"
  using assms
proof (induction rs arbitrary: s now0 i)
  case (Cons r rs)
  obtain n0 k0 where r: "r = (n0, k0)" by fastforce
  have tr: "tracks src (ent s) n0" using Cons.prems(1,2) r by (auto intro: tracks_mono)
  show ?case
  proof (cases i)
    case 0
    then show ?thesis using Cons.prems tr get_fresh r by auto
  next
    case (Suc j)
    then show ?thesis
      using Cons.prems r by (intro Cons.IH [OF get_tracks [OF tr, of k0], of j]) auto
  qed
qed simp

end

end
