(* ===== verification/Demo.thy ===== *)
theory Demo
  imports Store
begin

text \<open>
  Concrete instances of the parameters, used to show that the hypotheses of the theorems can hold:
  a runtime, a path search over the top level of a document, a tenant, and a database with one
  configured action.
\<close>

definition demo_rt :: runtime where
  "demo_rt = \<lparr> fmt_float = (\<lambda>_. ''0''), json_float = (\<lambda>_. ''0''), parse_float = (\<lambda>_. None),
     parse_time = (\<lambda>_ _. None), format_rfc3339 = show_int, sha256 = (\<lambda>s. CHR 0x23 # s) \<rparr>"

definition demo_search :: "string \<Rightarrow> gval \<Rightarrow> string + gval" where
  "demo_search p doc =
     (case as_map doc of
        None \<Rightarrow> Inl ''not an object''
      | Some m \<Rightarrow> (case map_of m p of None \<Rightarrow> Inl ''unknown'' | Some v \<Rightarrow> Inr v))"

definition empty_db :: db where
  "empty_db = \<lparr> rls_applies = True, cte_runs = False, text_as_uuid = False, faults = (\<lambda>_. False), resolvers = [],
     mappings = [], policy_versions = [], decisions = [], executions = [], definitions = [],
     operations = [], tenant_connectors = [], auth_configs = [], usage_events = [], tenants = [], actions = [],
     connectors = [], tenant_policies = [], audit_log = [] \<rparr>"

definition demo_mapping :: "string \<Rightarrow> string \<Rightarrow> bool \<Rightarrow> mapping_row" where
  "demo_mapping t path req = \<lparr> mp_id = ''m1'', mp_tenant = t, mp_action = ''shop.cancel'',
     mp_name = ''order'', mp_jmespath = path, mp_fact_key = ''order'', mp_transform = None,
     mp_transform_args = None, mp_required = req \<rparr>"

definition demo_db :: db where
  "demo_db = empty_db\<lparr> mappings := [demo_mapping ''t1'' ''inputs'' True] \<rparr>"

definition demo_tenant_row :: tenant_row where
  "demo_tenant_row = \<lparr> tn_id = ''t1'', tn_slug = Some ''acme'', tn_host = Some ''acme.test'', tn_issuer = Some ''https://id.test'',
     tn_jwks_url = None, tn_base_url = None, tn_auth_mode = Some ''byoidc'', tn_discovery_url = None,
     tn_audiences = None, tn_account_claim = None, tn_machine_scopes = None, tn_required_acr = None,
     tn_dpop_required = Some False, tn_client_user = None, tn_client_machine = None \<rparr>"

lemmas demo_defs = demo_rt_def demo_search_def empty_db_def demo_mapping_def demo_db_def
  as_map_def as_str_def as_arr_def any_of_map_def run_rows_def rls_rows_def tenant_setting_def

end
