(* ===== verification/Middleware.thy ===== *)
theory Middleware
  imports Tenants Templates Cache Demo
begin

text \<open>
  \<^verbatim>\<open>pkg/middleware\<close>: request ids, panic recovery, tenant resolution, token authentication and scopes.  A
  middleware looks at the request and the context and either answers itself, panics, or passes a
  context to the next handler.  Parsing and verifying tokens and fetching key sets are parameters; a
  token is the map of its claims.
\<close>

section \<open>Requests and contexts\<close>

record http_in =
  hi_method :: string
  hi_path :: string
  hi_host :: string
  hi_headers :: "(string \<times> string) list"

record ctx =
  cx_tenant :: "Tenant option"
  cx_scopes :: "string list option"
  cx_token :: "kvs option"
  cx_reqid :: string

definition no_ctx :: ctx where
  "no_ctx = \<lparr> cx_tenant = None, cx_scopes = None, cx_token = None, cx_reqid = [] \<rparr>"

datatype outcome = Halt int string | Panic string | Pass ctx

definition mw_then :: "outcome \<Rightarrow> (ctx \<Rightarrow> outcome) \<Rightarrow> outcome" where
  "mw_then a f = (case a of Pass c \<Rightarrow> f c | _ \<Rightarrow> a)"

section \<open>Request ids, recovery, debugging\<close>

definition RequestID :: "string \<Rightarrow> http_in \<Rightarrow> ctx \<Rightarrow> string \<times> outcome" where
  "RequestID fresh r c =
     (let h = header_get (hi_headers r) ''X-Request-Id''; i = (if h = [] then fresh else h)
      in (i, Pass (c\<lparr> cx_reqid := i \<rparr>)))"

definition Recover :: "outcome \<Rightarrow> outcome" where
  "Recover a = (case a of Panic _ \<Rightarrow> Halt 500 ''internal error'' | _ \<Rightarrow> a)"

text \<open>Tracing is set up at the first call and only if an endpoint is configured; a failure of the exporter or of the
  resource leaves it off.  \<open>exporter\<close> says whether the exporter can be made (with the option for plain HTTP or
  without), \<open>resource\<close> whether the resource can, \<open>otel\<close> is the handler of the library around the next one.\<close>

record tracing_state =
  tr_inited :: bool
  tr_instrumented :: bool

definition tracing_endpoint :: "environ \<Rightarrow> string" where
  "tracing_endpoint env =
     (if env ''OTEL_EXPORTER_OTLP_TRACES_ENDPOINT'' = [] then env ''OTEL_EXPORTER_OTLP_ENDPOINT''
      else env ''OTEL_EXPORTER_OTLP_TRACES_ENDPOINT'')"

definition Tracing ::
  "environ \<Rightarrow> (bool \<Rightarrow> bool) \<Rightarrow> bool \<Rightarrow> ('h \<Rightarrow> 'h) \<Rightarrow> tracing_state \<Rightarrow> tracing_state \<times> ('h \<Rightarrow> 'h)" where
  "Tracing env exporter resource otel st =
     (let endpoint = tracing_endpoint env;
          st' = (if tr_inited st then st
                 else if endpoint \<noteq> [] \<and> exporter (has_prefix ''http://'' (to_lower endpoint)) \<and> resource
                 then \<lparr> tr_inited = True, tr_instrumented = True \<rparr>
                 else st\<lparr> tr_inited := True \<rparr>)
      in (st', if tr_instrumented st' then otel else (\<lambda>next. next)))"

lemma Tracing_once:
  "Tracing env exporter resource otel st = (st', h) \<Longrightarrow> Tracing env' exporter' resource' otel st' = (st', h)"
  by (auto simp: Tracing_def Let_def split: if_splits)

lemma Tracing_off:
  "tracing_endpoint env = [] \<Longrightarrow>
     Tracing env exporter resource otel \<lparr> tr_inited = False, tr_instrumented = False \<rparr>
       = (\<lparr> tr_inited = True, tr_instrumented = False \<rparr>, \<lambda>next. next)"
  by (simp add: Tracing_def)

text \<open>The wrapper that passes on the first status code only; \<open>out\<close> is what the real writer received.\<close>

datatype wcall = WriteHeader int | Write string

record dwrapper =
  wrote :: bool
  code :: int
  out :: "wcall list"

definition debug_enabled :: "environ \<Rightarrow> bool" where
  "debug_enabled env =
     (let v = to_lower (env ''DEBUG_DOUBLE_WRITE'')
      in v \<noteq> [] \<and> (has_prefix ''1'' v \<or> has_prefix ''t'' v \<or> has_prefix ''y'' v))"

definition d_write_header :: "dwrapper \<Rightarrow> int \<Rightarrow> dwrapper" where
  "d_write_header d n =
     (if \<not> wrote d then d\<lparr> wrote := True, code := n, out := out d @ [WriteHeader n] \<rparr> else d)"

definition d_write :: "dwrapper \<Rightarrow> string \<Rightarrow> dwrapper" where
  "d_write d b =
     (let d1 = (if \<not> wrote d then d_write_header d 200 else d) in d1\<lparr> out := out d1 @ [Write b] \<rparr>)"

definition d_call :: "dwrapper \<Rightarrow> wcall \<Rightarrow> dwrapper" where
  "d_call d w = (case w of WriteHeader n \<Rightarrow> d_write_header d n | Write b \<Rightarrow> d_write d b)"

section \<open>Tenant resolution\<close>

definition open_path :: "string \<Rightarrow> bool" where
  "open_path p \<longleftrightarrow> p = ''/healthz'' \<or> p = ''/metrics''"

definition strip_port :: "string \<Rightarrow> string" where
  "strip_port host = (case str_cut '':'' host of None \<Rightarrow> host | Some (h, _) \<Rightarrow> if h = [] then host else h)"

definition local_names :: "string list" where
  "local_names = [''127.0.0.1'', ''host.docker.internal'', ''manifest'', ''connector'', ''policy'', ''admin-api'']"

definition tryHosts :: "string \<Rightarrow> string list" where
  "tryHosts host = host # (if host \<in> set local_names then [''localhost''] else [])"

fun first_tenant :: "(string \<Rightarrow> string + Tenant) \<Rightarrow> string list \<Rightarrow> Tenant option" where
  "first_tenant prov [] = None"
| "first_tenant prov (h # hs) = (case prov h of Inr t \<Rightarrow> Some t | Inl _ \<Rightarrow> first_tenant prov hs)"

definition WithTenant :: "(string \<Rightarrow> string + Tenant) \<Rightarrow> http_in \<Rightarrow> ctx \<Rightarrow> outcome" where
  "WithTenant prov r c =
     (if open_path (hi_path r) then Pass c
      else (case first_tenant prov (tryHosts (strip_port (hi_host r))) of
              None \<Rightarrow> Halt 404 ''unknown tenant''
            | Some t \<Rightarrow> Pass (c\<lparr> cx_tenant := Some t \<rparr>)))"

definition TenantFrom :: "ctx \<Rightarrow> Tenant" where
  "TenantFrom c = (case cx_tenant c of Some t \<Rightarrow> t | None \<Rightarrow> zero_tenant)"

section \<open>Scopes\<close>

definition ScopesFrom :: "ctx \<Rightarrow> string list" where
  "ScopesFrom c = (case cx_scopes c of Some s \<Rightarrow> s | None \<Rightarrow> [])"

definition HasAnyScope :: "ctx \<Rightarrow> string list \<Rightarrow> bool" where
  "HasAnyScope c required =
     (if required = [] then True
      else if ScopesFrom c = [] then False
      else list_ex (\<lambda>q. q \<in> set (ScopesFrom c)) required)"

definition bearer :: "http_in \<Rightarrow> string option" where
  "bearer r =
     (let authz = header_get (hi_headers r) ''Authorization''
      in if has_prefix ''bearer '' (to_lower authz) then Some (trim_space (drop 7 authz)) else None)"

text \<open>The scope claim: a claim that is not a string makes the type assertion panic.\<close>

definition token_scopes :: "kvs \<Rightarrow> string list option" where
  "token_scopes tok = (case map_of tok ''scope'' of
       None \<Rightarrow> Some []
     | Some (VStr s) \<Rightarrow> Some (str_fields s)
     | Some _ \<Rightarrow> None)"

definition RequireScope :: "(string \<Rightarrow> kvs option) \<Rightarrow> string \<Rightarrow> http_in \<Rightarrow> ctx \<Rightarrow> outcome" where
  "RequireScope parse scope r c =
     (case bearer r of
        None \<Rightarrow> Halt 401 ''missing bearer''
      | Some tok \<Rightarrow>
         (case parse tok of
            None \<Rightarrow> Halt 401 ''invalid token''
          | Some jt \<Rightarrow>
             (case token_scopes jt of
                None \<Rightarrow> Panic ''interface conversion''
              | Some scopes \<Rightarrow>
                  if scope \<noteq> [] \<and> scope \<notin> set scopes then Halt 403 ''insufficient_scope''
                  else Pass (c\<lparr> cx_scopes := Some scopes \<rparr>))))"

section \<open>Token authentication\<close>

text \<open>The cache of key sets; an entry is a key set and the time it expires.\<close>

type_synonym 'k jwksCache = "(string \<times> ('k \<times> int)) list"

definition jwksTTL :: int where "jwksTTL = 6 * 3600 * second_ns"

definition cached_set :: "'k jwksCache \<Rightarrow> int \<Rightarrow> string \<Rightarrow> 'k option" where
  "cached_set c now url = (case map_of c url of Some (s, e) \<Rightarrow> if now < e then Some s else None | None \<Rightarrow> None)"

definition jwks_get :: "(string \<Rightarrow> 'k option) \<Rightarrow> int \<Rightarrow> 'k jwksCache \<Rightarrow> string \<Rightarrow> 'k option \<times> 'k jwksCache" where
  "jwks_get fetch now c url =
     (case cached_set c now url of
        Some s \<Rightarrow> (Some s, c)
      | None \<Rightarrow> (case fetch url of
                   None \<Rightarrow> (None, c)
                 | Some s \<Rightarrow> (Some s, AList.update url (s, now + jwksTTL) c)))"

definition jwks_entry :: "'k jwksCache \<Rightarrow> string \<Rightarrow> ('k \<times> int) option" where
  "jwks_entry c url = map_option (\<lambda>(s, e). (s, e - jwksTTL)) (map_of c url)"

interpretation jwks: ttl_cache jwksTTL jwks_entry jwks_get
proof unfold_locales
  show "0 < jwksTTL" by (simp add: jwksTTL_def second_ns_def)
next
  fix s :: "'k jwksCache" and k v t now fetch
  assume "jwks_entry s k = Some (v, t)" "now - t < jwksTTL"
  then show "jwks_get fetch now s k = (Some v, s)"
    by (auto simp: jwks_entry_def jwks_get_def cached_set_def)
next
  fix s :: "'k jwksCache" and k now fetch
  assume a: "\<And>v t. jwks_entry s k = Some (v, t) \<Longrightarrow> \<not> now - t < jwksTTL"
  then have "cached_set s now k = None"
    by (force simp: jwks_entry_def cached_set_def split: option.splits)
  then show "fst (jwks_get fetch now s k) = fetch k \<and> jwks_entry (snd (jwks_get fetch now s k)) =
      (case fetch k of None \<Rightarrow> jwks_entry s | Some v \<Rightarrow> (jwks_entry s)(k \<mapsto> (v, now)))"
    by (auto simp: jwks_get_def jwks_entry_def fun_eq_iff update_conv' split: option.splits)
qed

text \<open>What the code asks of the token library: the claims of a token signed by a key of the set, with the
  given issuer and, if one is given, audience, valid now within the skew.\<close>

record 'k token_query =
  tq_keys :: 'k
  tq_issuer :: string
  tq_audience :: "string option"
  tq_skew :: int

type_synonym 'k token_parser = "'k token_query \<Rightarrow> string \<Rightarrow> kvs option"

definition accepted_audiences :: "Config \<Rightarrow> Tenant \<Rightarrow> string list" where
  "accepted_audiences cfg t =
     (if AcceptedAudiences t = [] \<and> Audience cfg \<noteq> [] then [Audience cfg] else AcceptedAudiences t)"

text \<open>\<^verbatim>\<open>jt.Audience()\<close>: a string or a list of strings.\<close>

definition token_audience :: "kvs \<Rightarrow> string list" where
  "token_audience tok = (case map_of tok ''aud'' of
       Some (VStr s) \<Rightarrow> [s]
     | Some (VArr xs) \<Rightarrow> List.map_filter as_str xs
     | _ \<Rightarrow> [])"

definition claim_str :: "kvs \<Rightarrow> string \<Rightarrow> string" where
  "claim_str tok k = (case map_of tok k of Some (VStr s) \<Rightarrow> s | _ \<Rightarrow> [])"

definition tenant_mismatch :: "Tenant \<Rightarrow> kvs \<Rightarrow> bool" where
  "tenant_mismatch t tok \<longleftrightarrow> claim_str tok ''tid'' \<noteq> [] \<and> tID t \<noteq> [] \<and> claim_str tok ''tid'' \<noteq> tID t"

definition machine_refused :: "Tenant \<Rightarrow> kvs \<Rightarrow> string list \<Rightarrow> bool" where
  "machine_refused t tok scopes \<longleftrightarrow> claim_str tok ''gty'' = ''client_credentials'' \<and> MachineAllowedScopes t \<noteq> []
     \<and> list_ex (\<lambda>s. s \<notin> set (MachineAllowedScopes t)) scopes"

definition acr_refused :: "Tenant \<Rightarrow> kvs \<Rightarrow> string list \<Rightarrow> bool" where
  "acr_refused t tok scopes \<longleftrightarrow> RequiredACRByAction t \<noteq> [] \<and> map_of tok ''acr'' \<noteq> None
     \<and> list_ex (\<lambda>(scope, req). req \<noteq> [] \<and> scope \<in> set scopes \<and> claim_str tok ''acr'' \<noteq> req) (RequiredACRByAction t)"

text \<open>The checks on a verified token.\<close>

definition check_token :: "Config \<Rightarrow> Tenant \<Rightarrow> kvs \<Rightarrow> ctx \<Rightarrow> outcome" where
  "check_token cfg t jt c =
     (let accepted = accepted_audiences cfg t in
      if length accepted > 1 \<and> \<not> list_ex (\<lambda>a. a \<in> set accepted) (token_audience jt) then Halt 401 ''aud_invalid''
      else if tenant_mismatch t jt then Halt 403 ''tenant_mismatch''
      else (case token_scopes jt of
              None \<Rightarrow> Panic ''interface conversion''
            | Some scopes \<Rightarrow>
                if machine_refused t jt scopes then Halt 403 ''scope_not_allowed_machine''
                else if acr_refused t jt scopes then Halt 403 ''acr_required''
                else Pass (c\<lparr> cx_scopes := Some scopes, cx_token := Some jt \<rparr>)))"

definition issuer_of :: "Config \<Rightarrow> Tenant \<Rightarrow> string" where
  "issuer_of cfg t = (let i = trim_right ''/'' (OAuthIssuer t) in if i = [] then trim_right ''/'' (Issuer cfg) else i)"

definition jwks_of :: "Config \<Rightarrow> Tenant \<Rightarrow> string" where
  "jwks_of cfg t = (if tJWKSURL t = [] then JWKSURL cfg else tJWKSURL t)"

definition query_for :: "Config \<Rightarrow> Tenant \<Rightarrow> 'k \<Rightarrow> 'k token_query" where
  "query_for cfg t ks = \<lparr> tq_keys = ks, tq_issuer = issuer_of cfg t,
     tq_audience = (case accepted_audiences cfg t of [a] \<Rightarrow> Some a | _ \<Rightarrow> None), tq_skew = DPoPClockSkew cfg \<rparr>"

definition JWTAuth ::
  "Config \<Rightarrow> (string \<Rightarrow> 'k option) \<Rightarrow> int \<Rightarrow> 'k token_parser \<Rightarrow> 'k jwksCache \<Rightarrow> http_in \<Rightarrow> ctx
     \<Rightarrow> outcome \<times> 'k jwksCache" where
  "JWTAuth cfg fetch now parse cache r c =
     (if open_path (hi_path r) then (Pass c, cache)
      else if has_prefix ''/.well-known/'' (hi_path r) then (Pass c, cache)
      else
        let t = TenantFrom c; authz = header_get (hi_headers r) ''Authorization''
        in if Env cfg = ''dev'' \<and> trim_space authz = [] then (Pass c, cache)
           else if issuer_of cfg t = [] \<or> jwks_of cfg t = [] then (Halt 500 ''auth not configured'', cache)
           else (case jwks_get fetch now cache (jwks_of cfg t) of
                   (None, cache') \<Rightarrow> (Halt 500 ''jwks fetch failed'', cache')
                 | (Some ks, cache') \<Rightarrow>
                    (case bearer r of
                       None \<Rightarrow> (Halt 401 ''missing bearer'', cache')
                     | Some raw \<Rightarrow>
                        (case parse (query_for cfg t ks) raw of
                           None \<Rightarrow> (Halt 401 ''invalid token'', cache')
                         | Some jt \<Rightarrow> (check_token cfg t jt c, cache')))))"

definition GrantTypeFrom :: "ctx \<Rightarrow> string" where
  "GrantTypeFrom c = (case cx_token c of None \<Rightarrow> [] | Some jt \<Rightarrow> claim_str jt ''gty'')"

definition ActorSub :: "ctx \<Rightarrow> string" where
  "ActorSub c = (case cx_token c of None \<Rightarrow> [] | Some jt \<Rightarrow> claim_str jt ''sub'')"

section \<open>Tenants are resolved by host\<close>

lemma first_tenant_Some: "first_tenant prov hs = Some t \<Longrightarrow> \<exists>h \<in> set hs. prov h = Inr t"
  by (induction hs) (auto split: sum.splits)

lemma first_tenant_None: "first_tenant prov hs = None \<longleftrightarrow> (\<forall>h \<in> set hs. \<exists>e. prov h = Inl e)"
  by (induction hs) (auto split: sum.splits)

definition host_matches :: "http_in \<Rightarrow> Tenant \<Rightarrow> bool" where
  "host_matches r t \<longleftrightarrow> Host t = strip_port (hi_host r)
     \<or> (Host t = ''localhost'' \<and> strip_port (hi_host r) \<in> set local_names)"

context tenant_provider
begin

lemma with_tenant_host:
  assumes "ok p" "WithTenant (by_host p) r c = Pass c'" "\<not> open_path (hi_path r)"
  shows "\<exists>t. cx_tenant c' = Some t \<and> host_matches r t"
proof -
  from assms(2,3) obtain t where t: "first_tenant (by_host p) (tryHosts (strip_port (hi_host r))) = Some t"
    and c': "c' = c\<lparr> cx_tenant := Some t \<rparr>" by (auto simp: WithTenant_def split: option.splits)
  from first_tenant_Some [OF t] obtain h where h: "h \<in> set (tryHosts (strip_port (hi_host r)))" "by_host p h = Inr t" by blast
  then have "Host t = h" using by_host_host assms(1) by blast
  then show ?thesis using h(1) c' by (auto simp: host_matches_def tryHosts_def split: if_splits)
qed

end

text \<open>A request is served as the tenant of its host.  With the database as provider, a request that gets
  past tenant resolution carries a tenant whose registered host is the host of the request without
  its port, or \<^verbatim>\<open>localhost\<close> if the request used one of the known local names.\<close>

theorem WithTenant_serves_host:
  assumes "WithTenant (pg_by_host d) r c = Pass c'" "\<not> open_path (hi_path r)"
  shows "\<exists>t. cx_tenant c' = Some t \<and> host_matches r t"
  using assms by (rule pg.with_tenant_host [OF TrueI])

definition demo_request :: http_in where
  "demo_request = \<lparr> hi_method = ''POST'', hi_path = ''/v1/actions/shop.cancel/preflight'', hi_host = ''acme.test:8080'',
     hi_headers = [(''Authorization'', ''Bearer tok'')] \<rparr>"

lemma demo_strip: "strip_port ''acme.test:8080'' = ''acme.test''"
  by code_simp

lemma demo_open: "\<not> open_path (hi_path demo_request)"
  by (simp add: demo_request_def open_path_def)

theorem WithTenant_serves_host_witness:
  "\<exists>c' t. WithTenant (pg_by_host (empty_db\<lparr> tenants := [demo_tenant_row] \<rparr>)) demo_request no_ctx = Pass c'
     \<and> cx_tenant c' = Some t \<and> host_matches demo_request t"
proof -
  let ?d = "empty_db\<lparr> tenants := [demo_tenant_row] \<rparr>"
  obtain t where "pg_by_host ?d ''acme.test'' = Inr t"
    by (simp add: pg_by_host_def pg_lookup_def empty_db_def scan_tenant_def demo_tenant_row_def)
  then obtain c' where c': "WithTenant (pg_by_host ?d) demo_request no_ctx = Pass c'"
    using demo_open by (simp add: WithTenant_def tryHosts_def demo_request_def demo_strip)
  from WithTenant_serves_host [OF c' demo_open] c' show ?thesis by blast
qed

lemma strip_port_colon: "CHR '':'' \<in> set (strip_port h) \<Longrightarrow> hd (strip_port h) = CHR '':''"
proof -
  have "takeWhile (\<lambda>x. x \<noteq> CHR '':'') h = [] \<Longrightarrow> CHR '':'' \<in> set h \<Longrightarrow> hd h = CHR '':''"
    by (cases h) (auto split: if_splits)
  then show "CHR '':'' \<in> set (strip_port h) \<Longrightarrow> hd (strip_port h) = CHR '':''"
    unfolding strip_port_def str_cut_single by (auto split: if_splits dest: set_takeWhileD)
qed

text \<open>Without a seed the provider in memory serves nobody.  Its default hosts carry port numbers, while
  the middleware looks up the host without its port: every request other than the health and metrics
  ones is answered with 404.\<close>

theorem default_memory_provider_unusable:
  assumes "env ''TENANT_SEED_JSON'' = []" "\<not> open_path (hi_path r)"
  shows "WithTenant (mem_by_host (NewMemoryProviderFromEnv parse env)) r c = Halt 404 ''unknown tenant''"
proof -
  let ?p = "NewMemoryProviderFromEnv parse env"
  have keys: "map_of (byHost ?p) h = None" if "h \<notin> set dev_hosts" for h
    using that assms(1) by (auto simp: dev_byHost map_of_eq_None_iff)
  have dev: "h \<in> set dev_hosts \<Longrightarrow> CHR '':'' \<in> set h \<and> hd h \<noteq> CHR '':''" for h
    by (auto simp: dev_hosts_def)
  have "strip_port h \<notin> set dev_hosts" for h
    using dev [of "strip_port h"] strip_port_colon [of h] by blast
  moreover have "''localhost'' \<notin> set dev_hosts" by (simp add: dev_hosts_def)
  ultimately have "\<forall>h \<in> set (tryHosts (strip_port (hi_host r))). map_of (byHost ?p) h = None"
    using keys by (auto simp: tryHosts_def)
  then have "first_tenant (mem_by_host ?p) (tryHosts (strip_port (hi_host r))) = None"
    by (auto simp: first_tenant_None mem_by_host_def)
  then show ?thesis using assms(2) by (simp add: WithTenant_def)
qed

theorem default_memory_provider_unusable_witness:
  "WithTenant (mem_by_host (NewMemoryProviderFromEnv (\<lambda>_. []) (\<lambda>_. []))) (demo_request\<lparr> hi_host := ''localhost:8080'' \<rparr>) no_ctx
     = Halt 404 ''unknown tenant''"
  by (rule default_memory_provider_unusable) (simp_all add: demo_request_def open_path_def)

section \<open>Authentication\<close>

text \<open>What a token that was let through satisfies with respect to the tenant.\<close>

definition acceptable :: "Config \<Rightarrow> Tenant \<Rightarrow> kvs \<Rightarrow> string list \<Rightarrow> bool" where
  "acceptable cfg t jt scopes \<longleftrightarrow>
     claim_str jt ''iss'' = issuer_of cfg t \<and> issuer_of cfg t \<noteq> []
     \<and> (accepted_audiences cfg t \<noteq> [] \<longrightarrow> set (accepted_audiences cfg t) \<inter> set (token_audience jt) \<noteq> {})
     \<and> (claim_str jt ''tid'' = [] \<or> tID t = [] \<or> claim_str jt ''tid'' = tID t)
     \<and> token_scopes jt = Some scopes
     \<and> (claim_str jt ''gty'' = ''client_credentials'' \<longrightarrow>
          MachineAllowedScopes t = [] \<or> set scopes \<subseteq> set (MachineAllowedScopes t))"

lemma check_token_Pass:
  "check_token cfg t jt c = Pass c' \<longleftrightarrow> (\<exists>scopes. token_scopes jt = Some scopes
     \<and> (length (accepted_audiences cfg t) > 1 \<longrightarrow> set (accepted_audiences cfg t) \<inter> set (token_audience jt) \<noteq> {})
     \<and> \<not> tenant_mismatch t jt \<and> \<not> machine_refused t jt scopes \<and> \<not> acr_refused t jt scopes
     \<and> c' = c\<lparr> cx_scopes := Some scopes, cx_token := Some jt \<rparr>)"
  by (auto simp: check_token_def Let_def list_ex_iff split: option.splits if_splits)

lemma JWTAuth_Pass:
  assumes "fst (JWTAuth cfg fetch now parse cache r c) = Pass c'"
    and "Env cfg \<noteq> ''dev''" "\<not> open_path (hi_path r)" "\<not> has_prefix ''/.well-known/'' (hi_path r)"
  shows "\<exists>ks raw jt. fst (jwks_get fetch now cache (jwks_of cfg (TenantFrom c))) = Some ks
     \<and> issuer_of cfg (TenantFrom c) \<noteq> [] \<and> bearer r = Some raw
     \<and> parse (query_for cfg (TenantFrom c) ks) raw = Some jt \<and> check_token cfg (TenantFrom c) jt c = Pass c'"
proof -
  obtain k cache' where g: "jwks_get fetch now cache (jwks_of cfg (TenantFrom c)) = (k, cache')" by fastforce
  with assms show ?thesis
    by (cases k; cases "bearer r")
       (auto simp: JWTAuth_def Let_def split: if_splits option.splits)
qed

lemma JWTAuth_token:
  assumes "fst (JWTAuth cfg (src now) now parse cache r c) = Pass c'"
    and "Env cfg \<noteq> ''dev''" "\<not> open_path (hi_path r)" "\<not> has_prefix ''/.well-known/'' (hi_path r)"
    and "tracks src (jwks_entry cache) now"
    and library: "\<And>q raw jt. parse q raw = Some jt \<Longrightarrow> claim_str jt ''iss'' = tq_issuer q
       \<and> (\<forall>a. tq_audience q = Some a \<longrightarrow> a \<in> set (token_audience jt))"
  shows "\<exists>raw ks jt scopes. bearer r = Some raw \<and> fresh_value src jwksTTL now (jwks_of cfg (TenantFrom c)) ks
     \<and> parse (query_for cfg (TenantFrom c) ks) raw = Some jt \<and> acceptable cfg (TenantFrom c) jt scopes
     \<and> c' = c\<lparr> cx_scopes := Some scopes, cx_token := Some jt \<rparr>"
proof -
  let ?t = "TenantFrom c"
  from JWTAuth_Pass [OF assms(1-4)] obtain ks raw jt where
    ks: "fst (jwks_get (src now) now cache (jwks_of cfg ?t)) = Some ks" and iss: "issuer_of cfg ?t \<noteq> []"
    and raw: "bearer r = Some raw" and jt: "parse (query_for cfg ?t ks) raw = Some jt"
    and chk: "check_token cfg ?t jt c = Pass c'" by blast
  have fresh: "fresh_value src jwksTTL now (jwks_of cfg ?t) ks" by (rule jwks.get_fresh [OF assms(5) ks])
  have lib: "claim_str jt ''iss'' = issuer_of cfg ?t"
    "length (accepted_audiences cfg ?t) = 1 \<Longrightarrow> set (accepted_audiences cfg ?t) \<inter> set (token_audience jt) \<noteq> {}"
    using library [OF jt] by (auto simp: query_for_def length_Suc_conv)
  from chk obtain scopes where sc: "token_scopes jt = Some scopes"
    and many: "length (accepted_audiences cfg ?t) > 1 \<longrightarrow> set (accepted_audiences cfg ?t) \<inter> set (token_audience jt) \<noteq> {}"
    and no: "\<not> tenant_mismatch ?t jt" "\<not> machine_refused ?t jt scopes"
    and c': "c' = c\<lparr> cx_scopes := Some scopes, cx_token := Some jt \<rparr>"
    unfolding check_token_Pass by blast
  have "length (accepted_audiences cfg ?t) = 1 \<or> length (accepted_audiences cfg ?t) > 1"
    if "accepted_audiences cfg ?t \<noteq> []"
    using that by (cases "accepted_audiences cfg ?t") auto
  then have "accepted_audiences cfg ?t \<noteq> [] \<longrightarrow> set (accepted_audiences cfg ?t) \<inter> set (token_audience jt) \<noteq> {}"
    using many lib(2) by blast
  then have "acceptable cfg ?t jt scopes"
    unfolding acceptable_def using lib(1) iss sc no by (auto simp: tenant_mismatch_def machine_refused_def list_ex_iff)
  with raw fresh jt c' show ?thesis by blast
qed

text \<open>C13: Outside the development environment no handler runs without a verified token.  If the middleware
  passes a request for any path that is not public, the request carried a bearer token that the
  library verified against a key set its URL served within the last six hours, issued by the tenant's
  issuer, for one of the accepted audiences if any are configured, not for another tenant, and within
  the scopes allowed to machines.  The library is assumed to check the issuer and the audience it is
  asked for.\<close>

theorem JWTAuth_requires_token:
  assumes "fst (JWTAuth cfg (src now) now parse cache r c) = Pass c'"
    and "Env cfg \<noteq> ''dev''" "\<not> open_path (hi_path r)" "\<not> has_prefix ''/.well-known/'' (hi_path r)"
    and "tracks src (jwks_entry cache) now"
    and library: "\<And>q raw jt. parse q raw = Some jt \<Longrightarrow> claim_str jt ''iss'' = tq_issuer q
       \<and> (\<forall>a. tq_audience q = Some a \<longrightarrow> a \<in> set (token_audience jt))"
  shows "\<exists>raw ks jt scopes. bearer r = Some raw \<and> fresh_value src jwksTTL now (jwks_of cfg (TenantFrom c)) ks
     \<and> parse (query_for cfg (TenantFrom c) ks) raw = Some jt \<and> acceptable cfg (TenantFrom c) jt scopes
     \<and> c' = c\<lparr> cx_scopes := Some scopes, cx_token := Some jt \<rparr>"
  using assms(1-5) library by (rule JWTAuth_token)

text \<open>A key source that always serves the same set, a library that accepts one token, and a production
  configuration.\<close>

definition demo_src :: "int \<Rightarrow> string \<Rightarrow> string option" where
  "demo_src t url = Some ''keys''"

definition demo_claims :: "string \<Rightarrow> kvs" where
  "demo_claims iss = [(''iss'', VStr iss), (''aud'', VStr ''lamdis-gateway''), (''scope'', VStr ''order:write'')]"

definition demo_parse :: "string token_parser" where
  "demo_parse q raw = (if raw = ''tok'' \<and> tq_audience q = Some ''lamdis-gateway''
     then Some (demo_claims (tq_issuer q)) else None)"

definition prod_env :: environ where
  "prod_env k = (if k = ''LAMDIS_ENV'' then ''prod'' else if k = ''OIDC_ISSUER'' then ''https://id.test''
     else if k = ''JWKS_URL'' then ''https://id.test/jwks'' else [])"

lemma demo_auth: "fst (JWTAuth (Load prod_env) (demo_src 0) 0 demo_parse [] demo_request no_ctx)
    = Pass (no_ctx\<lparr> cx_scopes := Some [''order:write''], cx_token := Some (demo_claims ''https://id.test'') \<rparr>)"
proof -
  have b: "bearer demo_request = Some ''tok''" by code_simp
  have i: "issuer_of (Load prod_env) zero_tenant = ''https://id.test''" "jwks_of (Load prod_env) zero_tenant = ''https://id.test/jwks''"
    "accepted_audiences (Load prod_env) zero_tenant = [''lamdis-gateway'']" "Env (Load prod_env) = ''prod''"
    by (simp_all add: issuer_of_def jwks_of_def accepted_audiences_def Load_def prod_env_def env_or_def zero_tenant_def
        trim_right_def)
  have sc: "str_fields ''order:write'' = [''order:write'']" by code_simp
  have chk: "check_token (Load prod_env) zero_tenant (demo_claims ''https://id.test'') no_ctx
      = Pass (no_ctx\<lparr> cx_scopes := Some [''order:write''], cx_token := Some (demo_claims ''https://id.test'') \<rparr>)"
    unfolding check_token_Pass
    by (simp add: i token_scopes_def demo_claims_def sc tenant_mismatch_def machine_refused_def acr_refused_def claim_str_def)
  show ?thesis
    using chk by (simp add: JWTAuth_def Let_def TenantFrom_def no_ctx_def i b jwks_get_def cached_set_def demo_src_def query_for_def
        demo_parse_def demo_open demo_open [unfolded demo_request_def] has_prefix_def)
      (simp add: demo_request_def open_path_def)
qed

theorem JWTAuth_requires_token_witness:
  "\<exists>raw ks jt scopes. bearer demo_request = Some raw \<and> fresh_value demo_src jwksTTL 0 (jwks_of (Load prod_env) (TenantFrom no_ctx)) ks
     \<and> demo_parse (query_for (Load prod_env) (TenantFrom no_ctx) ks) raw = Some jt
     \<and> acceptable (Load prod_env) (TenantFrom no_ctx) jt scopes"
proof -
  have lib: "claim_str jt ''iss'' = tq_issuer q \<and> (\<forall>a. tq_audience q = Some a \<longrightarrow> a \<in> set (token_audience jt))"
    if "demo_parse q raw = Some jt" for q raw jt
    using that by (auto simp: demo_parse_def demo_claims_def claim_str_def token_audience_def split: if_splits)
  have e: "Env (Load prod_env) \<noteq> ''dev''" by (simp add: Load_def env_or_def prod_env_def)
  have w: "\<not> has_prefix ''/.well-known/'' (hi_path demo_request)" by (simp add: demo_request_def has_prefix_def)
  have t: "tracks demo_src (jwks_entry []) 0" by (simp add: tracks_def jwks_entry_def)
  show ?thesis
    using JWTAuth_requires_token [where src = demo_src and now = 0, OF demo_auth e demo_open w t] lib by blast
qed

text \<open>A required authentication level binds only tokens that state one.  For a token without an \<^verbatim>\<open>acr\<close> claim
  the checks behave as if the tenant required no level at all.\<close>

theorem acr_not_enforced_when_absent:
  assumes "map_of jt ''acr'' = None"
  shows "check_token cfg t jt c = check_token cfg (t\<lparr> RequiredACRByAction := [] \<rparr>) jt c"
proof -
  let ?t = "t\<lparr> RequiredACRByAction := [] \<rparr>"
  have "\<not> acr_refused t jt s" "\<not> acr_refused ?t jt s" for s using assms by (simp_all add: acr_refused_def)
  moreover have "machine_refused ?t jt = machine_refused t jt" "tenant_mismatch ?t jt = tenant_mismatch t jt"
    "accepted_audiences cfg ?t = accepted_audiences cfg t"
    by (auto simp: machine_refused_def tenant_mismatch_def accepted_audiences_def)
  ultimately show ?thesis unfolding check_token_def Let_def by (cases "token_scopes jt") simp_all
qed

theorem acr_not_enforced_when_absent_witness:
  "check_token (Load (\<lambda>_. [])) (zero_tenant\<lparr> RequiredACRByAction := [(''refund:write'', ''mfa'')] \<rparr>)
      [(''scope'', VStr ''refund:write'')] no_ctx
   = check_token (Load (\<lambda>_. [])) zero_tenant [(''scope'', VStr ''refund:write'')] no_ctx"
  using acr_not_enforced_when_absent [of "[(''scope'', VStr ''refund:write'')]" "Load (\<lambda>_. [])"
      "zero_tenant\<lparr> RequiredACRByAction := [(''refund:write'', ''mfa'')] \<rparr>" no_ctx]
  by (simp add: zero_tenant_def)

section \<open>The write wrapper\<close>

text \<open>At most one status line.  Whatever sequence of calls a handler makes on the wrapped writer, the real
  writer receives at most one status code, it comes before any data, and it is the first code the
  handler gave, or 200 if data came first.\<close>

theorem dwrapper_single_header:
  "\<exists>ws. out (foldl d_call \<lparr> wrote = False, code = 0, out = [] \<rparr> cs) =
     (case cs of [] \<Rightarrow> [] | WriteHeader n # _ \<Rightarrow> WriteHeader n # map Write ws | Write b # _ \<Rightarrow> WriteHeader 200 # map Write ws)"
proof -
  have run: "\<exists>ws. out (foldl d_call d cs) = out d @ map Write ws" if "wrote d" for d cs
    using that
  proof (induction cs arbitrary: d)
    case (Cons w cs)
    have w: "wrote (d_call d w)" "\<exists>ws. out (d_call d w) = out d @ map Write ws"
      using Cons.prems by (auto simp: d_call_def d_write_header_def d_write_def intro: exI [of _ "[]"] exI [of _ "[_]"]
          split: wcall.splits)
    then obtain ws ws' where "out (d_call d w) = out d @ map Write ws"
      "out (foldl d_call (d_call d w) cs) = out (d_call d w) @ map Write ws'" using Cons.IH by blast
    then show ?case by (auto intro: exI [of _ "ws @ ws'"])
  qed (auto intro: exI [of _ "[]"])
  show ?thesis
  proof (cases cs)
    case (Cons w cs')
    let ?d = "d_call \<lparr> wrote = False, code = 0, out = [] \<rparr> w"
    have "wrote ?d" by (simp add: d_call_def d_write_header_def d_write_def split: wcall.splits)
    from run [OF this] obtain ws where "out (foldl d_call ?d cs') = out ?d @ map Write ws" by blast
    then show ?thesis using Cons
      by (cases w) (auto simp: d_call_def d_write_header_def d_write_def intro: exI [of _ ws] exI [of _ "_ # ws"])
  qed simp
qed

end
