(* ===== verification/DPoP.thy ===== *)
theory DPoP
  imports Middleware
begin

text \<open>
  \<^verbatim>\<open>pkg/middleware/dpop.go\<close>: verifying a proof of possession against the request and the access token,
  with a replay cache in Redis.  Signature verification, key parsing, thumbprints and URL parsing are
  parameters.  (No handler of the repository calls this function yet.)
\<close>

section \<open>Parameters and state\<close>

record 'k dpop_lib =
  jws_headers :: "string \<Rightarrow> kvs option"
  parse_key :: "string \<Rightarrow> 'k option"
  verify :: "string \<Rightarrow> 'k \<Rightarrow> int \<Rightarrow> string \<Rightarrow> kvs option"
  issued_at :: "kvs \<Rightarrow> int option"
  thumbprint :: "'k \<Rightarrow> string"
  ath_digest :: "string \<Rightarrow> string"
  url_path :: "string \<Rightarrow> string option"
  fmt_s :: "gval \<Rightarrow> string"

text \<open>Redis: keys with the time they expire.  \<^verbatim>\<open>SETNX\<close> sets a key only if it is absent or expired.\<close>

type_synonym redis = "(string \<times> int) list"

definition setnx :: "int \<Rightarrow> string \<Rightarrow> int \<Rightarrow> redis \<Rightarrow> bool \<times> redis" where
  "setnx now k ttl db =
     (case map_of db k of
        Some e \<Rightarrow> if now < e then (False, db) else (True, AList.update k (now + ttl) db)
      | None \<Rightarrow> (True, AList.update k (now + ttl) db))"

datatype dpop_result = Accept | Refuse string | Crash

definition proof_ttl :: int where "proof_ttl = 5 * 60 * second_ns"
definition proof_age :: int where "proof_age = 2 * 60 * second_ns"

section \<open>Verification\<close>

definition stringsEqual :: "gval \<Rightarrow> string \<Rightarrow> bool" where
  "stringsEqual a b \<longleftrightarrow> (case a of VStr s \<Rightarrow> s | _ \<Rightarrow> []) = b"

definition matchHTU :: "'k dpop_lib \<Rightarrow> string \<Rightarrow> string \<Rightarrow> string option" where
  "matchHTU lib htu path =
     (case url_path lib htu of
        None \<Rightarrow> Some ''bad htu''
      | Some p \<Rightarrow> if p \<noteq> path then Some ''htu path mismatch'' else None)"

text \<open>The key and the claims of a proof, or the error.\<close>

definition open_proof :: "'k dpop_lib \<Rightarrow> runtime \<Rightarrow> int \<Rightarrow> string \<Rightarrow> string + 'k \<times> kvs" where
  "open_proof lib rt now proof =
     (if proof = [] then Inl ''missing DPoP''
      else (case jws_headers lib proof of
              None \<Rightarrow> Inl ''bad DPoP''
            | Some h \<Rightarrow>
               (case map_of h ''jwk'' of
                  None \<Rightarrow> Inl ''missing jwk header''
                | Some rawJWK \<Rightarrow>
                   (case parse_key lib (json_text rt rawJWK) of
                      None \<Rightarrow> Inl ''bad jwk''
                    | Some key \<Rightarrow>
                       (case map_of h ''alg'' of
                          None \<Rightarrow> Inl ''missing alg''
                        | Some algName \<Rightarrow>
                           (case verify lib (sprint rt algName) key now proof of
                              None \<Rightarrow> Inl ''bad DPoP''
                            | Some pt \<Rightarrow> Inr (key, pt)))))))"

text \<open>\<^verbatim>\<open>time.Since(iat) > 2*time.Minute\<close>, and the zero time.\<close>

definition stale :: "'k dpop_lib \<Rightarrow> int \<Rightarrow> kvs \<Rightarrow> bool" where
  "stale lib now pt \<longleftrightarrow> (case issued_at lib pt of None \<Rightarrow> True | Some iat \<Rightarrow> now - iat > proof_age)"

definition replay_key :: "'k dpop_lib \<Rightarrow> kvs \<Rightarrow> string" where
  "replay_key lib pt = ''dpop:'' @ fmt_s lib (mget pt ''jti'')"

definition cnf_mismatch :: "'k dpop_lib \<Rightarrow> 'k \<Rightarrow> kvs \<Rightarrow> bool" where
  "cnf_mismatch lib key access \<longleftrightarrow>
     (case map_of access ''cnf'' of
        None \<Rightarrow> False
      | Some cnf \<Rightarrow> (case as_map cnf of
           None \<Rightarrow> False
         | Some m \<Rightarrow> (case as_str (mget m ''jkt'') of None \<Rightarrow> False | Some jkt \<Rightarrow> thumbprint lib key \<noteq> jkt)))"

definition check_ath :: "'k dpop_lib \<Rightarrow> runtime \<Rightarrow> kvs \<Rightarrow> string \<Rightarrow> dpop_result" where
  "check_ath lib rt pt authz =
     (case map_of pt ''ath'' of
        None \<Rightarrow> Accept
      | Some ath \<Rightarrow>
          if length authz < 7 then Crash
          else if ath_digest lib (drop 7 authz) \<noteq> sprint rt ath then Refuse ''ath mismatch'' else Accept)"

definition dpopVerifyWithRedis ::
  "'k dpop_lib \<Rightarrow> runtime \<Rightarrow> int \<Rightarrow> http_in \<Rightarrow> kvs \<Rightarrow> redis option \<Rightarrow> dpop_result \<times> redis option" where
  "dpopVerifyWithRedis lib rt now r access rdb =
     (case open_proof lib rt now (header_get (hi_headers r) ''DPoP'') of
        Inl e \<Rightarrow> (Refuse e, rdb)
      | Inr (key, pt) \<Rightarrow>
          if \<not> stringsEqual (mget pt ''htm'') (hi_method r) then (Refuse ''htm mismatch'', rdb)
          else (case matchHTU lib (sprint rt (mget pt ''htu'')) (hi_path r) of
                  Some e \<Rightarrow> (Refuse e, rdb)
                | None \<Rightarrow>
                    if stale lib now pt then (Refuse ''stale DPoP'', rdb)
                    else
                      let (new, rdb') = (case rdb of
                            None \<Rightarrow> (True, None)
                          | Some db \<Rightarrow> (case setnx now (replay_key lib pt) proof_ttl db of (b, db') \<Rightarrow> (b, Some db')))
                      in if \<not> new then (Refuse ''replay'', rdb')
                         else if cnf_mismatch lib key access then (Refuse ''cnf mismatch'', rdb')
                         else (check_ath lib rt pt (header_get (hi_headers r) ''Authorization''), rdb')))"

section \<open>Replay protection\<close>

lemma setnx_keeps:
  "map_of db k = Some e \<Longrightarrow> now < e \<Longrightarrow> map_of (snd (setnx now k' ttl db)) k = Some e"
  by (auto simp: setnx_def update_conv' split: option.splits)

lemma setnx_sets: "fst (setnx now k ttl db) \<Longrightarrow> map_of (snd (setnx now k ttl db)) k = Some (now + ttl)"
  by (auto simp: setnx_def split: option.splits if_splits)

text \<open>A call only ever adds the key of its own proof.\<close>

lemma dpop_redis:
  "\<exists>k. snd (dpopVerifyWithRedis lib rt now r access (Some db)) \<in> {Some db, Some (snd (setnx now k proof_ttl db))}"
  by (auto simp: dpopVerifyWithRedis_def Let_def split: sum.splits prod.splits option.splits) (metis snd_conv)+

lemma dpop_Accept:
  assumes "fst (dpopVerifyWithRedis lib rt now r access (Some db)) = Accept"
  shows "\<exists>key pt. open_proof lib rt now (header_get (hi_headers r) ''DPoP'') = Inr (key, pt) \<and> \<not> stale lib now pt
     \<and> stringsEqual (mget pt ''htm'') (hi_method r) \<and> url_path lib (sprint rt (mget pt ''htu'')) = Some (hi_path r)
     \<and> fst (setnx now (replay_key lib pt) proof_ttl db) \<and> \<not> cnf_mismatch lib key access
     \<and> snd (dpopVerifyWithRedis lib rt now r access (Some db)) = Some (snd (setnx now (replay_key lib pt) proof_ttl db))"
  using assms
  by (auto simp: dpopVerifyWithRedis_def Let_def matchHTU_def split: sum.splits prod.splits option.splits if_splits)

text \<open>The cache after a sequence of calls.\<close>

fun redis_after :: "'k dpop_lib \<Rightarrow> runtime \<Rightarrow> (int \<times> http_in \<times> kvs) list \<Rightarrow> redis option \<Rightarrow> redis option" where
  "redis_after lib rt [] rdb = rdb"
| "redis_after lib rt ((now, r, access) # cs) rdb =
     redis_after lib rt cs (snd (dpopVerifyWithRedis lib rt now r access rdb))"

lemma redis_after_keeps:
  assumes "map_of db k = Some e" "\<forall>(now, r, a) \<in> set cs. now < e"
  shows "\<exists>db'. redis_after lib rt cs (Some db) = Some db' \<and> map_of db' k = Some e"
  using assms
proof (induction cs arbitrary: db)
  case (Cons c cs)
  obtain now r a where c: "c = (now, r, a)" by (metis prod.exhaust)
  from dpop_redis [of lib rt now r a db] obtain db1 where
    db1: "snd (dpopVerifyWithRedis lib rt now r a (Some db)) = Some db1" "map_of db1 k = Some e"
    using setnx_keeps [OF Cons.prems(1)] Cons.prems c by fastforce
  then show ?case using Cons.IH [OF db1(2)] Cons.prems(2) c by simp
qed simp

lemma redis_after_Some: "\<exists>db'. redis_after lib rt cs (Some db) = Some db'"
proof (induction cs arbitrary: db)
  case (Cons c cs)
  obtain now r a where c: "c = (now, r, a)" by (metis prod.exhaust)
  obtain db1 where "snd (dpopVerifyWithRedis lib rt now r a (Some db)) = Some db1"
    using dpop_redis [of lib rt now r a db] by blast
  then show ?case using Cons.IH c by simp
qed simp

lemma open_proof_same:
  assumes "open_proof lib rt t p = Inr (k, c)" "open_proof lib rt t' p = Inr (k', c')"
  shows "\<exists>alg. verify lib alg k t p = Some c \<and> verify lib alg k t' p = Some c'"
  using assms by (auto simp: open_proof_def split: if_splits option.splits)

text \<open>C14: A proof is accepted once.  With Redis configured, a proof that was accepted is never accepted again,
  whatever other proofs were verified in between: for five minutes its identifier is remembered, and
  by then it is older than the two minutes allowed.  The library is assumed to return the claims that
  are in the proof and to refuse a proof issued in the future.\<close>

theorem dpop_no_replay:
  assumes acc: "fst (dpopVerifyWithRedis lib rt now1 r1 a1 (Some db)) = Accept"
    and cs: "\<forall>(now, r, a) \<in> set cs. now1 \<le> now \<and> now \<le> now2" "now1 \<le> now2"
    and same: "header_get (hi_headers r2) ''DPoP'' = header_get (hi_headers r1) ''DPoP''"
    and claims: "\<And>alg k t t' p c c'. verify lib alg k t p = Some c \<Longrightarrow> verify lib alg k t' p = Some c' \<Longrightarrow> c' = c"
    and future: "\<And>alg k t p c iat. verify lib alg k t p = Some c \<Longrightarrow> issued_at lib c = Some iat \<Longrightarrow> iat \<le> t"
  shows "fst (dpopVerifyWithRedis lib rt now2 r2 a2
     (redis_after lib rt cs (snd (dpopVerifyWithRedis lib rt now1 r1 a1 (Some db))))) \<noteq> Accept"
proof
  let ?p = "header_get (hi_headers r1) ''DPoP''"
  from dpop_Accept [OF acc] obtain key pt where o1: "open_proof lib rt now1 ?p = Inr (key, pt)"
    and set1: "fst (setnx now1 (replay_key lib pt) proof_ttl db)"
    and db1: "snd (dpopVerifyWithRedis lib rt now1 r1 a1 (Some db)) = Some (snd (setnx now1 (replay_key lib pt) proof_ttl db))"
    by blast
  let ?db1 = "snd (setnx now1 (replay_key lib pt) proof_ttl db)"
  have e: "map_of ?db1 (replay_key lib pt) = Some (now1 + proof_ttl)" using setnx_sets [OF set1] .
  assume again: "fst (dpopVerifyWithRedis lib rt now2 r2 a2
     (redis_after lib rt cs (snd (dpopVerifyWithRedis lib rt now1 r1 a1 (Some db))))) = Accept"
  obtain db2 where db2: "redis_after lib rt cs (Some ?db1) = Some db2" using redis_after_Some by blast
  from dpop_Accept [OF again [unfolded db1 db2]] obtain key' pt' where o2: "open_proof lib rt now2 ?p = Inr (key', pt')"
    and fresh: "\<not> stale lib now2 pt'" and set2: "fst (setnx now2 (replay_key lib pt') proof_ttl db2)"
    unfolding same by blast
  from open_proof_same [OF o1 o2] obtain alg where v: "verify lib alg key now1 ?p = Some pt" "verify lib alg key now2 ?p = Some pt'"
    by blast
  then have pt': "pt' = pt" using claims by blast
  show False
  proof (cases "now2 < now1 + proof_ttl")
    case True
    then have "\<forall>(now, r, a) \<in> set cs. now < now1 + proof_ttl" using cs(1) by fastforce
    from redis_after_keeps [OF e this, of lib rt] db2 have "map_of db2 (replay_key lib pt) = Some (now1 + proof_ttl)" by auto
    then show False using set2 True by (simp add: setnx_def pt')
  next
    case False
    from fresh obtain iat where iat: "issued_at lib pt = Some iat" "now2 - iat \<le> proof_age"
      by (auto simp: stale_def pt' split: option.splits)
    moreover have "iat \<le> now1" using future [OF v(1) iat(1)] .
    ultimately show False using False by (simp add: proof_ttl_def proof_age_def second_ns_def)
  qed
qed

text \<open>A library that knows one proof, issued at time 0.\<close>

definition demo_lib :: "unit dpop_lib" where
  "demo_lib = \<lparr> jws_headers = (\<lambda>p. Some [(''jwk'', VStr ''k''), (''alg'', VStr ''ES256'')]), parse_key = (\<lambda>_. Some ()),
     verify = (\<lambda>_ _ now p. if 0 \<le> now then Some [(''htm'', VStr ''POST''), (''jti'', VStr ''j1'')] else None),
     issued_at = (\<lambda>_. Some 0), thumbprint = (\<lambda>_. []), ath_digest = (\<lambda>s. s),
     url_path = (\<lambda>_. Some ''/v1/x''), fmt_s = (\<lambda>v. case v of VStr s \<Rightarrow> s | _ \<Rightarrow> []) \<rparr>"

definition dpop_request :: http_in where
  "dpop_request = \<lparr> hi_method = ''POST'', hi_path = ''/v1/x'', hi_host = [], hi_headers = [(canonical_key ''DPoP'', ''p'')] \<rparr>"

lemma demo_accept: "fst (dpopVerifyWithRedis demo_lib demo_rt 0 dpop_request [] (Some [])) = Accept"
  by (simp add: dpopVerifyWithRedis_def dpop_request_def header_get_def open_proof_def demo_lib_def stringsEqual_def mget_def
      matchHTU_def stale_def proof_age_def second_ns_def setnx_def cnf_mismatch_def check_ath_def)

theorem dpop_no_replay_witness:
  "fst (dpopVerifyWithRedis demo_lib demo_rt 0 dpop_request [] (Some [])) = Accept
   \<and> fst (dpopVerifyWithRedis demo_lib demo_rt 60000000000 dpop_request []
      (redis_after demo_lib demo_rt [(5, dpop_request, [])] (snd (dpopVerifyWithRedis demo_lib demo_rt 0 dpop_request [] (Some []))))) \<noteq> Accept"
  by (intro conjI demo_accept dpop_no_replay [OF demo_accept]) (auto simp: demo_lib_def split: if_splits)

end
