(* ===== verification/Facts.thy ===== *)
theory Facts
  imports Demo
begin

text \<open>
  \<^verbatim>\<open>internal/facts/engine.go\<close>: resolving the facts of an action.  The JMESPath library is the
  parameter \<open>search\<close> (an error message or a value); the clock is read at most twice per mapping, so
  the clock parameter gives the two readings of the i-th mapping.
\<close>

type_synonym jmes = "string \<Rightarrow> gval \<Rightarrow> string + gval"
type_synonym clock = "nat \<Rightarrow> int \<times> int"

record Resolver =
  ID :: string
  ActionKey :: string
  Name :: string
  ConnectorKey :: string
  RequestTmpl :: gomap
  ResponseSample :: gomap
  Needs :: "gomap list"

record Mapping =
  MID :: string
  MActionKey :: string
  MName :: string
  Path :: string
  FactKey :: string
  Transform :: string
  TransformArgs :: "gval list"
  Required :: bool

section \<open>Conversions\<close>

definition toFloat :: "gval \<Rightarrow> float64" where
  "toFloat v = (case v of VFloat f \<Rightarrow> f | VInt i \<Rightarrow> f64_of_int i | _ \<Rightarrow> FFin False 0 0)"

definition toTime :: "runtime \<Rightarrow> gval \<Rightarrow> string + int" where
  "toTime rt v =
     (case v of
        VStr t \<Rightarrow>
          (case parse_time rt ''2006-01-02T15:04:05Z07:00'' t of
             Some ts \<Rightarrow> Inr ts
           | None \<Rightarrow> (case parse_time rt ''2006-01-02'' t of
                        Some ts \<Rightarrow> Inr ts | None \<Rightarrow> Inl ''parsing time''))
      | _ \<Rightarrow> Inl ''unsupported time type'')"

definition isZero :: "gval \<Rightarrow> bool" where
  "isZero v =
     (case v of
        VNil \<Rightarrow> True
      | VStr t \<Rightarrow> trim_space t = []
      | VFloat f \<Rightarrow> f64_is_zero f
      | VInt i \<Rightarrow> i = 0
      | VArr xs \<Rightarrow> xs = []
      | VMap m \<Rightarrow> m = []
      | VNilMap \<Rightarrow> True
      | _ \<Rightarrow> False)"

definition toArray :: "gval \<Rightarrow> gval list" where
  "toArray v = (case v of VArr xs \<Rightarrow> xs | VNil \<Rightarrow> [] | _ \<Rightarrow> [v])"

definition matchPredicate :: "runtime \<Rightarrow> gval \<Rightarrow> string \<Rightarrow> bool" where
  "matchPredicate rt v pred =
     (let parts = str_split ''=='' pred in
      if length parts \<noteq> 2 then False
      else let left = trim_space (parts ! 0);
               right = str_trim [CHR 0x27, CHR 0x22] (trim_space (parts ! 1))
           in (case as_map v of
                 None \<Rightarrow> False
               | Some m \<Rightarrow> (case map_of m left of
                              None \<Rightarrow> False | Some lv \<Rightarrow> sprint rt lv = right)))"

text \<open>\<^verbatim>\<open>time.Since\<close> saturates at the ends of \<^verbatim>\<open>Duration\<close>; \<^verbatim>\<open>Hours\<close> splits off the whole hours.\<close>

definition since :: "int \<Rightarrow> int \<Rightarrow> int" where
  "since now t = max (- (2 ^ 63)) (min (2 ^ 63 - 1) (now - t))"

definition hour_ns :: int where "hour_ns = 3600000000000"

definition hours :: "int \<Rightarrow> float64" where
  "hours d = f64_add (f64_of_int (quot d hour_ns)) (f64_div (f64_of_int (remt d hour_ns)) (f64_of_int hour_ns))"

definition days_diff :: "int \<times> int \<Rightarrow> int \<Rightarrow> int \<Rightarrow> gval" where
  "days_diff clk t1 t2 =
     VInt (f64_to_int64 (f64_sub (f64_div (hours (since (fst clk) t1)) (f64_of_int 24))
                                 (f64_div (hours (since (snd clk) t2)) (f64_of_int 24))))"

definition days_between :: "runtime \<Rightarrow> int \<times> int \<Rightarrow> gval \<Rightarrow> gval \<Rightarrow> string + gval" where
  "days_between rt clk a b =
     (case (toTime rt a, toTime rt b) of
        (Inr t1, Inr t2) \<Rightarrow> Inr (days_diff clk t1 t2)
      | _ \<Rightarrow> Inl ''invalid time'')"

section \<open>Transforms\<close>

definition sumFloats :: "gval list \<Rightarrow> float64" where
  "sumFloats xs = foldl (\<lambda>s it. f64_add s (toFloat it)) (FFin False 0 0) xs"

definition truthy_arr :: "gval \<Rightarrow> gval" where
  "truthy_arr v = (case as_arr v of Some arr \<Rightarrow> VBool (arr \<noteq> []) | None \<Rightarrow> VBool (v \<noteq> VNil))"

definition pred_arg :: "gval list \<Rightarrow> string" where
  "pred_arg args = (case as_str (args ! 1) of Some s \<Rightarrow> s | None \<Rightarrow> [])"

definition applyTransform ::
  "runtime \<Rightarrow> int \<times> int \<Rightarrow> string \<Rightarrow> gval \<Rightarrow> gval list \<Rightarrow> string + gval" where
  "applyTransform rt clk name v args =
     (if name = ''count'' then
        Inr (VInt (case as_arr v of Some arr \<Rightarrow> int (length arr) | None \<Rightarrow> 0))
      else if name = ''sum'' then
        Inr (VFloat (case as_arr v of Some arr \<Rightarrow> sumFloats arr | None \<Rightarrow> toFloat v))
      else if name = ''days_between'' then
        (if length args = 2 then days_between rt clk (args ! 0) (args ! 1)
         else case as_arr v of
                Some [a, b] \<Rightarrow> days_between rt clk a b
              | _ \<Rightarrow> Inl ''days_between expects 2 args'')
      else if name = ''now'' then Inr (VStr (format_rfc3339 rt (fst clk)))
      else if name = ''any'' then
        (if length args = 2
         then Inr (VBool (list_ex (\<lambda>it. matchPredicate rt it (pred_arg args)) (toArray (args ! 0))))
         else Inr (truthy_arr v))
      else if name = ''all'' then
        (if length args = 2
         then let src = toArray (args ! 0)
              in Inr (VBool (src \<noteq> [] \<and> list_all (\<lambda>it. matchPredicate rt it (pred_arg args)) src))
         else Inr (truthy_arr v))
      else if name = ''exists'' then Inr (VBool (v \<noteq> VNil))
      else if name = ''first'' then
        Inr (case as_arr v of Some [] \<Rightarrow> VNil | Some (x # _) \<Rightarrow> x | None \<Rightarrow> v)
      else if name = ''to_number'' then
        (case as_str v of
           Some t \<Rightarrow> Inr (case parse_float rt (trim_space t) of None \<Rightarrow> VInt 0 | Some f \<Rightarrow> VFloat f)
         | None \<Rightarrow> Inr (VFloat (toFloat v)))
      else if name = ''to_string'' then Inr (VStr (sprint rt v))
      else if name = ''coalesce'' then
        Inr (case find (\<lambda>a. \<not> isZero a) args of Some a \<Rightarrow> a | None \<Rightarrow> v)
      else Inr v)"

section \<open>Loading the configuration\<close>

definition coalesce_json :: "gval option \<Rightarrow> gval \<Rightarrow> gval" where
  "coalesce_json c dflt = (case c of None \<Rightarrow> dflt | Some v \<Rightarrow> v)"

definition unmarshal_maps :: "gval \<Rightarrow> gomap list" where
  "unmarshal_maps v = map unmarshal_map (unmarshal_arr v)"

text \<open>A NULL in a column scanned into a Go string is an error of \<^verbatim>\<open>rows.Scan\<close>.\<close>

definition scan_resolver :: "resolver_row \<Rightarrow> string + Resolver" where
  "scan_resolver r =
     (case rv_connector_key r of
        None \<Rightarrow> Inl ''cannot scan NULL into *string''
      | Some ck \<Rightarrow> Inr \<lparr> ID = rv_id r, ActionKey = rv_action r, Name = rv_name r, ConnectorKey = ck,
          RequestTmpl = unmarshal_map (coalesce_json (rv_request_template r) (VMap [])),
          ResponseSample = unmarshal_map (coalesce_json (rv_response_sample r) (VMap [])),
          Needs = unmarshal_maps (coalesce_json (rv_needs r) (VArr [])) \<rparr>)"

fun scan_all :: "('r \<Rightarrow> 'e + 'a) \<Rightarrow> 'r list \<Rightarrow> 'e + 'a list" where
  "scan_all f [] = Inr []"
| "scan_all f (r # rs) =
     (case f r of Inl e \<Rightarrow> Inl e
      | Inr a \<Rightarrow> (case scan_all f rs of Inl e \<Rightarrow> Inl e | Inr as \<Rightarrow> Inr (a # as)))"

definition loadResolvers :: "db \<Rightarrow> tenant_ctx \<Rightarrow> string \<Rightarrow> string + Resolver list" where
  "loadResolvers d ctx actionKey =
     (case run_rows d LoadResolvers ctx rv_tenant (resolvers d) of
        None \<Rightarrow> Inl ''query failed''
      | Some rows \<Rightarrow> scan_all scan_resolver (filter (\<lambda>r. rv_action r = actionKey \<and> rv_enabled r) rows))"

definition scan_mapping :: "mapping_row \<Rightarrow> Mapping" where
  "scan_mapping r = \<lparr> MID = mp_id r, MActionKey = mp_action r, MName = mp_name r,
     Path = mp_jmespath r, FactKey = mp_fact_key r,
     Transform = (case mp_transform r of None \<Rightarrow> [] | Some t \<Rightarrow> t),
     TransformArgs = unmarshal_arr (coalesce_json (mp_transform_args r) (VArr [])),
     Required = mp_required r \<rparr>"

definition loadMappings :: "db \<Rightarrow> tenant_ctx \<Rightarrow> string \<Rightarrow> string + Mapping list" where
  "loadMappings d ctx actionKey =
     (case run_rows d LoadMappings ctx mp_tenant (mappings d) of
        None \<Rightarrow> Inl ''query failed''
      | Some rows \<Rightarrow> Inr (map scan_mapping (filter (\<lambda>r. mp_action r = actionKey) rows)))"

section \<open>Resolving\<close>

text \<open>One iteration of the mapping loop: the value of the mapping, or its error.\<close>

definition eval_mapping :: "runtime \<Rightarrow> jmes \<Rightarrow> int \<times> int \<Rightarrow> gval \<Rightarrow> Mapping \<Rightarrow> string + gval" where
  "eval_mapping rt search clk doc m =
     (case search (Path m) doc of
        Inl e \<Rightarrow> Inl e
      | Inr val \<Rightarrow> if Transform m \<noteq> [] then applyTransform rt clk (Transform m) val (TransformArgs m)
                   else Inr val)"

fun apply_mappings ::
  "runtime \<Rightarrow> jmes \<Rightarrow> clock \<Rightarrow> gval \<Rightarrow> nat \<Rightarrow> Mapping list \<Rightarrow> kvs \<Rightarrow> string + kvs" where
  "apply_mappings rt search clk doc i [] facts = Inr facts"
| "apply_mappings rt search clk doc i (m # ms) facts =
     (case eval_mapping rt search (clk i) doc m of
        Inl e \<Rightarrow> if Required m then Inl e
                 else apply_mappings rt search clk doc (Suc i) ms facts
      | Inr val \<Rightarrow> apply_mappings rt search clk doc (Suc i) ms (AList.update (FactKey m) val facts))"

definition samples :: "Resolver list \<Rightarrow> kvs" where
  "samples rs = foldl (\<lambda>m r. AList.update (Name r) (any_of_map (ResponseSample r)) m) [] rs"

definition facts_doc :: "gomap \<Rightarrow> Resolver list \<Rightarrow> gval" where
  "facts_doc inputs rs = VMap [(''inputs'', any_of_map inputs), (''resolvers'', VMap (samples rs))]"

text \<open>The result pair of Go: the facts (possibly nil) and the error.\<close>

definition ResolveFacts ::
  "runtime \<Rightarrow> jmes \<Rightarrow> clock \<Rightarrow> db option \<Rightarrow> string \<Rightarrow> string \<Rightarrow> gomap \<Rightarrow> gomap \<times> string option" where
  "ResolveFacts rt search clk pool tenantID actionKey inputs =
     (case pool of
        None \<Rightarrow> (Some (case inputs of None \<Rightarrow> [] | Some m \<Rightarrow> m), None)
      | Some d \<Rightarrow>
          if faults d FactsBegin then (None, Some ''begin failed'')
          else if faults d FactsSetConfig then (None, Some ''set_config failed'')
          else (case loadResolvers d (InTx tenantID) actionKey of
                  Inl e \<Rightarrow> (None, Some e)
                | Inr rs \<Rightarrow>
                   (case loadMappings d (InTx tenantID) actionKey of
                      Inl e \<Rightarrow> (None, Some e)
                    | Inr ms \<Rightarrow>
                       (case apply_mappings rt search clk (facts_doc inputs rs) 0 ms [] of
                          Inl e \<Rightarrow> (None, Some e)
                        | Inr facts \<Rightarrow>
                           (Some facts, if faults d FactsCommit then Some ''commit failed'' else None)))))"

text \<open>\<^verbatim>\<open>ResolverNeeds\<close>: the configured prompts of the action's enabled resolvers.\<close>

definition ResolverNeeds :: "db option \<Rightarrow> string \<Rightarrow> string \<Rightarrow> gomap list \<times> string option" where
  "ResolverNeeds pool tenantID actionKey =
     (case pool of
        None \<Rightarrow> ([], None)
      | Some d \<Rightarrow>
          if faults d NeedsQuery then ([], Some ''query failed'')
          else (case rls_rows d (ViaCte tenantID) rv_tenant (resolvers d) of
             None \<Rightarrow> ([], None)
           | Some rows \<Rightarrow>
              (concat (map (\<lambda>r. unmarshal_maps (coalesce_json (rv_needs r) (VArr [])))
                 (filter (\<lambda>r. rv_action r = actionKey \<and> rv_enabled r) rows)), None)))"

section \<open>What the mapping loop computes\<close>

text \<open>Specification of the loop: the value of a fact is that of the last mapping, in row order, that
  writes its key and evaluates without error.\<close>

fun fact_value ::
  "runtime \<Rightarrow> jmes \<Rightarrow> clock \<Rightarrow> gval \<Rightarrow> nat \<Rightarrow> Mapping list \<Rightarrow> string \<Rightarrow> gval option" where
  "fact_value rt search clk doc i [] k = None"
| "fact_value rt search clk doc i (m # ms) k =
     (case fact_value rt search clk doc (Suc i) ms k of
        Some v \<Rightarrow> Some v
      | None \<Rightarrow> (case eval_mapping rt search (clk i) doc m of
                   Inl e \<Rightarrow> None
                 | Inr v \<Rightarrow> if FactKey m = k then Some v else None))"

lemma apply_mappings_value:
  "apply_mappings rt search clk doc i ms facts = Inr facts' \<Longrightarrow>
     map_of facts' k = (case fact_value rt search clk doc i ms k of
                          Some v \<Rightarrow> Some v | None \<Rightarrow> map_of facts k)"
proof (induction rt search clk doc i ms facts rule: apply_mappings.induct)
  case (2 rt search clk doc i m ms facts)
  then show ?case
    by (cases "eval_mapping rt search (clk i) doc m")
       (auto simp: update_conv' split: if_splits option.splits)
qed simp

lemma apply_mappings_wf:
  "apply_mappings rt search clk doc i ms facts = Inr facts' \<Longrightarrow> wf_map facts \<Longrightarrow> wf_map facts'"
proof (induction rt search clk doc i ms facts rule: apply_mappings.induct)
  case (2 rt search clk doc i m ms facts)
  then show ?case
    by (cases "eval_mapping rt search (clk i) doc m") (auto split: if_splits)
qed simp

text \<open>The loop fails exactly when a required mapping does.\<close>

lemma apply_mappings_fails:
  "(\<exists>e. apply_mappings rt search clk doc i ms facts = Inl e) \<longleftrightarrow>
     (\<exists>j < length ms. Required (ms ! j) \<and> (\<exists>e. eval_mapping rt search (clk (i + j)) doc (ms ! j) = Inl e))"
proof (induction rt search clk doc i ms facts rule: apply_mappings.induct)
  case (2 rt search clk doc i m ms facts)
  have shift: "(\<exists>j < length (m # ms). P j ((m # ms) ! j)) \<longleftrightarrow> P 0 m \<or> (\<exists>j < length ms. P (Suc j) (ms ! j))" for P
    using less_Suc_eq_0_disj by auto
  show ?case
    unfolding shift [of "\<lambda>j x. Required x \<and> (\<exists>e. eval_mapping rt search (clk (i + j)) doc x = Inl e)"]
    using 2 by (cases "eval_mapping rt search (clk i) doc m") auto
qed simp

lemma scan_all_Inr: "scan_all f rs = Inr as \<Longrightarrow> length as = length rs \<and> (\<forall>i < length rs. f (rs ! i) = Inr (as ! i))"
proof (induction rs arbitrary: as)
  case (Cons r rs)
  then show ?case by (auto split: sum.splits simp: less_Suc_eq_0_disj)
qed simp

text \<open>C16: Facts are what the mappings say.  When \<^verbatim>\<open>ResolveFacts\<close> succeeds against a database, the value of
  every fact key is the value of the last of the action's mappings (in row order) that writes this
  key and evaluates without error, over a document holding the inputs and the resolvers' samples; a
  key no such mapping writes is absent.\<close>

theorem ResolveFacts_values:
  assumes "ResolveFacts rt search clk (Some d) tid key inputs = (Some facts, err)"
  shows "\<exists>rs ms. loadResolvers d (InTx tid) key = Inr rs \<and> loadMappings d (InTx tid) key = Inr ms
     \<and> (\<forall>k. map_of facts k = fact_value rt search clk (facts_doc inputs rs) 0 ms k)"
proof -
  from assms obtain rs ms where
    "loadResolvers d (InTx tid) key = Inr rs" "loadMappings d (InTx tid) key = Inr ms"
    "apply_mappings rt search clk (facts_doc inputs rs) 0 ms [] = Inr facts"
    by (auto simp: ResolveFacts_def split: if_splits sum.splits)
  then show ?thesis
    using apply_mappings_value [of rt search clk "facts_doc inputs rs" 0 ms "[]" facts]
    by (auto split: option.splits)
qed

lemma demo_facts:
  "ResolveFacts demo_rt demo_search (\<lambda>_. (0, 0)) (Some demo_db) ''t1'' ''shop.cancel'' (Some [])
     = (Some [(''order'', VMap [])], None)"
  by (simp add: ResolveFacts_def loadResolvers_def loadMappings_def demo_defs scan_mapping_def
      facts_doc_def samples_def eval_mapping_def)

theorem ResolveFacts_values_witness:
  "\<exists>rs ms. loadResolvers demo_db (InTx ''t1'') ''shop.cancel'' = Inr rs
     \<and> loadMappings demo_db (InTx ''t1'') ''shop.cancel'' = Inr ms
     \<and> (\<forall>k. map_of [(''order'', VMap [])] k
            = fact_value demo_rt demo_search (\<lambda>_. (0, 0)) (facts_doc (Some []) rs) 0 ms k)"
  by (rule ResolveFacts_values [OF demo_facts])

text \<open>Required mappings are enforced and optional ones are not.  With the configuration loaded,
  \<^verbatim>\<open>ResolveFacts\<close> returns the nil map with an error exactly when some required mapping fails to
  evaluate; a failing optional mapping is skipped.\<close>

theorem ResolveFacts_required:
  assumes "\<not> faults d FactsBegin" "\<not> faults d FactsSetConfig"
    and "loadResolvers d (InTx tid) key = Inr rs" "loadMappings d (InTx tid) key = Inr ms"
  shows "fst (ResolveFacts rt search clk (Some d) tid key inputs) = None \<longleftrightarrow>
     (\<exists>j < length ms. Required (ms ! j)
        \<and> (\<exists>e. eval_mapping rt search (clk j) (facts_doc inputs rs) (ms ! j) = Inl e))"
  using assms apply_mappings_fails [of rt search clk "facts_doc inputs rs" 0 ms "[]"]
  by (auto simp: ResolveFacts_def split: sum.splits)

lemma demo_load:
  "loadResolvers demo_db (InTx ''t1'') ''shop.cancel'' = Inr []"
  "loadMappings (demo_db\<lparr>mappings := [demo_mapping ''t1'' ''nope'' True]\<rparr>) (InTx ''t1'') ''shop.cancel''
     = Inr [scan_mapping (demo_mapping ''t1'' ''nope'' True)]"
  "loadResolvers (demo_db\<lparr>mappings := [demo_mapping ''t1'' ''nope'' True]\<rparr>) (InTx ''t1'') ''shop.cancel'' = Inr []"
  by (simp_all add: loadResolvers_def loadMappings_def demo_defs)

theorem ResolveFacts_required_witness:
  "fst (ResolveFacts demo_rt demo_search (\<lambda>_. (0, 0))
      (Some (demo_db\<lparr>mappings := [demo_mapping ''t1'' ''nope'' True]\<rparr>)) ''t1'' ''shop.cancel'' (Some [])) = None"
  by (subst ResolveFacts_required [OF _ _ demo_load(3) demo_load(2)])
     (simp_all add: demo_defs scan_mapping_def eval_mapping_def facts_doc_def samples_def)

section \<open>Tenant isolation\<close>

definition same_tenant_rows :: "('r \<Rightarrow> string) \<Rightarrow> string \<Rightarrow> 'r list \<Rightarrow> 'r list \<Rightarrow> bool" where
  "same_tenant_rows ten t rows rows' \<longleftrightarrow> filter (\<lambda>r. ten r = t) rows = filter (\<lambda>r. ten r = t) rows'"

lemma run_rows_same:
  assumes "rls_applies d" "rls_applies d'" "faults d' = faults d" "same_tenant_rows ten t rows rows'"
  shows "run_rows d st (InTx t) ten rows = run_rows d' st (InTx t) ten rows'"
  using assms by (simp add: run_rows_def rls_rows_tenant same_tenant_rows_def)

text \<open>C17: Facts do not cross tenants.  Under row level security, the facts resolved for a tenant are a
  function of that tenant's own resolver and mapping rows: two databases that agree on them give the
  same facts and the same error, whatever other tenants configured.\<close>

theorem ResolveFacts_isolated:
  assumes "rls_applies d" "rls_applies d'" "faults d' = faults d"
    and "same_tenant_rows rv_tenant tid (resolvers d) (resolvers d')"
    and "same_tenant_rows mp_tenant tid (mappings d) (mappings d')"
  shows "ResolveFacts rt search clk (Some d) tid key inputs
       = ResolveFacts rt search clk (Some d') tid key inputs"
proof -
  have r: "loadResolvers d (InTx tid) key = loadResolvers d' (InTx tid) key"
    unfolding loadResolvers_def using run_rows_same [OF assms(1-4)] by simp
  have m: "loadMappings d (InTx tid) key = loadMappings d' (InTx tid) key"
    unfolding loadMappings_def using run_rows_same [OF assms(1-3,5)] by simp
  show ?thesis unfolding ResolveFacts_def option.case r m assms(3) ..
qed

theorem ResolveFacts_isolated_witness:
  "ResolveFacts demo_rt demo_search (\<lambda>_. (0, 0)) (Some demo_db) ''t1'' ''shop.cancel'' (Some [])
   = ResolveFacts demo_rt demo_search (\<lambda>_. (0, 0))
       (Some (demo_db\<lparr>mappings := [demo_mapping ''t2'' ''resolvers'' True, demo_mapping ''t1'' ''inputs'' True]\<rparr>))
       ''t1'' ''shop.cancel'' (Some [])"
  by (rule ResolveFacts_isolated) (simp_all add: demo_defs same_tenant_rows_def)

section \<open>Differences in days\<close>

text \<open>\<^verbatim>\<open>days_between\<close> loses a day.  The transform subtracts two \<^verbatim>\<open>time.Since\<close> readings, and the clock
  moves between them: for two instants exactly two days apart, a microsecond between the two readings
  makes the truncated difference one day, while with equal readings it is two.\<close>

theorem days_between_undercounts:
  "let t1 = 1699000000000000000; t2 = t1 + 48 * hour_ns; now = 1700000000000000000 in
     days_diff (now, now) t1 t2 = VInt 2 \<and> days_diff (now, now + 1000) t1 t2 = VInt 1"
proof -
  have "days_diff (1700000000000000000, 1700000000000000000) 1699000000000000000 1699172800000000000 = VInt 2"
    by (simp add: days_diff_def since_def hours_def hour_ns_def quot_def remt_def f64_eval)
  moreover have "days_diff (1700000000000000000, 1700000000000001000) 1699000000000000000 1699172800000000000 = VInt 1"
    by (simp add: days_diff_def since_def hours_def hour_ns_def quot_def remt_def f64_eval)
  ultimately show ?thesis by (simp add: Let_def hour_ns_def)
qed

end
