(* ===== verification/Policy.thy ===== *)
theory Policy
  imports Facts Config
begin

text \<open>
  \<^verbatim>\<open>internal/policy/service.go\<close>: evaluating the published policy of an action, storing the decision,
  and validating a decision before execution.  The policy engine (OPA) is the parameter \<open>rego\<close>: it
  takes the module text and the input document and returns an error or a result set, each result a
  list of expression values.
\<close>

type_synonym rego = "string \<Rightarrow> gval \<Rightarrow> string + gval list list"

datatype DecisionStatus = Allow | AllowWithConditions | Blocked | NeedsInput

fun status_string :: "DecisionStatus \<Rightarrow> string" where
  "status_string Allow = ''ALLOW''"
| "status_string AllowWithConditions = ''ALLOW_WITH_CONDITIONS''"
| "status_string Blocked = ''BLOCKED''"
| "status_string NeedsInput = ''NEEDS_INPUT''"

record Decision =
  dec_ID :: string
  dec_ActionKey :: string
  dec_Inputs :: gomap
  dec_Facts :: gomap
  dec_PolicyVersion :: int
  dec_Status :: DecisionStatus
  dec_Reasons :: gval
  dec_Needs :: gval
  dec_Alternatives :: gval
  dec_ExpiresAt :: "int option"

section \<open>Evaluation\<close>

definition minute_ns :: int where "minute_ns = 60 * second_ns"

text \<open>\<^verbatim>\<open>ORDER BY version DESC LIMIT 1\<close>: the first row with the greatest version.\<close>

definition newest :: "policy_version_row list \<Rightarrow> policy_version_row option" where
  "newest rows = foldl (\<lambda>acc r. case acc of None \<Rightarrow> Some r
      | Some b \<Rightarrow> if pv_version r > pv_version b then Some r else Some b) None rows"

definition published_rows :: "string \<Rightarrow> policy_version_row list \<Rightarrow> policy_version_row list" where
  "published_rows actionKey rows = filter (\<lambda>r. pv_action r = actionKey \<and> pv_status r = ''published'') rows"

text \<open>The lookup at the start of \<^verbatim>\<open>Evaluate\<close>; its error is dropped and leaves the zero values.\<close>

definition lookup_policy :: "db option \<Rightarrow> string \<Rightarrow> string \<Rightarrow> string \<times> int" where
  "lookup_policy pool tenantID actionKey =
     (case pool of
        None \<Rightarrow> ([], 0)
      | Some d \<Rightarrow>
          (case run_rows d LatestPolicy (ViaCte tenantID) pv_tenant (policy_versions d) of
             None \<Rightarrow> ([], 0)
           | Some rows \<Rightarrow>
              (case newest (published_rows actionKey rows) of
                 None \<Rightarrow> ([], 0)
               | Some r \<Rightarrow> ((case pv_rego r of None \<Rightarrow> [] | Some m \<Rightarrow> m), pv_version r))))"

definition parse_status :: "string \<Rightarrow> DecisionStatus" where
  "parse_status s =
     (if s = ''ALLOW'' then Allow
      else if s = ''ALLOW_WITH_CONDITIONS'' then AllowWithConditions
      else if s = ''NEEDS_INPUT'' then NeedsInput
      else Blocked)"

text \<open>\<^verbatim>\<open>time.Duration(ttl) * time.Second\<close>: truncation to 64 bits, then a multiplication that wraps.\<close>

definition ttl_duration :: "float64 \<Rightarrow> int" where
  "ttl_duration ttl = wrap64 (f64_to_int64 ttl * second_ns)"

definition rego_value :: "string + gval list list \<Rightarrow> gval option" where
  "rego_value rs = (case rs of Inr ((v # _) # _) \<Rightarrow> Some v | _ \<Rightarrow> None)"

definition policy_input :: "gomap \<Rightarrow> gomap \<Rightarrow> gval" where
  "policy_input inputs facts = VMap [(''inputs'', any_of_map inputs), (''facts'', any_of_map facts)]"

definition Evaluate ::
  "rego \<Rightarrow> int \<Rightarrow> db option \<Rightarrow> string \<Rightarrow> string \<Rightarrow> gomap \<Rightarrow> gomap \<Rightarrow> Decision" where
  "Evaluate rego now pool tenantID actionKey inputs facts =
     (let (modl, ver) = lookup_policy pool tenantID actionKey;
          dec = \<lparr> dec_ID = [], dec_ActionKey = actionKey, dec_Inputs = inputs, dec_Facts = facts,
                  dec_PolicyVersion = ver, dec_Status = Allow, dec_Reasons = VNil, dec_Needs = VNil,
                  dec_Alternatives = VNil, dec_ExpiresAt = Some (now + 15 * minute_ns) \<rparr>
      in if modl = [] then dec
         else (case rego_value (rego modl (policy_input inputs facts)) of
                 None \<Rightarrow> dec\<lparr> dec_Status := Blocked, dec_Reasons := VArr [VStr ''policy_error''],
                              dec_ExpiresAt := Some (now + 5 * minute_ns) \<rparr>
               | Some out \<Rightarrow>
                  (case as_map out of
                     None \<Rightarrow> dec
                   | Some m \<Rightarrow> dec\<lparr>
                       dec_Status := (case as_str (mget m ''status'') of
                                        Some s \<Rightarrow> parse_status s | None \<Rightarrow> Blocked),
                       dec_Reasons := mget m ''reasons'',
                       dec_Needs := mget m ''needs'',
                       dec_Alternatives := mget m ''alternatives'',
                       dec_ExpiresAt := (case as_float (mget m ''ttl_seconds'') of
                           Some ttl \<Rightarrow> if f64_pos ttl then Some (now + ttl_duration ttl)
                                       else Some (now + 15 * minute_ns)
                         | None \<Rightarrow> Some (now + 15 * minute_ns)) \<rparr>)))"

section \<open>Storing a decision\<close>

definition mustJSON :: "runtime \<Rightarrow> gomap \<Rightarrow> string" where
  "mustJSON rt m = json_text rt (any_of_map m)"

text \<open>The text that is hashed to bind a decision: \<^verbatim>\<open>fmt.Sprintf("%x|%x|%d", ...)\<close>.\<close>

definition binding_text :: "runtime \<Rightarrow> gomap \<Rightarrow> gomap \<Rightarrow> int \<Rightarrow> string" where
  "binding_text rt inputs facts ver =
     hex_encode (mustJSON rt inputs) @ ''|'' @ hex_encode (mustJSON rt facts) @ ''|'' @ show_int ver"

definition binding_hash :: "runtime \<Rightarrow> gomap \<Rightarrow> gomap \<Rightarrow> int \<Rightarrow> string" where
  "binding_hash rt inputs facts ver = hex_encode (sha256 rt (binding_text rt inputs facts ver))"

text \<open>A \<^verbatim>\<open>timestamptz\<close> column keeps microseconds.\<close>

definition micros :: "int \<Rightarrow> int" where
  "micros t = t div 1000 * 1000"

definition decision_row_of :: "runtime \<Rightarrow> string \<Rightarrow> string \<Rightarrow> Decision \<Rightarrow> decision_row" where
  "decision_row_of rt fresh tenantID d = \<lparr>
     dc_id = fresh, dc_tenant = tenantID, dc_action = dec_ActionKey d,
     dc_inputs = mustJSON rt (dec_Inputs d), dc_facts = mustJSON rt (dec_Facts d),
     dc_version = dec_PolicyVersion d, dc_status = status_string (dec_Status d),
     dc_reasons = json_text rt (dec_Reasons d), dc_needs = json_text rt (dec_Needs d),
     dc_alternatives = json_text rt (dec_Alternatives d),
     dc_hash = Some (binding_hash rt (dec_Inputs d) (dec_Facts d) (dec_PolicyVersion d)),
     dc_expires = map_option micros (dec_ExpiresAt d) \<rparr>"

text \<open>The columns for inputs and facts are NOT NULL; a failed encoding arrives as NULL.\<close>

definition insert_decision_ok :: "runtime \<Rightarrow> db \<Rightarrow> string \<Rightarrow> Decision \<Rightarrow> bool" where
  "insert_decision_ok rt d tenantID dec \<longleftrightarrow>
     \<not> faults d InsertDecision \<and> rls_can_write d (ViaCte tenantID) tenantID
     \<and> mustJSON rt (dec_Inputs dec) \<noteq> [] \<and> mustJSON rt (dec_Facts dec) \<noteq> []"

definition PersistDecision ::
  "runtime \<Rightarrow> string \<Rightarrow> db option \<Rightarrow> string \<Rightarrow> Decision \<Rightarrow> string \<times> string option \<times> db option" where
  "PersistDecision rt fresh pool tenantID dec =
     (case pool of
        None \<Rightarrow> (''dev-decision'', None, None)
      | Some d \<Rightarrow>
          if insert_decision_ok rt d tenantID dec
          then (fresh, None, Some (d\<lparr> decisions := decisions d @ [decision_row_of rt fresh tenantID dec] \<rparr>))
          else ([], Some ''insert failed'', Some d))"

section \<open>Validation\<close>

definition problem :: "string \<Rightarrow> string \<Rightarrow> string \<Rightarrow> kvs" where
  "problem tp title detail = [(''type'', VStr tp), (''title'', VStr title), (''detail'', VStr detail)]"

definition allowed_status :: "string \<Rightarrow> bool" where
  "allowed_status s \<longleftrightarrow> s = status_string Allow \<or> s = status_string AllowWithConditions"

definition expired :: "int \<Rightarrow> int option \<Rightarrow> bool" where
  "expired now e \<longleftrightarrow> (case e of None \<Rightarrow> False | Some t \<Rightarrow> t < now)"

definition select_decision :: "db \<Rightarrow> stmt \<Rightarrow> string \<Rightarrow> string \<Rightarrow> decision_row option" where
  "select_decision d st tenantID decisionID =
     (case run_rows d st (ViaCte tenantID) dc_tenant (decisions d) of
        None \<Rightarrow> None
      | Some rows \<Rightarrow> find (\<lambda>r. dc_id r = decisionID) rows)"

definition invalid_decision :: "environ \<Rightarrow> kvs" where
  "invalid_decision env = problem (Type env ''invalid-decision'') ''Invalid decision id''
     ''The provided decision_id is unknown or not accessible''"

definition decision_blocked :: "environ \<Rightarrow> kvs" where
  "decision_blocked env = problem (Type env ''decision-blocked'') ''Decision is blocked''
     ''The decision is not allowed for execution''"

definition decision_expired :: "environ \<Rightarrow> kvs" where
  "decision_expired env = problem (Type env ''decision-expired'') ''Decision expired''
     ''The decision has expired; call eligibility again''"

definition decision_mismatch :: "environ \<Rightarrow> string \<Rightarrow> kvs" where
  "decision_mismatch env detail = problem (Type env ''decision-mismatch'') ''Decision mismatch'' detail"

definition ValidateDecision :: "environ \<Rightarrow> int \<Rightarrow> db option \<Rightarrow> string \<Rightarrow> string \<Rightarrow> bool \<times> kvs option" where
  "ValidateDecision env now pool tenantID decisionID =
     (case pool of
        None \<Rightarrow> (True, None)
      | Some d \<Rightarrow>
          (case select_decision d SelectDecision tenantID decisionID of
             None \<Rightarrow> (False, Some (invalid_decision env))
           | Some r \<Rightarrow>
              if \<not> allowed_status (dc_status r) then (False, Some (decision_blocked env))
              else if expired now (dc_expires r) then (False, Some (decision_expired env))
              else (True, None)))"

text \<open>The stricter check before execution; \<open>fa\<close> is what \<^verbatim>\<open>ResolveFacts\<close> returns at that moment.\<close>

definition check_binding ::
  "environ \<Rightarrow> runtime \<Rightarrow> int \<Rightarrow> decision_row \<Rightarrow> string \<Rightarrow> gomap \<Rightarrow> gomap \<Rightarrow> bool \<times> kvs option" where
  "check_binding env rt now r actionKey inputs fa =
     (case dc_hash r of
        None \<Rightarrow> (False, Some (invalid_decision env))
      | Some storedHash \<Rightarrow>
          if dc_action r \<noteq> actionKey
          then (False, Some (decision_mismatch env ''The decision_id does not match this action''))
          else if \<not> allowed_status (dc_status r) then (False, Some (decision_blocked env))
          else if expired now (dc_expires r) then (False, Some (decision_expired env))
          else if storedHash \<noteq> [] \<and> storedHash \<noteq> binding_hash rt inputs fa (dc_version r)
          then (False, Some (decision_mismatch env ''Inputs or facts changed; please re-run eligibility''))
          else (True, None))"

definition ValidateAndBindDecision ::
  "environ \<Rightarrow> runtime \<Rightarrow> jmes \<Rightarrow> clock \<Rightarrow> int \<Rightarrow> db option \<Rightarrow> string \<Rightarrow> string \<Rightarrow> string \<Rightarrow> gomap
     \<Rightarrow> bool \<times> kvs option" where
  "ValidateAndBindDecision env rt search clk now pool tenantID decisionID actionKey inputs =
     (case pool of
        None \<Rightarrow> (True, None)
      | Some d \<Rightarrow>
          (case select_decision d SelectDecisionBind tenantID decisionID of
             None \<Rightarrow> (False, Some (invalid_decision env))
           | Some r \<Rightarrow> check_binding env rt now r actionKey inputs
                         (fst (ResolveFacts rt search clk pool tenantID actionKey inputs))))"


lemmas problem_defs = invalid_decision_def decision_blocked_def decision_expired_def
  decision_mismatch_def problem_def

section \<open>The binding hash\<close>

lemma bar_not_hex: "CHR ''|'' \<notin> set (hex_encode s)"
  by (rule hex_encode_no_bar)

lemma append_bar_inject:
  assumes "c \<notin> set a" "c \<notin> set a'"
  shows "a @ c # b = a' @ c # b' \<longleftrightarrow> a = a' \<and> b = b'"
  using assms
proof (induction a arbitrary: a')
  case Nil
  then show ?case by (cases a') auto
next
  case (Cons x a)
  then show ?case by (cases a') auto
qed

lemma binding_text_inject:
  "binding_text rt i f v = binding_text rt i' f' v' \<longleftrightarrow>
     mustJSON rt i = mustJSON rt i' \<and> mustJSON rt f = mustJSON rt f' \<and> v = v'"
  by (auto simp: binding_text_def append_bar_inject bar_not_hex hex_encode_inject show_int_inject)

text \<open>No collision of the digest on two given texts; weaker than injectivity, which no digest has.\<close>

definition no_collision :: "runtime \<Rightarrow> string \<Rightarrow> string \<Rightarrow> bool" where
  "no_collision rt s t \<longleftrightarrow> (sha256 rt s = sha256 rt t \<longrightarrow> s = t)"

lemma binding_hash_inject:
  "no_collision rt (binding_text rt i f v) (binding_text rt i' f' v') \<Longrightarrow>
   binding_hash rt i f v = binding_hash rt i' f' v' \<longleftrightarrow>
     mustJSON rt i = mustJSON rt i' \<and> mustJSON rt f = mustJSON rt f' \<and> v = v'"
  unfolding binding_text_inject [symmetric]
  by (auto simp: binding_hash_def hex_encode_inject no_collision_def)

section \<open>The table of decisions\<close>

text \<open>What the services rely on in a table that is only ever inserted into and read by key.\<close>

locale insert_only_table =
  fixes ins :: "'d \<Rightarrow> 'r \<Rightarrow> 'd" and get :: "'d \<Rightarrow> 'k \<Rightarrow> 'r option"
    and key :: "'r \<Rightarrow> 'k" and used :: "'d \<Rightarrow> 'k set"
  assumes get_ins: "key r \<notin> used d \<Longrightarrow> get (ins d r) k = (if k = key r then Some r else get d k)"
    and used_ins: "used (ins d r) = insert (key r) (used d)"
    and get_used: "get d k = Some r \<Longrightarrow> k \<in> used d \<and> key r = k"
begin

lemma get_ins_same: "key r \<notin> used d \<Longrightarrow> get (ins d r) (key r) = Some r"
  by (simp add: get_ins)

lemma get_ins_stable: "key r \<notin> used d \<Longrightarrow> get d k = Some x \<Longrightarrow> get (ins d r) k = Some x"
  using get_used by (auto simp: get_ins)

lemma get_foldl_stable:
  assumes "get d k = Some x" "distinct (map key rs)" "set (map key rs) \<inter> used d = {}"
  shows "get (foldl ins d rs) k = Some x"
  using assms
proof (induction rs arbitrary: d)
  case (Cons r rs)
  have "get (ins d r) k = Some x" using Cons.prems by (intro get_ins_stable) auto
  moreover have "set (map key rs) \<inter> used (ins d r) = {}"
    using Cons.prems by (auto simp: used_ins)
  ultimately show ?case using Cons.IH Cons.prems(2) by simp
qed simp

end

definition add_decision :: "db \<Rightarrow> decision_row \<Rightarrow> db" where
  "add_decision d r = d\<lparr> decisions := decisions d @ [r] \<rparr>"

definition decision_by_id :: "db \<Rightarrow> string \<Rightarrow> decision_row option" where
  "decision_by_id d i = find (\<lambda>r. dc_id r = i) (decisions d)"

definition decision_ids :: "db \<Rightarrow> string set" where
  "decision_ids d = dc_id ` set (decisions d)"

lemma find_append: "find P (xs @ ys) = (case find P xs of Some x \<Rightarrow> Some x | None \<Rightarrow> find P ys)"
  by (induction xs) auto

lemma id_unused:
  assumes "i \<notin> decision_ids d"
  shows "find (\<lambda>x. dc_id x = i) (decisions d) = None"
    "find (\<lambda>x. P x \<and> dc_id x = i) (decisions d) = None"
  using assms by (fastforce simp: decision_ids_def find_None_iff image_iff)+

interpretation decision_table: insert_only_table add_decision decision_by_id dc_id decision_ids
proof unfold_locales
  fix r :: decision_row and d k
  assume "dc_id r \<notin> decision_ids d"
  then have "find (\<lambda>x. dc_id x = dc_id r) (decisions d) = None"
    by (simp add: id_unused)
  then show "decision_by_id (add_decision d r) k = (if k = dc_id r then Some r else decision_by_id d k)"
    by (auto simp: decision_by_id_def add_decision_def find_append split: option.splits)
qed (auto simp: decision_ids_def add_decision_def decision_by_id_def dest!: find_set)

text \<open>Whether the statements of the services that use the \<^verbatim>\<open>WITH\<close> prefix see the tenant's rows.\<close>

definition tenant_visible :: "db \<Rightarrow> bool" where
  "tenant_visible d \<longleftrightarrow> \<not> rls_applies d \<or> cte_runs d"

lemma rls_can_write_cte [store_simps]: "rls_can_write d (ViaCte t) t \<longleftrightarrow> tenant_visible d"
  by (auto simp: rls_can_write_def tenant_setting_simps tenant_visible_def)

lemma run_rows_invisible: "\<not> tenant_visible d \<Longrightarrow> run_rows d st (ViaCte t) ten rows = None"
  by (simp add: run_rows_def tenant_visible_def rls_rows_cte)

lemma find_filter: "find P (filter Q xs) = find (\<lambda>x. Q x \<and> P x) xs"
  by (induction xs) auto

lemma find_unique:
  assumes "find P xs = Some x" "Q x"
  shows "find (\<lambda>x. Q x \<and> P x) xs = Some x \<or> (\<exists>y \<in> set xs. P y \<and> \<not> Q y)"
  using assms by (induction xs) (auto split: if_splits)

lemma select_decision_row:
  assumes "select_decision d st tid i = Some r"
  shows "r \<in> set (decisions d) \<and> dc_id r = i \<and> tenant_visible d \<and> \<not> faults d st
     \<and> (rls_applies d \<longrightarrow> dc_tenant r = tid)"
  using assms run_rows_invisible [of d st tid dc_tenant]
  by (auto simp: select_decision_def run_rows_def rls_rows_def split: option.splits if_splits dest!: find_set)
     (auto simp: tenant_setting_simps split: if_splits)

lemma select_added_decision:
  assumes "tenant_visible d" "\<not> faults d st" "dc_id r \<notin> decision_ids d" "dc_tenant r = tid"
  shows "select_decision (add_decision d r) st tid (dc_id r) = Some r"
proof -
  have "find (\<lambda>x. dc_id x = dc_id r) (decisions d) = None"
    "find (\<lambda>x. dc_tenant x = tid \<and> dc_id x = dc_id r) (decisions d) = None"
    using assms(3) by (simp_all add: id_unused)
  then show ?thesis
    using assms by (auto simp: select_decision_def run_rows_def add_decision_def rls_rows_def
        tenant_visible_def tenant_setting_def find_append find_filter)
qed


section \<open>Properties of evaluation\<close>

definition executable_status :: "DecisionStatus \<Rightarrow> bool" where
  "executable_status s \<longleftrightarrow> s = Allow \<or> s = AllowWithConditions"

lemma allowed_status_string [simp]: "allowed_status (status_string s) = executable_status s"
  by (cases s) (auto simp: allowed_status_def executable_status_def)

lemma executable_parse: "executable_status (parse_status s) \<longleftrightarrow> s = ''ALLOW'' \<or> s = ''ALLOW_WITH_CONDITIONS''"
  by (simp add: parse_status_def executable_status_def)

lemma as_str_VStr [simp]: "as_str v = Some s \<longleftrightarrow> v = VStr s"
  by (cases v) (auto simp: as_str_def)

lemma as_float_VFloat [simp]: "as_float v = Some f \<longleftrightarrow> v = VFloat f"
  by (cases v) (auto simp: as_float_def)

lemma as_map_VMap [simp]: "as_map (VMap m) = Some m"
  by (simp add: as_map_def)

lemma Evaluate_fields:
  "dec_ActionKey (Evaluate rego now pool tid key inputs facts) = key"
  "dec_Inputs (Evaluate rego now pool tid key inputs facts) = inputs"
  "dec_Facts (Evaluate rego now pool tid key inputs facts) = facts"
  "dec_PolicyVersion (Evaluate rego now pool tid key inputs facts) = snd (lookup_policy pool tid key)"
  "dec_ExpiresAt (Evaluate rego now pool tid key inputs facts) \<noteq> None"
  by (auto simp: Evaluate_def Let_def split: prod.splits option.splits if_splits)

text \<open>C10: When a decision is executable.  \<^verbatim>\<open>Evaluate\<close> lets an action pass exactly when it found no module
  to evaluate, or the engine returned a value that is not an object, or an object whose \<^verbatim>\<open>status\<close> is one
  of the two allowing strings.  An engine error, an empty result set, a missing or non-string status
  and every other status string block it.\<close>

theorem Evaluate_executable_iff:
  "executable_status (dec_Status (Evaluate rego now pool tid key inputs facts)) \<longleftrightarrow>
     fst (lookup_policy pool tid key) = [] \<or>
     (\<exists>out. rego_value (rego (fst (lookup_policy pool tid key)) (policy_input inputs facts)) = Some out \<and>
        (case as_map out of
           None \<Rightarrow> True
         | Some m \<Rightarrow> mget m ''status'' = VStr ''ALLOW'' \<or> mget m ''status'' = VStr ''ALLOW_WITH_CONDITIONS''))"
proof -
  have st: "executable_status (case as_str v of Some s \<Rightarrow> parse_status s | None \<Rightarrow> Blocked) \<longleftrightarrow>
      v = VStr ''ALLOW'' \<or> v = VStr ''ALLOW_WITH_CONDITIONS''" for v
    by (cases v) (simp_all add: executable_parse as_str_def executable_status_def [of Blocked])
  show ?thesis
    by (auto simp: Evaluate_def Let_def st split: prod.splits option.splits)
       (simp_all add: executable_status_def)
qed

text \<open>A boolean denial is an approval.  A published module whose \<^verbatim>\<open>decide\<close> is a value that is not an
  object, such as \<open>false\<close>, gives a decision with status \<^verbatim>\<open>ALLOW\<close>.\<close>

theorem Evaluate_scalar_allows:
  assumes "fst (lookup_policy pool tid key) \<noteq> []"
    and "rego (fst (lookup_policy pool tid key)) (policy_input inputs facts) = Inr [[VBool False]]"
  shows "dec_Status (Evaluate rego now pool tid key inputs facts) = Allow"
  using assms by (auto simp: Evaluate_def Let_def rego_value_def as_map_def split: prod.splits)

subsection \<open>Which policy is used\<close>

lemma newest_Nil [simp]: "newest [] = None"
  by (simp add: newest_def)

lemma newest_single [simp]: "newest [r] = Some r"
  by (simp add: newest_def)

lemma newest_snoc: "newest (rs @ [r]) = (case newest rs of None \<Rightarrow> Some r
    | Some b \<Rightarrow> if pv_version r > pv_version b then Some r else Some b)"
  by (simp add: newest_def)

lemma newest_max:
  "(newest rs = None \<longleftrightarrow> rs = []) \<and>
   (newest rs = Some b \<longrightarrow> b \<in> set rs \<and> (\<forall>r \<in> set rs. pv_version r \<le> pv_version b))"
proof (induction rs arbitrary: b rule: rev_induct)
  case (snoc r rs)
  then show ?case
    by (cases "newest rs") (auto simp: newest_snoc split: if_splits dest: order.strict_trans1 less_imp_le)
qed simp

text \<open>The rows among which a tenant's active policy is to be found.\<close>

definition tenant_published :: "db \<Rightarrow> string \<Rightarrow> string \<Rightarrow> policy_version_row set" where
  "tenant_published d tid key =
     {r \<in> set (policy_versions d). pv_tenant r = tid \<and> pv_action r = key \<and> pv_status r = ''published''}"


definition demo_policy :: "string \<Rightarrow> int \<Rightarrow> string \<Rightarrow> policy_version_row" where
  "demo_policy t v m = \<lparr> pv_tenant = t, pv_action = ''shop.cancel'', pv_version = v,
     pv_rego = Some m, pv_status = ''published'' \<rparr>"

definition policy_db :: db where
  "policy_db = demo_db\<lparr> cte_runs := True,
     policy_versions := [demo_policy ''t1'' 1 ''deny'', demo_policy ''t2'' 2 ''allow''] \<rparr>"

definition demo_rego :: rego where
  "demo_rego m inp =
     (if m = ''deny'' then Inr [[VMap [(''status'', VStr ''BLOCKED'')]]]
      else if m = ''no'' then Inr [[VBool False]]
      else Inr [[VMap [(''status'', VStr ''ALLOW''), (''ttl_seconds'', VFloat (f64_of_int 60))]]])"

lemmas policy_demo_defs = demo_policy_def policy_db_def demo_rego_def demo_defs

lemma lookup_demo:
  "lookup_policy (Some policy_db) ''t1'' ''shop.cancel'' = (''deny'', 1)"
  "lookup_policy (Some policy_db) ''t2'' ''shop.cancel'' = (''allow'', 2)"
  "lookup_policy (Some (policy_db\<lparr>rls_applies := False\<rparr>)) ''t1'' ''shop.cancel'' = (''allow'', 2)"
  by (simp_all add: lookup_policy_def policy_demo_defs published_rows_def newest_def)

theorem Evaluate_scalar_allows_witness:
  "dec_Status (Evaluate (\<lambda>m i. Inr [[VBool False]]) 0 (Some policy_db) ''t1'' ''shop.cancel'' None None) = Allow"
  by (rule Evaluate_scalar_allows) (simp_all add: lookup_demo)

lemma tenant_published_demo: "tenant_published policy_db ''t1'' ''shop.cancel'' = {demo_policy ''t1'' 1 ''deny''}"
  by (auto simp: tenant_published_def policy_demo_defs)


text \<open>C36: No policy at all.  Under row level security on a server that does not execute the unreferenced
  \<^verbatim>\<open>WITH\<close> query (as PostgreSQL documents), the lookup fails, its error is dropped, and \<^verbatim>\<open>Evaluate\<close> answers
  \<^verbatim>\<open>ALLOW\<close> with policy version 0 whatever the tenant published.\<close>

theorem Evaluate_unset_tenant_allows:
  assumes "rls_applies d" "\<not> cte_runs d"
  shows "dec_Status (Evaluate rego now (Some d) tid key inputs facts) = Allow
    \<and> dec_PolicyVersion (Evaluate rego now (Some d) tid key inputs facts) = 0"
proof -
  have "lookup_policy (Some d) tid key = ([], 0)"
    using assms run_rows_invisible [of d LatestPolicy tid pv_tenant "policy_versions d"]
    by (simp add: lookup_policy_def tenant_visible_def)
  then show ?thesis by (simp add: Evaluate_def)
qed

theorem Evaluate_unset_tenant_allows_witness:
  "tenant_published (policy_db\<lparr>cte_runs := False\<rparr>) ''t1'' ''shop.cancel'' = {demo_policy ''t1'' 1 ''deny''}
   \<and> dec_Status (Evaluate demo_rego 0 (Some (policy_db\<lparr>cte_runs := False\<rparr>)) ''t1'' ''shop.cancel'' None None) = Allow"
  using Evaluate_unset_tenant_allows [of "policy_db\<lparr>cte_runs := False\<rparr>"] tenant_published_demo
  by (simp add: tenant_published_def) (simp add: policy_demo_defs)

text \<open>Another tenant's policy decides.  When the services connect as the owner of the tables, to which
  row level security does not apply, the query has no tenant condition of its own: here tenant
  \<open>t1\<close> published a module that blocks, tenant \<open>t2\<close> a higher version that allows, and the decision for
  \<open>t1\<close> is \<^verbatim>\<open>ALLOW\<close> under version 2.\<close>

theorem Evaluate_owner_crosses_tenants:
  "tenant_published (policy_db\<lparr>rls_applies := False\<rparr>) ''t1'' ''shop.cancel'' = {demo_policy ''t1'' 1 ''deny''}
   \<and> dec_Status (Evaluate demo_rego 0 (Some policy_db) ''t1'' ''shop.cancel'' None None) = Blocked
   \<and> dec_Status (Evaluate demo_rego 0 (Some (policy_db\<lparr>rls_applies := False\<rparr>)) ''t1'' ''shop.cancel'' None None) = Allow"
  using tenant_published_demo
  by (simp add: Evaluate_def lookup_demo demo_rego_def rego_value_def mget_def as_str_def parse_status_def
      tenant_published_def)

subsection \<open>Time to live\<close>

lemma f64_of_int_to_int64:
  assumes "0 < n" "n < 2 ^ 53"
  shows "f64_to_int64 (f64_of_int n) = n" "f64_pos (f64_of_int n)"
proof -
  define k where "k = nat n"
  have k: "0 < k" "k < 2 ^ 53" "n = int k" using assms by (auto simp: k_def nat_less_iff)
  have L: "bitlen k \<le> 53" using bitlen_le k by blast
  have f: "f64_of_int n = FFin False (k * 2 ^ (53 - bitlen k)) (int (bitlen k) - 53)"
    using f64_round_exact [OF k(1,2), of False] k(3) by (simp add: f64_of_int_def)
  have "nat (53 - int (bitlen k)) = 53 - bitlen k" by simp
  then show "f64_to_int64 (f64_of_int n) = n"
    unfolding f using k L by (simp add: f64_num_def f64_den_def signed_def clip_int64_def in_int64_def)
  show "f64_pos (f64_of_int n)" unfolding f using k by simp
qed

lemma ttl_wrap_exact: "0 < n \<Longrightarrow> n \<le> 9223372036 \<Longrightarrow> wrap64 (n * second_ns) = n * second_ns"
  by (rule wrap64_id) (simp add: in_int64_def second_ns_def)

lemma ttl_wrap_negative:
  assumes "9223372037 \<le> n" "n \<le> 18446744073"
  shows "wrap64 (n * second_ns) = n * second_ns - 2 ^ 64" "n * second_ns - 2 ^ 64 < 0"
proof -
  have "(n * second_ns + 2 ^ 63) mod 2 ^ 64 = (n * second_ns + 2 ^ 63 - 2 ^ 64) mod 2 ^ 64"
    by (metis diff_self diff_zero minus_mod_self2)
  also have "\<dots> = n * second_ns + 2 ^ 63 - 2 ^ 64"
    using assms by (intro mod_pos_pos_trivial) (auto simp: second_ns_def)
  finally show "wrap64 (n * second_ns) = n * second_ns - 2 ^ 64" by (simp add: wrap64_def)
qed (use assms in \<open>simp add: second_ns_def\<close>)



text \<open>The engine's numbers are not floats.  A \<^verbatim>\<open>ttl_seconds\<close> that arrives as a \<^verbatim>\<open>json.Number\<close>, which is how
  the policy engine represents numbers in its results, is ignored: the decision always expires after
  15 minutes.\<close>

theorem Evaluate_ttl_number_ignored:
  assumes "fst (lookup_policy pool tid key) \<noteq> []"
    and "rego_value (rego (fst (lookup_policy pool tid key)) (policy_input inputs facts)) = Some (VMap m)"
    and "mget m ''ttl_seconds'' = VNumber t"
  shows "dec_ExpiresAt (Evaluate rego now pool tid key inputs facts) = Some (now + 900000000000)"
  using assms by (auto simp: Evaluate_def Let_def as_float_def minute_ns_def second_ns_def split: prod.splits)

theorem Evaluate_ttl_number_ignored_witness:
  "dec_ExpiresAt (Evaluate (\<lambda>m i. Inr [[VMap [(''status'', VStr ''ALLOW''), (''ttl_seconds'', VNumber ''60'')]]])
      0 (Some policy_db) ''t2'' ''shop.cancel'' None None) = Some 900000000000"
  using Evaluate_ttl_number_ignored [where pool = "Some policy_db" and tid = "''t2''" and key = "''shop.cancel''"
      and now = 0 and inputs = None and facts = None and t = "''60''"
      and rego = "\<lambda>m i. Inr [[VMap [(''status'', VStr ''ALLOW''), (''ttl_seconds'', VNumber ''60'')]]]"
      and m = "[(''status'', VStr ''ALLOW''), (''ttl_seconds'', VNumber ''60'')]"]
  by (simp add: lookup_demo rego_value_def mget_def)

section \<open>Properties of validation\<close>

text \<open>Resolving facts looks at the resolver and mapping tables only.\<close>

lemma ResolveFacts_cong:
  assumes "faults d' = faults d" "rls_applies d' = rls_applies d" "cte_runs d' = cte_runs d"
    and "resolvers d' = resolvers d" "mappings d' = mappings d"
  shows "ResolveFacts rt search clk (Some d') tid key inputs = ResolveFacts rt search clk (Some d) tid key inputs"
proof -
  have "loadResolvers d' ctx key = loadResolvers d ctx key" "loadMappings d' ctx key = loadMappings d ctx key" for ctx
    using assms(4,5) by (simp_all add: loadResolvers_def loadMappings_def run_rows_cong [OF assms(1-3)])
  then show ?thesis using assms(1) by (simp add: ResolveFacts_def cong: sum.case_cong)
qed

lemma facts_ignore_decisions [simp]:
  "ResolveFacts rt search clk (Some (add_decision d r)) tid key inputs
     = ResolveFacts rt search clk (Some d) tid key inputs"
  by (rule ResolveFacts_cong) (simp_all add: add_decision_def)

lemma add_decision_simps [simp]:
  "faults (add_decision d r) = faults d" "rls_applies (add_decision d r) = rls_applies d"
  "cte_runs (add_decision d r) = cte_runs d" "tenant_visible (add_decision d r) = tenant_visible d"
  "decisions (add_decision d r) = decisions d @ [r]"
  by (simp_all add: add_decision_def tenant_visible_def)

lemma PersistDecision_ok:
  "PersistDecision rt fresh (Some d) tid dec = (i, None, p) \<longleftrightarrow>
     insert_decision_ok rt d tid dec \<and> i = fresh \<and> p = Some (add_decision d (decision_row_of rt fresh tid dec))"
  by (auto simp: PersistDecision_def add_decision_def)

lemma insert_ok_visible: "insert_decision_ok rt d tid dec \<Longrightarrow> tenant_visible d"
  by (simp add: insert_decision_ok_def store_simps)

lemma check_binding_iff:
  "fst (check_binding env rt now r key inputs fa) \<longleftrightarrow>
     (\<exists>h. dc_hash r = Some h \<and> dc_action r = key \<and> allowed_status (dc_status r)
        \<and> \<not> expired now (dc_expires r) \<and> (h = [] \<or> h = binding_hash rt inputs fa (dc_version r)))"
  by (auto simp: check_binding_def split: option.splits)

text \<open>The conditions under which a stored decision authorises an execution.\<close>

definition authorises ::
  "runtime \<Rightarrow> int \<Rightarrow> decision_row \<Rightarrow> string \<Rightarrow> gomap \<Rightarrow> gomap \<Rightarrow> bool" where
  "authorises rt now r key inputs fa \<longleftrightarrow>
     dc_action r = key \<and> allowed_status (dc_status r) \<and> \<not> expired now (dc_expires r)
     \<and> (dc_hash r = Some [] \<or> dc_hash r = Some (binding_hash rt inputs fa (dc_version r)))"

lemma check_binding_authorises: "fst (check_binding env rt now r key inputs fa) = authorises rt now r key inputs fa"
  by (auto simp: check_binding_iff authorises_def)

lemma ValidateAndBind_row:
  "fst (ValidateAndBindDecision env rt search clk now (Some d) tid i key inputs) \<longleftrightarrow>
     (\<exists>r. select_decision d SelectDecisionBind tid i = Some r
        \<and> authorises rt now r key inputs (fst (ResolveFacts rt search clk (Some d) tid key inputs)))"
  by (auto simp: ValidateAndBindDecision_def check_binding_authorises split: option.splits)

text \<open>What execution is authorised by.  With a database, \<^verbatim>\<open>ValidateAndBindDecision\<close> accepts an id only if a
  stored decision has it (one of the tenant's own where row level security applies) that was made for
  this action, is of an allowing status, has not expired, and whose stored hash is empty or equals
  the hash of the inputs sent now, the facts resolved now and the stored policy version.\<close>

theorem ValidateAndBind_sound:
  assumes "fst (ValidateAndBindDecision env rt search clk now (Some d) tid i key inputs)"
  shows "\<exists>r \<in> set (decisions d). dc_id r = i \<and> (rls_applies d \<longrightarrow> dc_tenant r = tid)
     \<and> authorises rt now r key inputs (fst (ResolveFacts rt search clk (Some d) tid key inputs))"
  using assms select_decision_row unfolding ValidateAndBind_row by blast

text \<open>C2: Binding.  Let a decision be stored under a fresh id.  Validation of that id for an action, inputs
  and a time then succeeds if and only if the action is the decision's, its status allows execution,
  it has not expired (at the microsecond precision of the column), and the inputs and the facts
  resolved now have the same JSON text as those of the decision.  The digest is assumed not to collide
  on the two texts in question.\<close>

theorem persisted_decision_binds:
  assumes "PersistDecision rt fresh (Some d) tid dec = (i, None, Some d')"
    and "fresh \<notin> decision_ids d" "\<not> faults d SelectDecisionBind"
    and "no_collision rt
       (binding_text rt (dec_Inputs dec) (dec_Facts dec) (dec_PolicyVersion dec))
       (binding_text rt inputs (fst (ResolveFacts rt search clk (Some d) tid key inputs)) (dec_PolicyVersion dec))"
    and "sha256 rt (binding_text rt (dec_Inputs dec) (dec_Facts dec) (dec_PolicyVersion dec)) \<noteq> []"
  shows "fst (ValidateAndBindDecision env rt search clk now (Some d') tid i key inputs) \<longleftrightarrow>
     key = dec_ActionKey dec \<and> executable_status (dec_Status dec)
     \<and> (\<forall>e. dec_ExpiresAt dec = Some e \<longrightarrow> now \<le> micros e)
     \<and> mustJSON rt inputs = mustJSON rt (dec_Inputs dec)
     \<and> mustJSON rt (fst (ResolveFacts rt search clk (Some d) tid key inputs)) = mustJSON rt (dec_Facts dec)"
proof -
  let ?r = "decision_row_of rt fresh tid dec"
  let ?h = "binding_hash rt (dec_Inputs dec) (dec_Facts dec) (dec_PolicyVersion dec)"
  from assms(1) have ok: "insert_decision_ok rt d tid dec" and i: "i = dc_id ?r" and d': "d' = add_decision d ?r"
    by (auto simp: PersistDecision_ok decision_row_of_def)
  have sel: "select_decision d' SelectDecisionBind tid i = Some ?r"
    unfolding d' i using insert_ok_visible [OF ok] assms(2,3)
    by (intro select_added_decision) (auto simp: decision_row_of_def)
  have "?h \<noteq> []" using assms(5) by (auto simp: binding_hash_def hex_encode_def hex_byte_def neq_Nil_conv)
  moreover have "?h = binding_hash rt inputs (fst (ResolveFacts rt search clk (Some d) tid key inputs)) (dec_PolicyVersion dec)
     \<longleftrightarrow> mustJSON rt (dec_Inputs dec) = mustJSON rt inputs
         \<and> mustJSON rt (dec_Facts dec) = mustJSON rt (fst (ResolveFacts rt search clk (Some d) tid key inputs))"
    using binding_hash_inject [OF assms(4)] by simp
  ultimately show ?thesis
    unfolding ValidateAndBind_row sel
    by (auto simp: d' authorises_def decision_row_of_def expired_def split: option.splits)
qed

text \<open>A stored decision for the demonstration tenant, and its validation a minute later.\<close>

definition demo_dec :: Decision where
  "demo_dec = Evaluate demo_rego 0 (Some policy_db) ''t2'' ''shop.cancel'' (Some [(''id'', VStr ''7'')]) (Some [])"

definition decided_db :: db where
  "decided_db = add_decision policy_db (decision_row_of demo_rt ''d1'' ''t2'' demo_dec)"

lemma demo_dec_fields:
  "dec_ActionKey demo_dec = ''shop.cancel''" "dec_Inputs demo_dec = Some [(''id'', VStr ''7'')]"
  "dec_Facts demo_dec = Some []" "dec_PolicyVersion demo_dec = 2" "dec_Status demo_dec = Allow"
  "dec_ExpiresAt demo_dec = Some 60000000000"
proof -
  have "ttl_duration (f64_of_int 60) = 60000000000"
    using f64_of_int_to_int64 [of 60] ttl_wrap_exact [of 60] by (simp add: ttl_duration_def second_ns_def)
  then show "dec_ActionKey demo_dec = ''shop.cancel''" "dec_Inputs demo_dec = Some [(''id'', VStr ''7'')]"
    "dec_Facts demo_dec = Some []" "dec_PolicyVersion demo_dec = 2" "dec_Status demo_dec = Allow"
    "dec_ExpiresAt demo_dec = Some 60000000000"
    using f64_of_int_to_int64 [of 60]
    by (simp_all add: demo_dec_def Evaluate_fields lookup_demo Evaluate_def demo_rego_def rego_value_def
        mget_def as_str_def as_float_def parse_status_def)
qed

lemma policy_db_facts: "ResolveFacts demo_rt demo_search clk (Some policy_db) ''t2'' ''shop.cancel'' inputs = (Some [], None)"
  by (simp add: ResolveFacts_def loadResolvers_def loadMappings_def policy_demo_defs)

lemma demo_persist: "PersistDecision demo_rt ''d1'' (Some policy_db) ''t2'' demo_dec = (''d1'', None, Some decided_db)"
  by (simp add: PersistDecision_ok decided_db_def insert_decision_ok_def store_simps mustJSON_def
      demo_dec_fields any_of_map_def json_text_def json_members_def tenant_visible_def policy_db_def demo_db_def
      empty_db_def)

lemma demo_no_collision: "no_collision demo_rt s t"
  by (simp add: no_collision_def demo_rt_def)

theorem persisted_decision_binds_witness:
  "fst (ValidateAndBindDecision (\<lambda>_. []) demo_rt demo_search (\<lambda>_. (0, 0)) 60000000000 (Some decided_db) ''t2'' ''d1''
      ''shop.cancel'' (Some [(''id'', VStr ''7'')]))
   \<and> \<not> fst (ValidateAndBindDecision (\<lambda>_. []) demo_rt demo_search (\<lambda>_. (0, 0)) 60000000001 (Some decided_db) ''t2'' ''d1''
      ''shop.cancel'' (Some [(''id'', VStr ''7'')]))"
proof -
  have "binding_text demo_rt i f v \<noteq> []" for i f v by (simp add: binding_text_def)
  then have sha: "sha256 demo_rt (binding_text demo_rt i f v) \<noteq> []" for i f v by (simp add: demo_rt_def)
  show ?thesis
    using persisted_decision_binds [OF demo_persist _ _ demo_no_collision sha,
        where search = demo_search and clk = "\<lambda>_. (0, 0)" and key = "''shop.cancel''"
          and inputs = "Some [(''id'', VStr ''7'')]" and env = "\<lambda>_. []"]
    by (simp add: policy_db_facts demo_dec_fields executable_status_def micros_def)
       (simp add: policy_demo_defs decision_ids_def)
qed

theorem ValidateAndBind_sound_witness:
  "\<exists>r \<in> set (decisions decided_db). dc_id r = ''d1'' \<and> dc_tenant r = ''t2''
     \<and> authorises demo_rt 60000000000 r ''shop.cancel'' (Some [(''id'', VStr ''7'')]) (Some [])"
proof -
  have row: "select_decision decided_db SelectDecisionBind ''t2'' ''d1'' = Some (decision_row_of demo_rt ''d1'' ''t2'' demo_dec)"
    using select_added_decision [of policy_db SelectDecisionBind "decision_row_of demo_rt ''d1'' ''t2'' demo_dec" "''t2''"]
    by (simp add: decided_db_def decision_row_of_def policy_demo_defs tenant_visible_def decision_ids_def)
  have facts: "ResolveFacts demo_rt demo_search clk (Some decided_db) ''t2'' ''shop.cancel'' inputs = (Some [], None)" for clk inputs
    by (simp add: decided_db_def policy_db_facts)
  have acc: "fst (ValidateAndBindDecision (\<lambda>_. []) demo_rt demo_search (\<lambda>_. (0, 0)) 60000000000 (Some decided_db) ''t2'' ''d1''
      ''shop.cancel'' (Some [(''id'', VStr ''7'')]))"
    unfolding ValidateAndBind_row
    by (simp add: row facts authorises_def decision_row_of_def demo_dec_fields allowed_status_def
        expired_def micros_def)
  show ?thesis
    using ValidateAndBind_sound [OF acc] by (simp add: facts) (simp add: decided_db_def policy_demo_defs)
qed

end
