(* ===== verification/Slugs.thy ===== *)
theory Slugs
  imports Go_Strings
begin

text \<open>
  How action keys are built and read.  A key is \<^verbatim>\<open><namespace>.<short>\<close>; the manifest service builds
  it (\<open>kind_slug\<close>, \<open>derive_name\<close>, \<open>action_key_of\<close>), the orchestrator takes it apart
  (\<open>split_key\<close>) and recomputes both halves for each stored operation (\<open>slug\<close>, \<open>derive_short\<close>),
  and the admin API seeds the actions table with \<open>slugify\<close>.  Each regular expression of the source
  is the scanner it denotes.
\<close>

section \<open>The normalising passes\<close>

text \<open>Replacement of \<^verbatim>\<open>([a-z0-9])([A-Z])\<close> by \<^verbatim>\<open>$1-$2\<close>.\<close>

fun cap_split :: "string \<Rightarrow> string" where
  "cap_split [] = []"
| "cap_split [a] = [a]"
| "cap_split (a # b # r) =
     (if (is_lower a \<or> is_digit a) \<and> is_upper b then a # CHR ''-'' # b # cap_split r
      else a # cap_split (b # r))"

text \<open>Replacement of every maximal run of characters in a class by one hyphen.\<close>

function squeeze :: "(char \<Rightarrow> bool) \<Rightarrow> string \<Rightarrow> string" where
  "squeeze P [] = []"
| "squeeze P (c # cs) =
     (if P c then CHR ''-'' # squeeze P (dropWhile P cs) else c # squeeze P cs)"
  by pat_completeness auto
termination
  by (relation "measure (\<lambda>(P, s). length s)") (auto simp: le_imp_less_Suc length_dropWhile_le)

definition non_alnum :: "char \<Rightarrow> bool" where
  "non_alnum c \<longleftrightarrow> \<not> is_alnum c"

definition is_dash :: "char \<Rightarrow> bool" where
  "is_dash c \<longleftrightarrow> c = CHR ''-''"

definition slug_core :: "string \<Rightarrow> string" where
  "slug_core s =
     squeeze is_dash (to_lower (str_trim ''-'' (squeeze non_alnum (cap_split s))))"

definition slug :: "string \<Rightarrow> string" where
  "slug s = (let s = trim_space s in if s = [] then s else slug_core s)"

definition kind_slug :: "string \<Rightarrow> string" where
  "kind_slug kind = slug_core kind"

definition slugify :: "string \<Rightarrow> string" where
  "slugify s =
     (let s = to_lower (trim_space s) in
      if s = [] then s
      else let s = str_trim ''-'' (squeeze (\<lambda>c. \<not> is_lower c \<and> \<not> is_digit c) s)
           in if s = [] then ''action'' else s)"

section \<open>Short names from paths\<close>

definition name_norm :: "string \<Rightarrow> string" where
  "name_norm s = str_trim ''-'' (to_lower (squeeze non_alnum s))"

text \<open>The loop over the segments, last one first.\<close>

fun pick_segment :: "(string \<Rightarrow> string) \<Rightarrow> string list \<Rightarrow> string" where
  "pick_segment norm [] = ''action''"
| "pick_segment norm (s # segs) =
     (if str_contains s ''{'' \<or> str_contains s ''}'' \<or> s = ''v1'' then pick_segment norm segs
      else if norm s \<noteq> [] then norm s else pick_segment norm segs)"

definition derive_from :: "(string \<Rightarrow> string) \<Rightarrow> string \<Rightarrow> string" where
  "derive_from norm p =
     (let p = str_trim ''/'' (hd (str_split ''?'' p))
      in if p = [] then ''root'' else pick_segment norm (rev (str_split ''/'' p)))"

definition derive_short :: "string \<Rightarrow> string" where
  "derive_short p = derive_from slug p"

definition derive_name :: "string \<Rightarrow> string" where
  "derive_name p = derive_from name_norm p"

section \<open>Action keys\<close>

definition action_key_of :: "string \<Rightarrow> string \<Rightarrow> string" where
  "action_key_of ns short = ns @ ''.'' @ short"

definition split_key :: "string \<Rightarrow> string \<times> string" where
  "split_key key = (case str_cut ''.'' key of None \<Rightarrow> (key, []) | Some (a, b) \<Rightarrow> (a, b))"

section \<open>The form of a slug\<close>

fun no_dd :: "string \<Rightarrow> bool" where
  "no_dd (a # b # r) \<longleftrightarrow> \<not> (a = CHR ''-'' \<and> b = CHR ''-'') \<and> no_dd (b # r)"
| "no_dd _ \<longleftrightarrow> True"

definition slug_char :: "char \<Rightarrow> bool" where
  "slug_char c \<longleftrightarrow> is_lower c \<or> is_digit c \<or> c = CHR ''-''"

definition slug_form :: "string \<Rightarrow> bool" where
  "slug_form s \<longleftrightarrow> list_all slug_char s \<and> no_dd s
     \<and> (s \<noteq> [] \<longrightarrow> hd s \<noteq> CHR ''-'' \<and> last s \<noteq> CHR ''-'')"

lemma dash_not_alnum: "non_alnum CHR ''-''"
  by (simp add: non_alnum_def is_alnum_def is_lower_def is_upper_def is_digit_def char_le_nat)

lemma no_dd_Cons: "no_dd (a # s) \<longleftrightarrow> no_dd s \<and> (a = CHR ''-'' \<longrightarrow> s = [] \<or> hd s \<noteq> CHR ''-'')"
  by (cases s) auto

lemma no_dd_append: "no_dd (s @ t) \<Longrightarrow> no_dd s \<and> no_dd t"
  by (induction s) (auto simp: no_dd_Cons)

lemma hd_squeeze_dropWhile:
  assumes "P CHR ''-''"
  shows "squeeze P (dropWhile P s) = [] \<or> hd (squeeze P (dropWhile P s)) \<noteq> CHR ''-''"
proof (cases "dropWhile P s")
  case (Cons c cs)
  then have "\<not> P c" by (rule dropWhile_not_hd)
  with Cons assms show ?thesis by auto
next
  case Nil
  then show ?thesis by (simp only: squeeze.simps) simp
qed

lemma no_dd_squeeze: "P CHR ''-'' \<Longrightarrow> no_dd (squeeze P s)"
  using hd_squeeze_dropWhile by (induction P s rule: squeeze.induct) (auto simp: no_dd_Cons)

lemma set_squeeze: "c \<in> set (squeeze P s) \<Longrightarrow> c = CHR ''-'' \<or> (c \<in> set s \<and> \<not> P c)"
  by (induction P s rule: squeeze.induct) (auto split: if_splits dest: set_dropWhileD)

lemma squeeze_id:
  "no_dd s \<Longrightarrow> (\<And>c. c \<in> set s \<Longrightarrow> P c \<longleftrightarrow> c = CHR ''-'') \<Longrightarrow> squeeze P s = s"
proof (induction s)
  case (Cons a s)
  then have IH: "squeeze P s = s" by (auto simp: no_dd_Cons)
  have "P a \<Longrightarrow> dropWhile P s = s"
    using Cons.prems by (cases s) (auto simp: no_dd_Cons)
  then show ?case using Cons.prems(2) [of a] IH by auto
qed simp

lemma no_dd_str_trim: "no_dd s \<Longrightarrow> no_dd (str_trim cs s)"
proof -
  assume "no_dd s"
  have "\<exists>t. s = t @ trim_left cs s"
    unfolding trim_left_def by (metis takeWhile_dropWhile_id)
  with \<open>no_dd s\<close> have l: "no_dd (trim_left cs s)" using no_dd_append by metis
  obtain t where "trim_left cs s = str_trim cs s @ t"
    using trim_right_prefix [of "trim_left cs s" cs] by (auto simp: str_trim_def)
  with l show ?thesis using no_dd_append by metis
qed

lemma lower_char_dash [simp]: "lower_char c = CHR ''-'' \<longleftrightarrow> c = CHR ''-''"
  by (simp only: char_eq_nat of_char_lower_char) (auto simp: is_upper_def char_le_nat)

lemma no_dd_to_lower [simp]: "no_dd (to_lower s) = no_dd s"
  by (induction s rule: no_dd.induct) (auto simp: to_lower_def)

lemma str_trim_ends:
  assumes "str_trim cs s \<noteq> []"
  shows "hd (str_trim cs s) \<notin> set cs" "last (str_trim cs s) \<notin> set cs"
  using assms str_trim_hd str_trim_last by (metis list.exhaust_sel) (metis append_butlast_last_id assms str_trim_last)

text \<open>Everything the normalisation returns has the form of a slug.\<close>

lemma slug_core_form: "slug_form (slug_core s)"
proof -
  define t where "t = to_lower (str_trim ''-'' (squeeze non_alnum (cap_split s)))"
  have nd: "no_dd t"
    unfolding t_def using no_dd_squeeze [of non_alnum] dash_not_alnum by (simp add: no_dd_str_trim)
  have id: "slug_core s = t"
    unfolding slug_core_def t_def [symmetric]
    by (rule squeeze_id [OF nd]) (simp add: is_dash_def)
  have "slug_char c" if "c \<in> set t" for c
  proof -
    from that obtain d where d: "d \<in> set (squeeze non_alnum (cap_split s))" "c = lower_char d"
      using set_str_trim by (auto simp: t_def to_lower_def)
    then have "d = CHR ''-'' \<or> is_alnum d"
      using set_squeeze [of d non_alnum "cap_split s"] by (auto simp: non_alnum_def)
    then show ?thesis using d(2) lower_char_alnum by (auto simp: slug_char_def)
  qed
  moreover have "t \<noteq> [] \<longrightarrow> hd t \<noteq> CHR ''-'' \<and> last t \<noteq> CHR ''-''"
    using str_trim_ends [of "''-''" "squeeze non_alnum (cap_split s)"]
    by (auto simp: t_def to_lower_def hd_map last_map)
  ultimately show ?thesis
    using nd id by (simp add: slug_form_def list_all_iff)
qed

lemma slug_form_slug: "slug_form (slug s)"
  by (auto simp: slug_def Let_def slug_core_form slug_form_def [of "[]"])

lemma slug_char_not_upper: "slug_char c \<Longrightarrow> \<not> is_upper c"
  by (auto simp: slug_char_def dest: lower_not_upper digit_not_upper)
     (simp add: is_upper_def char_le_nat)

lemma slug_char_non_alnum: "slug_char c \<Longrightarrow> non_alnum c \<longleftrightarrow> c = CHR ''-''"
  using dash_not_alnum by (auto simp: slug_char_def non_alnum_def is_alnum_def)

lemma cap_split_id: "(\<And>c. c \<in> set s \<Longrightarrow> \<not> is_upper c) \<Longrightarrow> cap_split s = s"
  by (induction s rule: cap_split.induct) auto

lemma slug_core_id: "slug_form s \<Longrightarrow> slug_core s = s"
proof -
  assume f: "slug_form s"
  then have ch: "slug_char c" if "c \<in> set s" for c using that by (simp add: slug_form_def list_all_iff)
  have 1: "cap_split s = s" using ch slug_char_not_upper by (intro cap_split_id) auto
  have 2: "squeeze non_alnum s = s"
    using f ch slug_char_non_alnum by (intro squeeze_id) (auto simp: slug_form_def)
  have 3: "str_trim ''-'' s = s" using f by (intro str_trim_id) (auto simp: slug_form_def)
  have 4: "to_lower s = s" using ch slug_char_not_upper by (intro to_lower_id) auto
  have 5: "squeeze is_dash s = s" using f by (intro squeeze_id) (auto simp: slug_form_def is_dash_def)
  show ?thesis by (simp add: slug_core_def 1 2 3 4 5)
qed

text \<open>No white-space sequence begins or ends with a character of a slug.\<close>

lemma space_seqs_ends: "q \<in> set space_seqs \<Longrightarrow> q \<noteq> [] \<and> \<not> is_alnum (hd q) \<and> hd q \<noteq> CHR ''-''
    \<and> \<not> is_alnum (last q) \<and> last q \<noteq> CHR ''-''"
  by (auto simp: space_seqs_def is_alnum_def is_lower_def is_upper_def is_digit_def char_le_nat)

lemma strip_one_none:
  assumes "s = [] \<or> (\<forall>q \<in> set qs. q \<noteq> [] \<longrightarrow> hd q \<noteq> hd s)"
  shows "strip_one qs s = None"
proof -
  have "\<not> has_prefix q s" if "q \<in> set qs" "q \<noteq> []" for q
  proof
    assume p: "has_prefix q s"
    then have "s \<noteq> []" using that by (auto simp: has_prefix_def)
    moreover have "hd s = hd q" using p that \<open>s \<noteq> []\<close> by (metis has_prefix_def hd_take length_greater_0_conv)
    ultimately show False using assms that by auto
  qed
  then show ?thesis by (auto simp: strip_one_def find_None_iff)
qed

lemma trim_space_id:
  assumes "s \<noteq> [] \<Longrightarrow> (is_alnum (hd s) \<or> hd s = CHR ''-'') \<and> (is_alnum (last s) \<or> last s = CHR ''-'')"
  shows "trim_space s = s"
proof -
  have "strip_one space_seqs s = None"
    using assms space_seqs_ends by (intro strip_one_none) metis
  moreover have "strip_one (map rev space_seqs) (rev s) = None"
    using assms space_seqs_ends by (intro strip_one_none) (fastforce simp: hd_rev)
  ultimately show ?thesis by (simp add: trim_space_def strip_seqs_id)
qed

lemma slug_char_alnum: "slug_char c \<Longrightarrow> c \<noteq> CHR ''-'' \<Longrightarrow> is_alnum c"
  by (auto simp: slug_char_def is_alnum_def)

lemma slug_id: "slug_form s \<Longrightarrow> slug s = s"
proof -
  assume f: "slug_form s"
  have "trim_space s = s"
    using f slug_char_alnum by (intro trim_space_id) (auto simp: slug_form_def list_all_iff)
  then show ?thesis using slug_core_id [OF f] by (simp add: slug_def)
qed

lemma slug_idem: "slug (slug s) = slug s"
  by (rule slug_id [OF slug_form_slug])

lemma slug_no_dot: "CHR ''.'' \<notin> set (slug_core s)"
  using slug_core_form [of s]
  by (auto simp: slug_form_def list_all_iff slug_char_def is_lower_def is_digit_def char_le_nat)

section \<open>Leading and trailing white space is immaterial\<close>

lemma space_seqs_non_alnum: "q \<in> set space_seqs \<Longrightarrow> c \<in> set q \<Longrightarrow> non_alnum c"
  by (auto simp: space_seqs_def non_alnum_def is_alnum_def is_lower_def is_upper_def is_digit_def
      char_le_nat)

lemma space_seqs_rev_non_alnum: "q \<in> set (map rev space_seqs) \<Longrightarrow> c \<in> set q \<Longrightarrow> non_alnum c"
  using space_seqs_non_alnum by auto

lemma strip_seqs_decomp:
  assumes "\<And>q c. q \<in> set qs \<Longrightarrow> c \<in> set q \<Longrightarrow> P c"
  shows "\<exists>t. s = t @ strip_seqs qs s \<and> list_all P t"
  using assms
proof (induction qs s rule: strip_seqs.induct)
  case (1 qs s)
  show ?case
  proof (cases "strip_one qs s")
    case None
    then show ?thesis by (simp add: strip_seqs_id)
  next
    case (Some q)
    then have q: "q \<in> set qs" "take (length q) s = q"
      by (auto simp: strip_one_def has_prefix_def dest: find_set)
    from 1 Some obtain t where t: "drop (length q) s = t @ strip_seqs qs (drop (length q) s)"
      "list_all P t" by blast
    have "s = (q @ t) @ strip_seqs qs (drop (length q) s)"
      using q(2) t(1) by (metis append.assoc append_take_drop_id)
    moreover have "list_all P (q @ t)" using q(1) t(2) "1.prems" by (auto simp: list_all_iff)
    moreover have "strip_seqs qs s = strip_seqs qs (drop (length q) s)"
      using Some by (subst strip_seqs.simps) simp
    ultimately show ?thesis by metis
  qed
qed

lemma trim_space_decomp: "\<exists>t t'. s = t @ trim_space s @ t' \<and> list_all non_alnum t \<and> list_all non_alnum t'"
proof -
  obtain t where t: "s = t @ strip_seqs space_seqs s" "list_all non_alnum t"
    using strip_seqs_decomp [of space_seqs non_alnum s] space_seqs_non_alnum by metis
  obtain u where u: "rev (strip_seqs space_seqs s) = u @ strip_seqs (map rev space_seqs) (rev (strip_seqs space_seqs s))"
      "list_all non_alnum u"
    using strip_seqs_decomp [of "map rev space_seqs" non_alnum "rev (strip_seqs space_seqs s)"]
      space_seqs_rev_non_alnum by metis
  have "strip_seqs space_seqs s = trim_space s @ rev u"
    using u(1) unfolding trim_space_def by (metis rev_append rev_rev_ident)
  then show ?thesis using t u(2) by (metis list_all_rev)
qed

lemma cap_split_pre: "non_alnum a \<Longrightarrow> cap_split (a # s) = a # cap_split s"
  by (cases s) (auto simp: non_alnum_def is_alnum_def)

lemma cap_split_prefix: "list_all non_alnum t \<Longrightarrow> cap_split (t @ s) = t @ cap_split s"
  by (induction t) (auto simp: cap_split_pre)

lemma non_alnum_not_upper: "non_alnum c \<Longrightarrow> \<not> is_upper c"
  by (simp add: non_alnum_def is_alnum_def)

lemma cap_split_suffix: "list_all non_alnum t \<Longrightarrow> cap_split (s @ t) = cap_split s @ t"
proof (induction s rule: cap_split.induct)
  case 1
  then show ?case using cap_split_prefix [of t "[]"] by simp
next
  case (2 a)
  then show ?case
    using cap_split_prefix [of t "[]"] by (cases t) (auto dest: non_alnum_not_upper)
qed auto

lemma trim_left_squeeze: "P CHR ''-'' \<Longrightarrow> trim_left ''-'' (squeeze P (dropWhile P s)) = trim_left ''-'' (squeeze P s)"
  by (cases s) (auto simp: trim_left_def)

lemma trim_left_squeeze_prefix:
  assumes "P CHR ''-''" "list_all P t"
  shows "trim_left ''-'' (squeeze P (t @ s)) = trim_left ''-'' (squeeze P s)"
proof -
  have "dropWhile P (t @ s) = dropWhile P s" using assms(2) by (simp add: dropWhile_append2 list_all_iff)
  then show ?thesis using trim_left_squeeze [of P, OF assms(1)] by metis
qed

lemma squeeze_suffix:
  "list_all P t \<Longrightarrow> squeeze P (s @ t) = squeeze P s \<or> squeeze P (s @ t) = squeeze P s @ ''-''"
proof (induction P s rule: squeeze.induct)
  case (1 P)
  then show ?case by (cases t) (auto simp: list_all_iff dropWhile_eq_Nil_conv [THEN iffD2])
next
  case (2 P c cs)
  have d: "dropWhile P (cs @ t) = (if list_all P cs then [] else dropWhile P cs @ t)"
    using "2.prems" by (induction cs) (auto simp: list_all_iff)
  show ?case
    using 2 d by (cases "list_all P cs") (auto simp: list_all_iff dropWhile_eq_Nil_conv [THEN iffD2])
qed

lemma str_trim_dash_suffix: "str_trim ''-'' (s @ ''-'') = str_trim ''-'' s"
proof (cases "\<forall>c \<in> set s. c = CHR ''-''")
  case True
  then have "trim_left ''-'' s = []" "trim_left ''-'' (s @ ''-'') = []"
    by (simp_all add: trim_left_def)
  then show ?thesis by (simp only: str_trim_def)
next
  case False
  then have "trim_left ''-'' (s @ ''-'') = trim_left ''-'' s @ ''-''"
    by (auto simp: trim_left_def dropWhile_append)
  then show ?thesis by (simp only: str_trim_def) (simp add: trim_right_def)
qed

lemma str_trim_squeeze_wrap:
  assumes "P CHR ''-''" "list_all P t" "list_all P t'"
  shows "str_trim ''-'' (squeeze P (t @ s @ t')) = str_trim ''-'' (squeeze P s)"
proof -
  have "str_trim ''-'' (squeeze P (t @ s @ t')) = str_trim ''-'' (squeeze P (s @ t'))"
    using trim_left_squeeze_prefix [of P, OF assms(1,2)] by (simp add: str_trim_def)
  also have "\<dots> = str_trim ''-'' (squeeze P s)"
    using squeeze_suffix [of P, OF assms(3), of s] str_trim_dash_suffix by auto
  finally show ?thesis .
qed

lemma slug_core_wrap:
  "list_all non_alnum t \<Longrightarrow> list_all non_alnum t' \<Longrightarrow> slug_core (t @ s @ t') = slug_core s"
  using str_trim_squeeze_wrap [of non_alnum t t' "cap_split s"] dash_not_alnum
  by (simp add: slug_core_def cap_split_prefix cap_split_suffix)

lemma slug_core_trim_space: "slug_core (trim_space s) = slug_core s"
  using trim_space_decomp [of s] slug_core_wrap by metis

lemma slug_core_Nil [simp]: "slug_core [] = []"
  by (simp add: slug_core_def str_trim_def trim_left_def trim_right_def to_lower_def)

text \<open>The two namespace normalisations agree, although only one of them trims white space first.\<close>

lemma kind_slug_eq_slug: "kind_slug s = slug s"
  using slug_core_trim_space [of s] by (auto simp: kind_slug_def slug_def Let_def)

section \<open>Keys and short names\<close>

lemma split_action_key: "CHR ''.'' \<notin> set ns \<Longrightarrow> split_key (action_key_of ns short) = (ns, short)"
  by (simp add: split_key_def action_key_of_def str_cut_single takeWhile_append dropWhile_append
      takeWhile_eq_all_conv [THEN iffD2] dropWhile_eq_Nil_conv [THEN iffD2])

lemma split_key_kind: "split_key (action_key_of (kind_slug k) short) = (kind_slug k, short)"
  by (rule split_action_key) (simp add: kind_slug_def slug_no_dot)

lemma pick_segment_nonempty [simp]: "pick_segment norm segs \<noteq> []"
  by (induction segs) auto

lemma derive_from_nonempty [simp]: "derive_from norm p \<noteq> []"
  by (simp add: derive_from_def Let_def)

definition no_camel :: "string \<Rightarrow> bool" where
  "no_camel s \<longleftrightarrow> cap_split s = s"

lemma to_lower_trim: "to_lower (str_trim ''-'' s) = str_trim ''-'' (to_lower s)"
proof -
  have l: "map lower_char (dropWhile (\<lambda>c. c = CHR ''-'') t) = dropWhile (\<lambda>c. c = CHR ''-'') (map lower_char t)" for t
    by (induction t) auto
  then show ?thesis
    by (simp add: str_trim_def trim_left_def trim_right_def to_lower_def rev_map [symmetric])
qed

lemma slug_core_no_camel: "no_camel s \<Longrightarrow> slug_core s = name_norm s"
proof -
  assume a: "no_camel s"
  have "no_dd (to_lower (str_trim ''-'' (squeeze non_alnum s)))"
    using no_dd_squeeze [of non_alnum] dash_not_alnum by (simp add: no_dd_str_trim)
  then have "slug_core s = to_lower (str_trim ''-'' (squeeze non_alnum s))"
    using a by (simp add: slug_core_def no_camel_def) (rule squeeze_id, auto simp: is_dash_def)
  then show ?thesis by (simp add: name_norm_def to_lower_trim)
qed

lemma slug_eq_core: "slug s = slug_core s"
  using kind_slug_eq_slug by (simp add: kind_slug_def)

lemma pick_segment_cong:
  "(\<And>s. s \<in> set segs \<Longrightarrow> f s = g s) \<Longrightarrow> pick_segment f segs = pick_segment g segs"
  by (induction segs) auto

text \<open>On a path whose segments hold no lower-case letter or digit followed by an upper-case letter,
  the orchestrator recomputes exactly the short name the manifest published.\<close>

lemma derive_short_eq_name:
  assumes "\<And>s. s \<in> set (str_split ''/'' (str_trim ''/'' (hd (str_split ''?'' p)))) \<Longrightarrow> no_camel s"
  shows "derive_short p = derive_name p"
proof -
  let ?p = "str_trim ''/'' (hd (str_split ''?'' p))"
  have "pick_segment slug (rev (str_split ''/'' ?p)) = pick_segment name_norm (rev (str_split ''/'' ?p))"
    using assms slug_core_no_camel by (intro pick_segment_cong) (simp add: slug_eq_core)
  then show ?thesis by (simp add: derive_short_def derive_name_def derive_from_def Let_def)
qed

end
