(* ===== verification/Orchestrator.thy ===== *)
theory Orchestrator
  imports Policy Slugs Templates
begin

text \<open>
  \<^verbatim>\<open>internal/orchestrator/service.go\<close>: executing an action.  An action key \<open>namespace.short\<close> is mapped to
  one of the tenant's connector operations, the operation's template is filled from the inputs, one
  HTTP request is made, and a row is added to the executions.  The network is a parameter: what
  \<^verbatim>\<open>http.NewRequestWithContext\<close> rejects, and what the client returns for a request.
\<close>

section \<open>Data\<close>

record Problem =
  pb_Type :: string
  pb_Title :: string
  pb_Detail :: string
  pb_Step :: string

record ExecuteResult =
  er_Steps :: "kvs list"
  er_Result :: gomap
  er_Status :: string
  er_Problems :: "Problem list"

record http_request =
  rq_method :: string
  rq_url :: string
  rq_headers :: "(string \<times> string) list"
  rq_body :: string

text \<open>The network: an error of \<^verbatim>\<open>NewRequest\<close> for a method and URL, and the outcome of a request, an error
  or a status code with the decoded body.\<close>

record network =
  nw_check :: "string \<Rightarrow> string \<Rightarrow> string option"
  nw_do :: "http_request \<Rightarrow> string + int \<times> gomap"

definition gmap :: "gomap \<Rightarrow> kvs" where
  "gmap m = (case m of None \<Rightarrow> [] | Some kv \<Rightarrow> kv)"

definition idempotency_key :: "gomap \<Rightarrow> string \<Rightarrow> string" where
  "idempotency_key input decisionID =
     (case as_str (mget (gmap input) ''idempotency_key'') of
        Some v \<Rightarrow> if v = [] then decisionID else v
      | None \<Rightarrow> decisionID)"

section \<open>Finding the operation\<close>

type_synonym op_choice = "string \<times> string \<times> string \<times> gval"

definition joined :: "db \<Rightarrow> string \<Rightarrow> (operation_row \<times> definition_row) list" where
  "joined d tid = concat (map (\<lambda>q. map (Pair q)
      (filter (\<lambda>f. df_id f = op_connector q \<and> df_tenant f = tid) (definitions d)))
    (filter (\<lambda>q. case op_enabled q of None \<Rightarrow> True | Some e \<Rightarrow> e) (operations d)))"

text \<open>The query; the tables of connectors have no row level security, but its parameter is used both as
  text and as a \<^verbatim>\<open>uuid\<close>.\<close>

definition list_operations :: "db \<Rightarrow> string \<Rightarrow> (operation_row \<times> definition_row) list option" where
  "list_operations d tid =
     (if faults d ListOperations \<or> \<not> text_as_uuid d then None else Some (joined d tid))"

text \<open>\<^verbatim>\<open>rows.Scan\<close>: a NULL method, path or kind is an error.\<close>

definition scan_op :: "operation_row \<times> definition_row \<Rightarrow> (op_choice \<times> string \<times> string) option" where
  "scan_op r = (case r of (q, f) \<Rightarrow>
     (case (op_method q, op_path q, df_kind f) of
        (Some m, Some p, Some kind) \<Rightarrow>
          Some (((case df_base_url f of None \<Rightarrow> [] | Some b \<Rightarrow> b), m, p,
                 (case op_request_tmpl q of None \<Rightarrow> VMap [] | Some t \<Rightarrow> t)),
                kind, (case df_title f of None \<Rightarrow> [] | Some t \<Rightarrow> t))
      | _ \<Rightarrow> None))"

text \<open>The loop over the rows.  A failed scan closes the rows, so the \<^verbatim>\<open>continue\<close> after it ends the loop.\<close>

fun pick_op ::
  "string \<Rightarrow> string \<Rightarrow> (operation_row \<times> definition_row) list \<Rightarrow> op_choice \<Rightarrow> bool \<Rightarrow> op_choice" where
  "pick_op ns short [] cur fallbackSet = cur"
| "pick_op ns short (r # rs) cur fallbackSet =
     (case scan_op r of
        None \<Rightarrow> cur
      | Some ((b, m, p, tr), kind, title) \<Rightarrow>
          if slug kind \<noteq> ns \<and> slug title \<noteq> ns then pick_op ns short rs cur fallbackSet
          else if derive_short p = short then (b, m, p, tr)
          else if \<not> fallbackSet then pick_op ns short rs (b, m, p, tr) True
          else pick_op ns short rs cur fallbackSet)"

definition no_op :: op_choice where "no_op = ([], [], [], VNil)"

definition find_operation :: "db option \<Rightarrow> string \<Rightarrow> string \<Rightarrow> op_choice" where
  "find_operation pool tid actionKey =
     (case pool of
        None \<Rightarrow> no_op
      | Some d \<Rightarrow>
          (case list_operations d tid of
             None \<Rightarrow> no_op
           | Some rows \<Rightarrow> pick_op (fst (split_key actionKey)) (snd (split_key actionKey)) rows no_op False))"

section \<open>Building the request\<close>

definition build_headers :: "runtime \<Rightarrow> gomap \<Rightarrow> kvs \<Rightarrow> (string \<times> string) list" where
  "build_headers rt input tmpl =
     (case as_map (mget tmpl ''headers'') of
        None \<Rightarrow> []
      | Some hv \<Rightarrow> map (map_prod id (resolve rt input)) hv)"

definition build_query :: "runtime \<Rightarrow> gomap \<Rightarrow> kvs \<Rightarrow> (string \<times> string) list" where
  "build_query rt input tmpl =
     (case as_map (mget tmpl ''query'') of
        None \<Rightarrow> []
      | Some qv \<Rightarrow> map (map_prod id (resolve rt input)) qv)"

definition resolve_member :: "runtime \<Rightarrow> gomap \<Rightarrow> gval \<Rightarrow> gval" where
  "resolve_member rt input v = (case v of VStr t \<Rightarrow> VStr (resolve rt input (VStr t)) | _ \<Rightarrow> v)"

definition build_body :: "runtime \<Rightarrow> gomap \<Rightarrow> kvs \<Rightarrow> gomap" where
  "build_body rt input tmpl =
     map_option (map (map_prod id (resolve_member rt input))) (as_map (mget tmpl ''body''))"

definition base_path :: "string \<Rightarrow> string \<Rightarrow> string" where
  "base_path baseURL path = trim_right ''/'' baseURL @ path"

definition filled_url :: "runtime \<Rightarrow> gomap \<Rightarrow> kvs \<Rightarrow> string \<Rightarrow> string \<Rightarrow> string" where
  "filled_url rt input tmpl baseURL path =
     fill_path rt input (as_map (mget tmpl ''path_params'')) (base_path baseURL path)"

definition request_headers :: "(string \<times> string) list \<Rightarrow> gomap \<Rightarrow> (string \<times> string) list" where
  "request_headers headers body =
     (let h = foldl (\<lambda>h (k, v). header_set h k v) [] headers
      in if body \<noteq> None \<and> header_get h ''Content-Type'' = []
         then header_set h ''Content-Type'' ''application/json'' else h)"

definition build_request :: "runtime \<Rightarrow> gomap \<Rightarrow> kvs \<Rightarrow> string \<Rightarrow> string \<Rightarrow> http_request" where
  "build_request rt input tmpl method fullURL =
     (let body = build_body rt input tmpl in
      \<lparr> rq_method = method,
        rq_url = attach_query fullURL (Encode (build_query rt input tmpl)),
        rq_headers = request_headers (build_headers rt input tmpl) body,
        rq_body = (case body of None \<Rightarrow> [] | Some b \<Rightarrow> json_text rt (VMap b)) \<rparr>)"

section \<open>Recording\<close>

definition insert_execution :: "db \<Rightarrow> execution_row \<Rightarrow> db" where
  "insert_execution d r =
     (if \<not> faults d InsertExecution \<and> text_as_uuid d \<and> rls_can_write d (ViaCte (ex_tenant r)) (ex_tenant r)
         \<and> ex_decision r \<in> decision_ids d
      then d\<lparr> executions := executions d @ [r] \<rparr> else d)"

definition execution_row_of ::
  "runtime \<Rightarrow> string \<Rightarrow> string \<Rightarrow> string \<Rightarrow> gomap \<Rightarrow> ExecuteResult \<Rightarrow> execution_row" where
  "execution_row_of rt tid actionKey decisionID input res = \<lparr>
     ex_tenant = tid, ex_action = actionKey, ex_decision = decisionID,
     ex_idempotency_key = idempotency_key input decisionID,
     ex_steps = json_text rt (VArr (map VMap (er_Steps res))),
     ex_result = json_text rt (any_of_map (er_Result res)), ex_status = er_Status res \<rparr>"

section \<open>Execute\<close>

definition no_operation_result :: "environ \<Rightarrow> ExecuteResult" where
  "no_operation_result env = \<lparr>
     er_Steps = [[(''op'', VStr ''request''), (''error'', VStr ''no_operation_mapping'')]],
     er_Result = Some [(''ok'', VBool False)], er_Status = ''FAILED'',
     er_Problems = [\<lparr> pb_Type = Type env ''no-operation'', pb_Title = ''No connector operation mapped to action'',
       pb_Detail = ''No enabled connector operation was found for this action key. Ensure your custom connector title or kind matches the action key, or add an explicit mapping.'',
       pb_Step = [] \<rparr>] \<rparr>"

definition unresolved_result :: "environ \<Rightarrow> string \<Rightarrow> ExecuteResult" where
  "unresolved_result env fullURL = \<lparr>
     er_Steps = [[(''op'', VStr ''request''), (''url'', VStr fullURL), (''error'', VStr ''unresolved_path_params'')]],
     er_Result = Some [(''ok'', VBool False)], er_Status = ''FAILED'',
     er_Problems = [\<lparr> pb_Type = Type env ''unresolved-path-params'', pb_Title = ''Unresolved path parameters'',
       pb_Detail = ''One or more path placeholders were not bound. Ensure request_tmpl.path_params maps every {name} in the path and inputs provide values.'',
       pb_Step = [] \<rparr>] \<rparr>"

definition request_step :: "http_request \<Rightarrow> kvs" where
  "request_step rq = [(''op'', VStr ''request''), (''method'', VStr (rq_method rq)), (''url'', VStr (rq_url rq))]"

text \<open>Making the request: the step, the response, and the requests that left the process.\<close>

definition send :: "network \<Rightarrow> http_request \<Rightarrow> kvs \<times> gomap \<times> http_request list" where
  "send net rq =
     (case nw_check net (rq_method rq) (rq_url rq) of
        Some e \<Rightarrow> (request_step rq @ [(''error'', VStr e)], None, [])
      | None \<Rightarrow>
          (case nw_do net rq of
             Inl e \<Rightarrow> (request_step rq @ [(''error'', VStr e)], None, [rq])
           | Inr (code, out) \<Rightarrow> (request_step rq @ [(''status'', VInt code)], out, [rq])))"

text \<open>The result of the action and the requests sent, before anything is recorded.\<close>

definition perform ::
  "environ \<Rightarrow> runtime \<Rightarrow> network \<Rightarrow> op_choice \<Rightarrow> gomap \<Rightarrow> ExecuteResult \<times> http_request list" where
  "perform env rt net choice input =
     (case choice of (baseURL, method, path, tmplRaw) \<Rightarrow>
        if method = [] \<or> path = [] then (no_operation_result env, [])
        else
          let tmpl = gmap (unmarshal_map tmplRaw);
              u = filled_url rt input tmpl baseURL path
          in if CHR ''{'' \<in> set u then (unresolved_result env u, [])
             else (case send net (build_request rt input tmpl method u) of
                     (step, resp, sent) \<Rightarrow>
                       (\<lparr> er_Steps = [step], er_Result = resp, er_Status = ''SUCCEEDED'', er_Problems = [] \<rparr>, sent)))"

definition Execute ::
  "environ \<Rightarrow> runtime \<Rightarrow> network \<Rightarrow> db option \<Rightarrow> string \<Rightarrow> string \<Rightarrow> string \<Rightarrow> gomap
     \<Rightarrow> ExecuteResult \<times> db option \<times> http_request list" where
  "Execute env rt net pool tid actionKey decisionID input =
     (case perform env rt net (find_operation pool tid actionKey) input of
        (res, sent) \<Rightarrow>
          (res, map_option (\<lambda>d. insert_execution d (execution_row_of rt tid actionKey decisionID input res)) pool, sent))"

section \<open>Which operation is chosen\<close>

type_synonym scanned = "op_choice \<times> string \<times> string"

definition choice_path :: "op_choice \<Rightarrow> string" where
  "choice_path c = fst (snd (snd c))"

definition choice_method :: "op_choice \<Rightarrow> string" where
  "choice_method c = fst (snd c)"

definition in_namespace :: "string \<Rightarrow> scanned \<Rightarrow> bool" where
  "in_namespace ns c \<longleftrightarrow> slug (fst (snd c)) = ns \<or> slug (snd (snd c)) = ns"

definition has_short :: "string \<Rightarrow> scanned \<Rightarrow> bool" where
  "has_short short c \<longleftrightarrow> derive_short (choice_path (fst c)) = short"

text \<open>The operations of a namespace, and the choice among them that the loop implements.\<close>

fun scan_rows :: "(operation_row \<times> definition_row) list \<Rightarrow> scanned list" where
  "scan_rows [] = []"
| "scan_rows (r # rs) = (case scan_op r of None \<Rightarrow> [] | Some c \<Rightarrow> c # scan_rows rs)"

definition candidates :: "string \<Rightarrow> (operation_row \<times> definition_row) list \<Rightarrow> scanned list" where
  "candidates ns rows = filter (in_namespace ns) (scan_rows rows)"

definition choose_op :: "string \<Rightarrow> scanned list \<Rightarrow> op_choice \<Rightarrow> op_choice" where
  "choose_op short cs dflt =
     (case find (has_short short) cs of
        Some c \<Rightarrow> fst c
      | None \<Rightarrow> (case cs of [] \<Rightarrow> dflt | c # _ \<Rightarrow> fst c))"

lemma candidates_simps [simp]:
  "candidates ns [] = []"
  "candidates ns (r # rs) = (case scan_op r of None \<Rightarrow> []
     | Some c \<Rightarrow> if in_namespace ns c then c # candidates ns rs else candidates ns rs)"
  by (auto simp: candidates_def split: option.splits)

lemma pick_op_choose:
  "pick_op ns short rows cur fb =
     (if fb then (case find (has_short short) (candidates ns rows) of Some c \<Rightarrow> fst c | None \<Rightarrow> cur)
      else choose_op short (candidates ns rows) cur)"
proof (induction rows arbitrary: cur fb)
  case (Cons r rs)
  show ?case
  proof (cases "scan_op r")
    case (Some c)
    obtain b m p tr kind title where c: "c = ((b, m, p, tr), kind, title)" by (metis prod.exhaust)
    then have "in_namespace ns c \<longleftrightarrow> slug kind = ns \<or> slug title = ns" "has_short short c \<longleftrightarrow> derive_short p = short"
      by (simp_all add: in_namespace_def has_short_def choice_path_def)
    then show ?thesis by (simp add: Cons.IH Some c choose_op_def cong: option.case_cong)
  qed (simp add: choose_op_def)
qed (simp add: choose_op_def)

lemma find_operation_eq:
  "find_operation (Some d) tid key = (case list_operations d tid of None \<Rightarrow> no_op
     | Some rows \<Rightarrow> choose_op (snd (split_key key)) (candidates (fst (split_key key)) rows) no_op)"
  by (auto simp: find_operation_def pick_op_choose split: option.splits)

lemma set_joined:
  "(q, f) \<in> set (joined d tid) \<longleftrightarrow>
     q \<in> set (operations d) \<and> f \<in> set (definitions d) \<and> df_id f = op_connector q \<and> df_tenant f = tid
     \<and> op_enabled q \<noteq> Some False"
  by (auto simp: joined_def split: option.splits)

lemma choose_op_cases: "choose_op short cs dflt = dflt \<or> (\<exists>c \<in> set cs. choose_op short cs dflt = fst c)"
proof (cases "find (has_short short) cs")
  case (Some c)
  then show ?thesis using find_set [OF Some] by (auto simp: choose_op_def)
qed (auto simp: choose_op_def split: list.splits)

lemma set_candidates: "c \<in> set (candidates ns rows) \<Longrightarrow> (\<exists>r \<in> set rows. scan_op r = Some c) \<and> in_namespace ns c"
  by (induction rows) (auto split: option.splits if_splits)

text \<open>An operation an action key may be dispatched to: enabled, of the tenant, in the key's namespace.\<close>

definition dispatchable :: "db \<Rightarrow> string \<Rightarrow> string \<Rightarrow> op_choice \<Rightarrow> bool" where
  "dispatchable d tid key c \<longleftrightarrow> (\<exists>q f kind title.
     q \<in> set (operations d) \<and> f \<in> set (definitions d) \<and> df_id f = op_connector q \<and> df_tenant f = tid
     \<and> op_enabled q \<noteq> Some False \<and> scan_op (q, f) = Some (c, kind, title)
     \<and> fst (split_key key) \<in> {slug kind, slug title})"

lemma find_operation_dispatchable:
  "find_operation (Some d) tid key = no_op \<or> dispatchable d tid key (find_operation (Some d) tid key)"
proof (cases "list_operations d tid")
  case (Some rows)
  then have rows: "rows = joined d tid" by (auto simp: list_operations_def split: if_splits)
  show ?thesis
    using choose_op_cases [of "snd (split_key key)" "candidates (fst (split_key key)) rows" no_op]
  proof
    assume "\<exists>c \<in> set (candidates (fst (split_key key)) rows). choose_op (snd (split_key key)) (candidates (fst (split_key key)) rows) no_op = fst c"
    then obtain c where c: "c \<in> set (candidates (fst (split_key key)) rows)" "find_operation (Some d) tid key = fst c"
      using Some by (auto simp: find_operation_eq)
    from set_candidates [OF c(1)] obtain q f where "(q, f) \<in> set (joined d tid)" "scan_op (q, f) = Some c"
      "in_namespace (fst (split_key key)) c" by (auto simp: rows)
    then have "dispatchable d tid key (fst c)"
      unfolding dispatchable_def set_joined in_namespace_def
      by (intro exI [of _ q] exI [of _ f] exI [of _ "fst (snd c)"] exI [of _ "snd (snd c)"]) auto
    then show ?thesis using c(2) by simp
  qed (use Some in \<open>simp add: find_operation_eq\<close>)
qed (simp add: find_operation_eq)

lemma perform_no_op: "choice_method c = [] \<or> choice_path c = [] \<Longrightarrow> perform env rt net c input = (no_operation_result env, [])"
  by (auto simp: perform_def choice_method_def choice_path_def split: prod.splits)

lemma perform_sent:
  assumes "rq \<in> set (snd (perform env rt net c input))"
  shows "\<exists>u. CHR ''{'' \<notin> set u \<and> filter url_struct u = filter url_struct (base_path (fst c) (choice_path c))
     \<and> (\<exists>enc. rq_url rq = attach_query u enc) \<and> rq_method rq = choice_method c \<and> choice_method c \<noteq> []
     \<and> snd (perform env rt net c input) = [rq]"
  using assms
  by (auto simp: perform_def send_def Let_def choice_method_def choice_path_def build_request_def
      filled_url_def fill_path_structure split: prod.splits if_splits option.splits sum.splits)

section \<open>Properties of Execute\<close>

lemma Execute_sent: "snd (snd (Execute env rt net pool tid key did input))
    = snd (perform env rt net (find_operation pool tid key) input)"
  by (simp add: Execute_def case_prod_beta)

lemma Execute_result: "fst (Execute env rt net pool tid key did input)
    = fst (perform env rt net (find_operation pool tid key) input)"
  by (simp add: Execute_def case_prod_beta)

text \<open>C11: Every request is one of the tenant's operations.  Each request \<^verbatim>\<open>Execute\<close> sends is the only one of
  that call; it has the method of an enabled operation of a connector of this tenant whose kind or
  title is the namespace of the action key, and its URL is that operation's URL with the path
  parameters filled in (the same slashes, question marks and hashes, no brace left) and the encoded
  query attached.\<close>

theorem Execute_sends_operation:
  assumes "rq \<in> set (snd (snd (Execute env rt net (Some d) tid key did input)))"
  shows "\<exists>c u enc. dispatchable d tid key c \<and> rq_method rq = choice_method c
     \<and> rq_url rq = attach_query u enc \<and> CHR ''{'' \<notin> set u
     \<and> filter url_struct u = filter url_struct (base_path (fst c) (choice_path c))
     \<and> snd (snd (Execute env rt net (Some d) tid key did input)) = [rq]"
proof -
  let ?c = "find_operation (Some d) tid key"
  from assms have rq: "rq \<in> set (snd (perform env rt net ?c input))" by (simp add: Execute_sent)
  from perform_sent [OF rq] obtain u enc where
    u: "CHR ''{'' \<notin> set u" "filter url_struct u = filter url_struct (base_path (fst ?c) (choice_path ?c))"
      "rq_url rq = attach_query u enc" "rq_method rq = choice_method ?c" "choice_method ?c \<noteq> []"
      "snd (perform env rt net ?c input) = [rq]" by blast
  moreover have "?c \<noteq> no_op" using u(5) by (auto simp: no_op_def choice_method_def)
  ultimately show ?thesis using find_operation_dispatchable [of d tid key] unfolding Execute_sent by blast
qed

text \<open>The exact match wins.  If exactly one operation of the namespace has the short name of the action
  key, that operation is the one chosen, wherever it is in the list.\<close>

theorem find_operation_exact:
  assumes "\<not> faults d ListOperations" "text_as_uuid d"
    and c: "c \<in> set (candidates (fst (split_key key)) (joined d tid))" "has_short (snd (split_key key)) c"
    and uniq: "\<And>c'. c' \<in> set (candidates (fst (split_key key)) (joined d tid)) \<Longrightarrow>
        has_short (snd (split_key key)) c' \<Longrightarrow> c' = c"
  shows "find_operation (Some d) tid key = fst c"
proof -
  let ?cs = "candidates (fst (split_key key)) (joined d tid)"
  have "find (has_short (snd (split_key key))) ?cs \<noteq> None"
    using c unfolding find_None_iff by blast
  then obtain c' where f: "find (has_short (snd (split_key key))) ?cs = Some c'" by auto
  then have "c' = c" using uniq find_set by metis
  then show ?thesis using assms(1,2) f by (simp add: find_operation_eq list_operations_def choose_op_def)
qed

text \<open>An unknown action runs another one.  If no operation of the namespace has the short name of the
  key, the first operation of the namespace is chosen instead.\<close>

theorem find_operation_fallback:
  assumes "\<not> faults d ListOperations" "text_as_uuid d"
    and "candidates (fst (split_key key)) (joined d tid) = c # cs"
    and "\<And>c'. c' \<in> set (c # cs) \<Longrightarrow> \<not> has_short (snd (split_key key)) c'"
  shows "find_operation (Some d) tid key = fst c"
proof -
  have "find (has_short (snd (split_key key))) (c # cs) = None"
    using assms(4) by (auto simp: find_None_iff)
  then show ?thesis using assms(1-3) by (simp add: find_operation_eq list_operations_def choose_op_def)
qed

text \<open>C38: Against PostgreSQL no action is ever executed.  The server fixes the type of the first parameter of
  the operations query as \<^verbatim>\<open>text\<close> (it is an argument of \<^verbatim>\<open>set_config\<close>) and rejects its comparison with a
  \<^verbatim>\<open>uuid\<close> column; \<^verbatim>\<open>Execute\<close> drops the error, answers that no operation is mapped, sends nothing and
  records nothing.\<close>

theorem Execute_typed_parameter:
  assumes "\<not> text_as_uuid d"
  shows "Execute env rt net (Some d) tid key did input = (no_operation_result env, Some d, [])"
proof -
  have "find_operation (Some d) tid key = no_op"
    using assms by (simp add: find_operation_def list_operations_def)
  then show ?thesis
    using assms by (simp add: Execute_def perform_def no_op_def insert_execution_def)
qed

lemma insert_execution_tables [simp]:
  "operations (insert_execution d r) = operations d" "definitions (insert_execution d r) = definitions d"
  "faults (insert_execution d r) = faults d" "text_as_uuid (insert_execution d r) = text_as_uuid d"
  "rls_applies (insert_execution d r) = rls_applies d" "cte_runs (insert_execution d r) = cte_runs d"
  "decisions (insert_execution d r) = decisions d" "resolvers (insert_execution d r) = resolvers d"
  "mappings (insert_execution d r) = mappings d" "policy_versions (insert_execution d r) = policy_versions d"
  by (simp_all add: insert_execution_def)

lemma find_operation_insert [simp]:
  "find_operation (Some (insert_execution d r)) tid key = find_operation (Some d) tid key"
  by (simp add: find_operation_def list_operations_def joined_def)

text \<open>The idempotency key prevents nothing.  Executing the same action again, with the same decision and
  the same inputs and hence the same idempotency key, on the database the first call left, gives the
  same result and sends the same request again.\<close>

theorem Execute_repeats:
  assumes "Execute env rt net pool tid key did input = (res, pool', sent)"
  shows "\<exists>pool''. Execute env rt net pool' tid key did input = (res, pool'', sent)"
  using assms by (cases pool) (auto simp: Execute_def case_prod_beta)

text \<open>The status does not depend on the outcome.  Two networks, say one that answers 200 and one that is
  unreachable, lead to the same status: \<^verbatim>\<open>SUCCEEDED\<close> as soon as a request could be built.\<close>

theorem Execute_status_ignores_network:
  "er_Status (fst (Execute env rt net pool tid key did input))
     = er_Status (fst (Execute env rt net' pool tid key did input))"
  by (auto simp: Execute_result perform_def Let_def split: prod.splits)

text \<open>What is recorded.  An execution adds exactly one row, holding the status it returned, whenever the
  insert is possible (parameter types accepted, tenant visible, decision known), and changes no other
  table in any case.\<close>

theorem Execute_records:
  assumes "Execute env rt net (Some d) tid key did input = (res, Some d', sent)"
  shows "d' = (if \<not> faults d InsertExecution \<and> text_as_uuid d \<and> tenant_visible d \<and> did \<in> decision_ids d
      then d\<lparr> executions := executions d @ [execution_row_of rt tid key did input res] \<rparr> else d)"
  using assms
  by (auto simp: Execute_def case_prod_beta insert_execution_def execution_row_of_def store_simps split: if_splits)

section \<open>A demonstration connector\<close>

definition shop_definition :: "string \<Rightarrow> definition_row" where
  "shop_definition t = \<lparr> df_id = ''c1'', df_tenant = t, df_kind = Some ''Shop'', df_builtin_kind = None,
     df_config = None, df_secret = None, df_base_url = Some ''https://api.shop.test/'', df_auth_ref = None,
     df_title = None, df_summary = None \<rparr>"

definition shop_operation :: "string \<Rightarrow> string \<Rightarrow> gval \<Rightarrow> operation_row" where
  "shop_operation m p tm = \<lparr> op_id = p, op_connector = ''c1'', op_method = Some m, op_path = Some p,
     op_summary = None, op_scopes = None, op_params = None, op_request_tmpl = Some tm, op_enabled = None \<rparr>"

definition cancel_tmpl :: gval where
  "cancel_tmpl = VMap [(''path_params'', VMap [(''id'', VStr ''{{ id }}'')]),
     (''body'', VMap [(''note'', VStr ''for {{who.name}}'')])]"

definition exec_db :: db where
  "exec_db = decided_db\<lparr> text_as_uuid := True, definitions := [shop_definition ''t2''],
     operations := [shop_operation ''GET'' ''/v1/orders'' (VMap []),
       shop_operation ''POST'' ''/v1/orders/{id}/cancel'' cancel_tmpl] \<rparr>"

definition demo_net :: network where
  "demo_net = \<lparr> nw_check = (\<lambda>_ _. None), nw_do = (\<lambda>_. Inr (200, Some [])) \<rparr>"

lemma shop_slugs: "slug ''Shop'' = ''shop''" "slug [] = []"
  "derive_short ''/v1/orders'' = ''orders''" "derive_short ''/v1/orders/{id}/cancel'' = ''cancel''"
  by code_simp+

definition get_orders :: scanned where
  "get_orders = ((''https://api.shop.test/'', ''GET'', ''/v1/orders'', VMap []), ''Shop'', [])"

definition post_cancel :: scanned where
  "post_cancel = ((''https://api.shop.test/'', ''POST'', ''/v1/orders/{id}/cancel'', cancel_tmpl), ''Shop'', [])"

lemma exec_candidates: "candidates ''shop'' (joined exec_db ''t2'') = [get_orders, post_cancel]"
  by (simp add: joined_def exec_db_def shop_definition_def shop_operation_def scan_op_def in_namespace_def
      shop_slugs get_orders_def post_cancel_def)

lemma exec_shorts: "has_short s get_orders \<longleftrightarrow> s = ''orders''" "has_short s post_cancel \<longleftrightarrow> s = ''cancel''"
  by (auto simp: has_short_def get_orders_def post_cancel_def choice_path_def shop_slugs)

lemma exec_keys: "split_key ''shop.cancel'' = (''shop'', ''cancel'')" "split_key ''shop.refund'' = (''shop'', ''refund'')"
  by code_simp+

lemma exec_db_flags: "\<not> faults exec_db ListOperations" "text_as_uuid exec_db" "\<not> faults exec_db InsertExecution"
    "tenant_visible exec_db" "''d1'' \<in> decision_ids exec_db"
  by (simp_all add: exec_db_def decided_db_def policy_demo_defs add_decision_def tenant_visible_def
      decision_ids_def decision_row_of_def)

theorem find_operation_exact_witness: "find_operation (Some exec_db) ''t2'' ''shop.cancel'' = fst post_cancel"
  by (rule find_operation_exact) (auto simp: exec_keys exec_candidates exec_shorts exec_db_flags)

theorem find_operation_fallback_witness: "find_operation (Some exec_db) ''t2'' ''shop.refund'' = fst get_orders"
  by (rule find_operation_fallback [where cs = "[post_cancel]"])
     (auto simp: exec_keys exec_candidates exec_shorts exec_db_flags)

lemma exec_choice: "find_operation (Some exec_db) ''t2'' ''shop.cancel'' = fst post_cancel"
  by (simp add: find_operation_eq list_operations_def exec_db_flags exec_keys exec_candidates choose_op_def exec_shorts)

definition demo_input :: gomap where
  "demo_input = Some [(''id'', VStr ''7/8''), (''who'', VMap [(''name'', VStr ''Ann'')])]"

definition cancel_request :: http_request where
  "cancel_request = \<lparr> rq_method = ''POST'', rq_url = ''https://api.shop.test/v1/orders/7%2F8/cancel'',
     rq_headers = [(''Content-Type'', ''application/json'')], rq_body = [CHR 0x7B, CHR 0x22] @ ''note'' @ [CHR 0x22] @ '':'' @ [CHR 0x22] @ ''for Ann'' @ [CHR 0x22, CHR 0x7D] \<rparr>"

lemma cancel_performed: "perform (\<lambda>_. []) demo_rt demo_net (fst post_cancel) demo_input =
    (\<lparr> er_Steps = [request_step cancel_request @ [(''status'', VInt 200)]], er_Result = Some [],
       er_Status = ''SUCCEEDED'', er_Problems = [] \<rparr>, [cancel_request])"
  by code_simp

definition cancel_result :: ExecuteResult where
  "cancel_result = fst (perform (\<lambda>_. []) demo_rt demo_net (fst post_cancel) demo_input)"

definition after_cancel :: db where
  "after_cancel = insert_execution exec_db (execution_row_of demo_rt ''t2'' ''shop.cancel'' ''d1'' demo_input cancel_result)"

lemma cancel_executed:
  "Execute (\<lambda>_. []) demo_rt demo_net (Some exec_db) ''t2'' ''shop.cancel'' ''d1'' demo_input =
     (cancel_result, Some after_cancel, [cancel_request])"
  by (simp add: Execute_def exec_choice cancel_performed cancel_result_def after_cancel_def)

lemma after_cancel_once: "length (executions after_cancel) = 1"
proof -
  have "executions exec_db = []"
    by (simp add: exec_db_def decided_db_def policy_demo_defs add_decision_def)
  then show ?thesis
    by (simp add: after_cancel_def insert_execution_def exec_db_flags execution_row_of_def store_simps)
qed

theorem Execute_sends_operation_witness:
  "\<exists>c u enc. dispatchable exec_db ''t2'' ''shop.cancel'' c \<and> rq_method cancel_request = choice_method c
     \<and> rq_url cancel_request = attach_query u enc \<and> CHR ''{'' \<notin> set u
     \<and> filter url_struct u = filter url_struct (base_path (fst c) (choice_path c))"
proof -
  have "cancel_request \<in> set (snd (snd (Execute (\<lambda>_. []) demo_rt demo_net (Some exec_db) ''t2'' ''shop.cancel'' ''d1'' demo_input)))"
    by (simp add: cancel_executed)
  from Execute_sends_operation [OF this] show ?thesis by blast
qed

theorem Execute_typed_parameter_witness:
  "Execute (\<lambda>_. []) demo_rt demo_net (Some (exec_db\<lparr>text_as_uuid := False\<rparr>)) ''t2'' ''shop.cancel'' ''d1'' demo_input
     = (no_operation_result (\<lambda>_. []), Some (exec_db\<lparr>text_as_uuid := False\<rparr>), [])"
  by (rule Execute_typed_parameter) simp

theorem Execute_repeats_witness:
  "length (executions after_cancel) = 1 \<and>
   (\<exists>pool''. Execute (\<lambda>_. []) demo_rt demo_net (Some after_cancel) ''t2'' ''shop.cancel'' ''d1'' demo_input
      = (cancel_result, pool'', [cancel_request]))"
  using Execute_repeats [OF cancel_executed] after_cancel_once by blast

theorem Execute_records_witness:
  "\<exists>res d' sent. Execute (\<lambda>_. []) demo_rt demo_net (Some exec_db) ''t2'' ''shop.cancel'' ''d1'' demo_input = (res, Some d', sent)
     \<and> d' = exec_db\<lparr> executions := executions exec_db @ [execution_row_of demo_rt ''t2'' ''shop.cancel'' ''d1'' demo_input res] \<rparr>"
  using cancel_executed Execute_records [OF cancel_executed] by (simp add: exec_db_flags)

end
