(* ===== verification/Policy_HTTP.thy ===== *)
theory Policy_HTTP
  imports Orchestrator
begin

text \<open>
  \<^verbatim>\<open>internal/policy/http.go\<close>: the two endpoints of the policy service, and the service as a state machine
  in which preflights, executions, configuration changes and the passing of time interleave.  A
  handler receives the decoded body (decoding errors are dropped by the code and leave zero values),
  the readings of the clock, and the id the database would generate.
\<close>

section \<open>Handlers\<close>

text \<open>A response of the preflight endpoint; an absent member is \<^const>\<open>None\<close>.\<close>

record preflight_response =
  pr_status :: string
  pr_decision_id :: "string option"
  pr_expires_at :: "int option"
  pr_reasons :: "gval option"
  pr_conditions :: "gval option"
  pr_alternatives :: "gval option"
  pr_needs :: "gval option"

definition status_only :: "string \<Rightarrow> preflight_response" where
  "status_only s = \<lparr> pr_status = s, pr_decision_id = None, pr_expires_at = None, pr_reasons = None,
     pr_conditions = None, pr_alternatives = None, pr_needs = None \<rparr>"

definition needs_value :: "gomap list \<Rightarrow> gval" where
  "needs_value ns = (if ns = [] then VNil else VArr (map any_of_map ns))"

definition present :: "gval \<Rightarrow> gval option" where
  "present v = (if v = VNil then None else Some v)"

definition decision_response :: "Decision \<Rightarrow> string \<Rightarrow> preflight_response" where
  "decision_response dec i =
     (case dec_Status dec of
        Blocked \<Rightarrow> (status_only (status_string Blocked))
          \<lparr> pr_reasons := Some (dec_Reasons dec), pr_alternatives := Some (dec_Alternatives dec) \<rparr>
      | NeedsInput \<Rightarrow> status_only (status_string NeedsInput)
      | st \<Rightarrow> (status_only (status_string st))
          \<lparr> pr_decision_id := Some i, pr_expires_at := dec_ExpiresAt dec,
            pr_reasons := present (dec_Reasons dec), pr_conditions := present (dec_Needs dec) \<rparr>)"

definition preflight ::
  "runtime \<Rightarrow> jmes \<Rightarrow> rego \<Rightarrow> clock \<Rightarrow> int \<Rightarrow> string \<Rightarrow> db option \<Rightarrow> string \<Rightarrow> string \<Rightarrow> gomap
     \<Rightarrow> preflight_response \<times> db option" where
  "preflight rt search rego clk now fresh pool tid key inputs =
     (let fa = fst (ResolveFacts rt search clk pool tid key inputs);
          dec = Evaluate rego now pool tid key inputs fa
      in if dec_Status dec = NeedsInput
         then ((status_only ''NEEDS_INPUT'')\<lparr> pr_needs := Some (needs_value (fst (ResolverNeeds pool tid key))) \<rparr>, pool)
         else (case PersistDecision rt fresh pool tid dec of
                 (i, err, pool') \<Rightarrow> (decision_response dec i, pool')))"

datatype execute_response = Conflict kvs | Done ExecuteResult

definition preflight_required :: "environ \<Rightarrow> kvs" where
  "preflight_required env = [(''type'', VStr (Type env ''preflight-required'')), (''title'', VStr ''Preflight required''),
     (''detail'', VStr ''Call eligibility first and pass decision_id to execute'')]"

definition execute ::
  "environ \<Rightarrow> runtime \<Rightarrow> jmes \<Rightarrow> network \<Rightarrow> clock \<Rightarrow> int \<Rightarrow> db option \<Rightarrow> string \<Rightarrow> string \<Rightarrow> string \<Rightarrow> gomap
     \<Rightarrow> execute_response \<times> db option \<times> http_request list" where
  "execute env rt search net clk now pool tid key decisionID inputs =
     (if trim_space decisionID = [] then (Conflict (preflight_required env), pool, [])
      else (case ValidateAndBindDecision env rt search clk now pool tid decisionID key inputs of
              (False, prob) \<Rightarrow> (Conflict (gmap prob), pool, [])
            | (True, _) \<Rightarrow>
                (case Execute env rt net pool tid key decisionID inputs of
                   (res, pool', sent) \<Rightarrow> (Done res, pool', sent))))"

section \<open>The service as a state machine\<close>

text \<open>A request that left the service, with the call that caused it.\<close>

record sent_event =
  se_tenant :: string
  se_action :: string
  se_decision :: string
  se_inputs :: gomap
  se_facts :: gomap
  se_time :: int
  se_request :: http_request

record world =
  w_pool :: "db option"
  w_now :: int
  w_sent :: "sent_event list"

record services =
  sv_env :: environ
  sv_rt :: runtime
  sv_search :: jmes
  sv_rego :: rego
  sv_net :: network

text \<open>What configuration (the admin API, other services) may change: everything but the decisions and
  executions, and not the server itself.\<close>

definition reconfigured :: "db \<Rightarrow> db \<Rightarrow> bool" where
  "reconfigured d d' \<longleftrightarrow> rls_applies d' = rls_applies d \<and> cte_runs d' = cte_runs d
     \<and> text_as_uuid d' = text_as_uuid d \<and> decisions d' = decisions d \<and> executions d' = executions d"

definition unused_id :: "db option \<Rightarrow> string \<Rightarrow> bool" where
  "unused_id pool i \<longleftrightarrow> (case pool of None \<Rightarrow> True | Some d \<Rightarrow> i \<notin> decision_ids d)"

definition sent_by :: "services \<Rightarrow> clock \<Rightarrow> int \<Rightarrow> db option \<Rightarrow> string \<Rightarrow> string \<Rightarrow> string \<Rightarrow> gomap \<Rightarrow> http_request \<Rightarrow> sent_event" where
  "sent_by sv clk now pool tid key did inputs rq = \<lparr> se_tenant = tid, se_action = key, se_decision = did,
     se_inputs = inputs, se_facts = fst (ResolveFacts (sv_rt sv) (sv_search sv) clk pool tid key inputs),
     se_time = now, se_request = rq \<rparr>"

inductive step :: "services \<Rightarrow> world \<Rightarrow> world \<Rightarrow> bool" for sv :: services where
  preflight_step:
    "unused_id (w_pool w) fresh \<Longrightarrow>
     preflight (sv_rt sv) (sv_search sv) (sv_rego sv) clk (w_now w) fresh (w_pool w) tid key inputs = (resp, pool') \<Longrightarrow>
     step sv w (w\<lparr> w_pool := pool' \<rparr>)"
| execute_step:
    "execute (sv_env sv) (sv_rt sv) (sv_search sv) (sv_net sv) clk (w_now w) (w_pool w) tid key did inputs
       = (resp, pool', sent) \<Longrightarrow>
     step sv w (w\<lparr> w_pool := pool',
       w_sent := w_sent w @ map (sent_by sv clk (w_now w) (w_pool w) tid key did inputs) sent \<rparr>)"
| configure_step:
    "w_pool w = Some d \<Longrightarrow> reconfigured d d' \<Longrightarrow> step sv w (w\<lparr> w_pool := Some d' \<rparr>)"
| time_step:
    "w_now w \<le> now' \<Longrightarrow> step sv w (w\<lparr> w_now := now' \<rparr>)"

inductive reachable :: "services \<Rightarrow> world \<Rightarrow> world \<Rightarrow> bool" for sv :: services and w0 :: world where
  start: "reachable sv w0 w0"
| more: "reachable sv w0 w \<Longrightarrow> step sv w w' \<Longrightarrow> reachable sv w0 w'"

definition initial :: "world \<Rightarrow> bool" where
  "initial w \<longleftrightarrow> w_sent w = [] \<and> (case w_pool w of None \<Rightarrow> True | Some d \<Rightarrow> decisions d = [] \<and> executions d = [])"

section \<open>Effects of the handlers\<close>

lemma preflight_db:
  assumes "preflight rt search rego clk now fresh (Some d) tid key inputs = (resp, pool')"
  defines "dec \<equiv> Evaluate rego now (Some d) tid key inputs (fst (ResolveFacts rt search clk (Some d) tid key inputs))"
  shows "pool' = Some d \<or>
     (dec_Status dec \<noteq> NeedsInput \<and> insert_decision_ok rt d tid dec
      \<and> pool' = Some (add_decision d (decision_row_of rt fresh tid dec)))"
  using assms(1) unfolding preflight_def dec_def [symmetric] Let_def
  by (auto simp: PersistDecision_def add_decision_def split: if_splits)

lemma preflight_no_db: "snd (preflight rt search rego clk now fresh None tid key inputs) = None"
  by (simp add: preflight_def Let_def PersistDecision_def)

lemma execute_db:
  assumes "execute env rt search net clk now (Some d) tid key did inputs = (resp, pool', sent)"
  shows "\<exists>d'. pool' = Some d' \<and> decisions d' = decisions d \<and> rls_applies d' = rls_applies d \<and> cte_runs d' = cte_runs d
     \<and> (sent \<noteq> [] \<longrightarrow> (\<exists>r. select_decision d SelectDecisionBind tid did = Some r
          \<and> authorises rt now r key inputs (fst (ResolveFacts rt search clk (Some d) tid key inputs))))"
proof -
  have v: "fst (ValidateAndBindDecision env rt search clk now (Some d) tid did key inputs)" if "sent \<noteq> []"
    using that assms by (auto simp: execute_def split: if_splits prod.splits bool.splits)
  show ?thesis
    using assms v unfolding ValidateAndBind_row
    by (auto simp: execute_def Execute_def split: if_splits prod.splits bool.splits)
qed

lemma perform_no_pool: "find_operation None tid key = no_op"
  by (simp add: find_operation_def)

lemma execute_no_db: "execute env rt search net clk now None tid key did inputs = (resp, pool', sent) \<Longrightarrow> pool' = None \<and> sent = []"
  by (auto simp: execute_def Execute_def perform_no_pool perform_def no_op_def split: if_splits prod.splits bool.splits)

section \<open>The invariant\<close>

text \<open>A stored decision is the outcome of an evaluation made at some earlier time.\<close>

definition genuine :: "services \<Rightarrow> int \<Rightarrow> decision_row \<Rightarrow> bool" where
  "genuine sv now r \<longleftrightarrow> (\<exists>t d0 key inputs facts. t \<le> now \<and>
     r = decision_row_of (sv_rt sv) (dc_id r) (dc_tenant r)
           (Evaluate (sv_rego sv) t (Some d0) (dc_tenant r) key inputs facts))"

definition backed :: "services \<Rightarrow> db \<Rightarrow> sent_event \<Rightarrow> bool" where
  "backed sv d s \<longleftrightarrow> (\<exists>r \<in> set (decisions d). dc_id r = se_decision s
     \<and> (rls_applies d \<longrightarrow> dc_tenant r = se_tenant s) \<and> genuine sv (se_time s) r
     \<and> authorises (sv_rt sv) (se_time s) r (se_action s) (se_inputs s) (se_facts s))"

definition sound :: "services \<Rightarrow> world \<Rightarrow> bool" where
  "sound sv w \<longleftrightarrow>
     (case w_pool w of
        None \<Rightarrow> w_sent w = []
      | Some d \<Rightarrow> (\<forall>r \<in> set (decisions d). genuine sv (w_now w) r) \<and> (\<forall>s \<in> set (w_sent w). backed sv d s))"

lemma genuine_mono: "genuine sv now r \<Longrightarrow> now \<le> now' \<Longrightarrow> genuine sv now' r"
  unfolding genuine_def by (meson order_trans)

lemma backed_mono:
  "backed sv d s \<Longrightarrow> set (decisions d) \<subseteq> set (decisions d') \<Longrightarrow> rls_applies d' = rls_applies d \<Longrightarrow> backed sv d' s"
  by (auto simp: backed_def)

lemma decision_row_ids [simp]: "dc_id (decision_row_of rt i t dec) = i" "dc_tenant (decision_row_of rt i t dec) = t"
  by (simp_all add: decision_row_of_def)

lemma sound_preflight:
  assumes "sound sv w" "preflight (sv_rt sv) (sv_search sv) (sv_rego sv) clk (w_now w) fresh (w_pool w) tid key inputs = (resp, pool')"
  shows "sound sv (w\<lparr> w_pool := pool' \<rparr>)"
proof (cases "w_pool w")
  case None
  then show ?thesis using assms preflight_no_db by (auto simp: sound_def dest!: arg_cong [of _ _ snd])
next
  case (Some d)
  let ?dec = "Evaluate (sv_rego sv) (w_now w) (Some d) tid key inputs
      (fst (ResolveFacts (sv_rt sv) (sv_search sv) clk (Some d) tid key inputs))"
  from preflight_db [OF assms(2) [unfolded Some]]
  consider "pool' = Some d" | "pool' = Some (add_decision d (decision_row_of (sv_rt sv) fresh tid ?dec))" by auto
  then show ?thesis
  proof cases
    case 2
    have "genuine sv (w_now w) (decision_row_of (sv_rt sv) fresh tid ?dec)"
      unfolding genuine_def by (auto intro!: exI [of _ "w_now w"])
    then show ?thesis
      using assms(1) Some 2 by (auto simp: sound_def intro: backed_mono)
  qed (use assms(1) Some in \<open>simp add: sound_def\<close>)
qed

lemma sound_execute:
  assumes "sound sv w"
    and ex: "execute (sv_env sv) (sv_rt sv) (sv_search sv) (sv_net sv) clk (w_now w) (w_pool w) tid key did inputs
       = (resp, pool', sent)"
  shows "sound sv (w\<lparr> w_pool := pool', w_sent := w_sent w @ map (sent_by sv clk (w_now w) (w_pool w) tid key did inputs) sent \<rparr>)"
proof (cases "w_pool w")
  case None
  then show ?thesis using assms execute_no_db by (fastforce simp: sound_def)
next
  case (Some d)
  from execute_db [OF ex [unfolded Some]] obtain d' where
    d': "pool' = Some d'" "decisions d' = decisions d" "rls_applies d' = rls_applies d"
    and auth: "sent \<noteq> [] \<Longrightarrow> \<exists>r. select_decision d SelectDecisionBind tid did = Some r
          \<and> authorises (sv_rt sv) (w_now w) r key inputs (fst (ResolveFacts (sv_rt sv) (sv_search sv) clk (Some d) tid key inputs))"
    by blast
  have "backed sv d' (sent_by sv clk (w_now w) (w_pool w) tid key did inputs rq)" if "rq \<in> set sent" for rq
  proof -
    from that auth obtain r where r: "select_decision d SelectDecisionBind tid did = Some r"
      and a: "authorises (sv_rt sv) (w_now w) r key inputs (fst (ResolveFacts (sv_rt sv) (sv_search sv) clk (Some d) tid key inputs))"
      by (cases sent) auto
    have "genuine sv (w_now w) r" using select_decision_row [OF r] assms(1) Some by (auto simp: sound_def)
    then show ?thesis
      using select_decision_row [OF r] a Some d' by (auto simp: backed_def sent_by_def)
  qed
  then show ?thesis
    using assms(1) Some d' by (auto simp: sound_def intro: backed_mono)
qed

lemma sound_step: "step sv w w' \<Longrightarrow> sound sv w \<Longrightarrow> sound sv w'"
proof (induction rule: step.induct)
  case (configure_step w d d')
  then show ?case by (auto simp: sound_def reconfigured_def intro: backed_mono)
next
  case (time_step w now')
  then show ?case by (auto simp: sound_def intro: genuine_mono split: option.splits)
qed (auto intro: sound_preflight sound_execute)

lemma sound_reachable: "reachable sv w0 w \<Longrightarrow> sound sv w0 \<Longrightarrow> sound sv w"
  by (induction rule: reachable.induct) (auto intro: sound_step)

lemma sound_initial: "initial w \<Longrightarrow> sound sv w"
  by (auto simp: initial_def sound_def split: option.splits)

section \<open>Properties of the service\<close>

text \<open>C1: No side effect without an approval.  In every state the service can reach from an empty log,
  through any interleaving of preflights, executions, configuration changes and the passing of time,
  every request that was sent is backed by a stored decision: made earlier by evaluating the policy
  for the same action (and, under row level security, the same tenant), with an allowing status, not
  expired when the request was sent, and bound by its hash to the inputs and facts of that moment.
  The digest is assumed never to be empty.\<close>

theorem sent_requests_authorised:
  assumes "initial w0" "reachable sv w0 w" "s \<in> set (w_sent w)"
    and "\<And>x. sha256 (sv_rt sv) x \<noteq> []"
  shows "\<exists>d r t d0 inputs facts. w_pool w = Some d \<and> r \<in> set (decisions d) \<and> dc_id r = se_decision s
     \<and> (rls_applies d \<longrightarrow> dc_tenant r = se_tenant s)
     \<and> t \<le> se_time s \<and> \<not> expired (se_time s) (dc_expires r)
     \<and> (let dec = Evaluate (sv_rego sv) t (Some d0) (dc_tenant r) (se_action s) inputs facts
        in r = decision_row_of (sv_rt sv) (dc_id r) (dc_tenant r) dec \<and> executable_status (dec_Status dec)
           \<and> binding_hash (sv_rt sv) (se_inputs s) (se_facts s) (dec_PolicyVersion dec)
             = binding_hash (sv_rt sv) inputs facts (dec_PolicyVersion dec))"
proof -
  have snd: "sound sv w" using sound_reachable sound_initial assms(1,2) by blast
  then obtain d where d: "w_pool w = Some d" and b: "backed sv d s"
    using assms(3) by (auto simp: sound_def split: option.splits)
  from b obtain r where r: "r \<in> set (decisions d)" "dc_id r = se_decision s" "rls_applies d \<longrightarrow> dc_tenant r = se_tenant s"
    "genuine sv (se_time s) r" and a: "authorises (sv_rt sv) (se_time s) r (se_action s) (se_inputs s) (se_facts s)"
    by (auto simp: backed_def)
  from r(4) obtain t d0 key inputs facts where g: "t \<le> se_time s"
    "r = decision_row_of (sv_rt sv) (dc_id r) (dc_tenant r) (Evaluate (sv_rego sv) t (Some d0) (dc_tenant r) key inputs facts)"
    by (auto simp: genuine_def)
  let ?dec = "Evaluate (sv_rego sv) t (Some d0) (dc_tenant r) key inputs facts"
  have row: "dc_action r = key" "dc_status r = status_string (dec_Status ?dec)" "dc_version r = dec_PolicyVersion ?dec"
    "dc_hash r = Some (binding_hash (sv_rt sv) inputs facts (dec_PolicyVersion ?dec))"
    by (subst g(2); simp add: decision_row_of_def Evaluate_fields)+
  have "binding_hash (sv_rt sv) inputs facts (dec_PolicyVersion ?dec) \<noteq> []"
    using assms(4) by (auto simp: binding_hash_def hex_encode_def hex_byte_def neq_Nil_conv)
  then show ?thesis
    using d r(1-3) g a row by (intro exI [of _ d] exI [of _ r] exI [of _ t] exI [of _ d0] exI [of _ inputs] exI [of _ facts])
      (auto simp: authorises_def Let_def)
qed

text \<open>C20: Decisions are immutable.  Once an id names a stored decision, it names the same decision in every
  later state, whatever the service and its configuration do.\<close>

theorem stored_decision_stable:
  assumes "reachable sv w w'" "w_pool w = Some d" "decision_by_id d i = Some r"
  shows "\<exists>d'. w_pool w' = Some d' \<and> decision_by_id d' i = Some r"
  using assms
proof (induction rule: reachable.induct)
  case (more w1 w2)
  then obtain d1 where d1: "w_pool w1 = Some d1" "decision_by_id d1 i = Some r" by blast
  from more.hyps(2) show ?case
  proof (cases rule: step.cases)
    case (preflight_step fresh clk tid key inputs resp pool')
    then show ?thesis
      using d1 preflight_db [of "sv_rt sv" "sv_search sv" "sv_rego sv" clk "w_now w1" fresh d1 tid key inputs resp pool']
        decision_table.get_ins_stable [OF _ d1(2)] by (auto simp: unused_id_def)
  next
    case (execute_step clk tid key did inputs resp pool' sent)
    then show ?thesis
      using d1 execute_db [of "sv_env sv" "sv_rt sv" "sv_search sv" "sv_net sv" clk "w_now w1" d1 tid key did inputs resp pool' sent]
      by (auto simp: decision_by_id_def)
  qed (use d1 in \<open>auto simp: reconfigured_def decision_by_id_def\<close>)
qed simp

text \<open>The rows the service writes: a decision that was made (requests for more input are answered, not stored), with
  a hash, an expiry and the texts of inputs and facts.\<close>

definition well_formed_decision :: "decision_row \<Rightarrow> bool" where
  "well_formed_decision r \<longleftrightarrow> dc_status r \<in> {''ALLOW'', ''ALLOW_WITH_CONDITIONS'', ''BLOCKED''}
     \<and> dc_hash r \<noteq> None \<and> dc_expires r \<noteq> None \<and> dc_inputs r \<noteq> [] \<and> dc_facts r \<noteq> []"

lemma well_formed_preflight:
  assumes "preflight rt search rego clk now fresh (Some d) tid key inputs = (resp, pool')" "list_all well_formed_decision (decisions d)"
  shows "\<exists>d'. pool' = Some d' \<and> list_all well_formed_decision (decisions d')"
proof -
  let ?dec = "Evaluate rego now (Some d) tid key inputs (fst (ResolveFacts rt search clk (Some d) tid key inputs))"
  have "status_string (dec_Status ?dec) \<in> {''ALLOW'', ''ALLOW_WITH_CONDITIONS'', ''BLOCKED''}" if "dec_Status ?dec \<noteq> NeedsInput"
    using that by (cases "dec_Status ?dec") simp_all
  then have "well_formed_decision (decision_row_of rt fresh tid ?dec)" if "insert_decision_ok rt d tid ?dec" "dec_Status ?dec \<noteq> NeedsInput"
    using that Evaluate_fields(5) by (simp add: decision_row_of_def well_formed_decision_def insert_decision_ok_def)
  then show ?thesis using preflight_db [OF assms(1)] assms(2) by (auto simp: add_decision_def)
qed

text \<open>C21: Stored decisions are well-formed.  In every state the service and its configuration can reach, each stored decision
  has one of the three final statuses, a hash, an expiry and the texts of its inputs and facts: a request
  for more input never becomes a decision that could be executed.\<close>

theorem stored_decisions_well_formed:
  assumes "reachable sv w0 w" "w_pool w0 = Some d0" "list_all well_formed_decision (decisions d0)"
  shows "\<exists>d. w_pool w = Some d \<and> list_all well_formed_decision (decisions d)"
  using assms
proof (induction rule: reachable.induct)
  case (more w1 w2)
  then obtain d1 where d1: "w_pool w1 = Some d1" "list_all well_formed_decision (decisions d1)" by blast
  from more.hyps(2) show ?case
  proof (cases rule: step.cases)
    case (preflight_step fresh clk tid key inputs resp pool')
    then show ?thesis using well_formed_preflight [OF _ d1(2)] d1(1) by simp
  next
    case (execute_step clk tid key did inputs resp pool' sent)
    then show ?thesis
      using d1 execute_db [of "sv_env sv" "sv_rt sv" "sv_search sv" "sv_net sv" clk "w_now w1" d1 tid key did inputs resp pool' sent]
      by auto
  qed (use d1 in \<open>auto simp: reconfigured_def\<close>)
qed simp

text \<open>A run: tenant \<open>t2\<close> asks for approval, then executes.\<close>

definition start_db :: db where
  "start_db = exec_db\<lparr> decisions := [], tenants := [demo_tenant_row\<lparr> tn_id := ''t2'' \<rparr>] \<rparr>"

definition demo_sv :: services where
  "demo_sv = \<lparr> sv_env = (\<lambda>_. []), sv_rt = demo_rt, sv_search = demo_search, sv_rego = demo_rego, sv_net = demo_net \<rparr>"

definition pre_dec :: Decision where
  "pre_dec = Evaluate demo_rego 0 (Some start_db) ''t2'' ''shop.cancel'' demo_input (Some [])"

definition approved_db :: db where
  "approved_db = add_decision start_db (decision_row_of demo_rt ''d1'' ''t2'' pre_dec)"

definition clk0 :: clock where "clk0 = (\<lambda>_. (0, 0))"

lemma start_db_fields [simp]:
  "faults start_db = (\<lambda>_. False)" "rls_applies start_db" "cte_runs start_db" "text_as_uuid start_db"
  "decisions start_db = []" "executions start_db = []" "resolvers start_db = []"
  "mappings start_db = [demo_mapping ''t1'' ''inputs'' True]" "tenants start_db = [demo_tenant_row\<lparr> tn_id := ''t2'' \<rparr>]"
  "policy_versions start_db = [demo_policy ''t1'' 1 ''deny'', demo_policy ''t2'' 2 ''allow'']"
  "operations start_db = operations exec_db" "definitions start_db = definitions exec_db"
  by (simp_all add: start_db_def exec_db_def decided_db_def add_decision_def policy_db_def demo_db_def empty_db_def)

lemma start_facts: "ResolveFacts demo_rt demo_search clk (Some start_db) ''t2'' ''shop.cancel'' inputs = (Some [], None)"
  by (simp add: ResolveFacts_def loadResolvers_def loadMappings_def run_rows_def rls_rows_tenant demo_mapping_def)

lemma start_lookup: "lookup_policy (Some start_db) ''t2'' ''shop.cancel'' = (''allow'', 2)"
  by (simp add: lookup_policy_def run_rows_def rls_rows_cte demo_policy_def published_rows_def)

lemma pre_dec_fields:
  "dec_ActionKey pre_dec = ''shop.cancel''" "dec_Inputs pre_dec = demo_input" "dec_Facts pre_dec = Some []"
  "dec_PolicyVersion pre_dec = 2" "dec_Status pre_dec = Allow" "dec_ExpiresAt pre_dec = Some 60000000000"
proof -
  have "ttl_duration (f64_of_int 60) = 60000000000"
    using f64_of_int_to_int64 [of 60] ttl_wrap_exact [of 60] by (simp add: ttl_duration_def second_ns_def)
  then show "dec_ActionKey pre_dec = ''shop.cancel''" "dec_Inputs pre_dec = demo_input" "dec_Facts pre_dec = Some []"
    "dec_PolicyVersion pre_dec = 2" "dec_Status pre_dec = Allow" "dec_ExpiresAt pre_dec = Some 60000000000"
    using f64_of_int_to_int64 [of 60]
    by (simp_all add: pre_dec_def Evaluate_fields start_lookup Evaluate_def demo_rego_def rego_value_def
        mget_def as_str_def as_float_def parse_status_def)
qed

lemma demo_preflight:
  "snd (preflight demo_rt demo_search demo_rego clk0 0 ''d1'' (Some start_db) ''t2'' ''shop.cancel'' demo_input) = Some approved_db"
proof -
  have "insert_decision_ok demo_rt start_db ''t2'' pre_dec"
    by (simp add: insert_decision_ok_def store_simps tenant_visible_def mustJSON_def pre_dec_fields demo_input_def
        any_of_map_def json_text_def json_members_def Let_def)
  then show ?thesis
    by (simp add: preflight_def Let_def start_facts pre_dec_def [symmetric] pre_dec_fields PersistDecision_def
        approved_db_def add_decision_def)
qed

lemma approved_facts: "ResolveFacts demo_rt demo_search clk (Some approved_db) ''t2'' ''shop.cancel'' inputs = (Some [], None)"
  by (simp add: approved_db_def start_facts)

lemma approved_authorises:
  "fst (ValidateAndBindDecision env demo_rt demo_search clk 0 (Some approved_db) ''t2'' ''d1'' ''shop.cancel'' demo_input)"
proof -
  have "select_decision approved_db SelectDecisionBind ''t2'' ''d1'' = Some (decision_row_of demo_rt ''d1'' ''t2'' pre_dec)"
    using select_added_decision [of start_db SelectDecisionBind "decision_row_of demo_rt ''d1'' ''t2'' pre_dec" "''t2''"]
    by (simp add: approved_db_def tenant_visible_def decision_ids_def)
  then show ?thesis
    unfolding ValidateAndBind_row
    by (simp add: approved_facts authorises_def decision_row_of_def pre_dec_fields allowed_status_def expired_def micros_def)
qed

lemma approved_choice: "find_operation (Some approved_db) ''t2'' ''shop.cancel'' = fst post_cancel"
proof -
  have "joined approved_db ''t2'' = joined exec_db ''t2''"
    by (simp add: joined_def approved_db_def add_decision_def)
  then show ?thesis
    by (simp add: find_operation_eq list_operations_def exec_keys exec_candidates choose_op_def exec_shorts
        approved_db_def) (simp add: add_decision_def)
qed

lemma demo_execute:
  "\<exists>resp d'. execute (\<lambda>_. []) demo_rt demo_search demo_net clk0 0 (Some approved_db) ''t2'' ''shop.cancel'' ''d1'' demo_input
     = (resp, Some d', [cancel_request])"
proof -
  have "trim_space ''d1'' \<noteq> []" by code_simp
  then show ?thesis
    using approved_authorises [of "\<lambda>_. []" clk0]
    by (auto simp: execute_def Execute_def approved_choice cancel_performed split: prod.splits bool.splits)
qed

definition w_start :: world where "w_start = \<lparr> w_pool = Some start_db, w_now = 0, w_sent = [] \<rparr>"
definition w_approved :: world where "w_approved = w_start\<lparr> w_pool := Some approved_db \<rparr>"
definition cancel_event :: sent_event where
  "cancel_event = sent_by demo_sv clk0 0 (Some approved_db) ''t2'' ''shop.cancel'' ''d1'' demo_input cancel_request"

lemma reach_approved: "reachable demo_sv w_start w_approved"
proof -
  obtain resp where "preflight demo_rt demo_search demo_rego clk0 0 ''d1'' (Some start_db) ''t2'' ''shop.cancel'' demo_input
      = (resp, Some approved_db)" using demo_preflight by (metis prod.collapse)
  then have "step demo_sv w_start (w_start\<lparr> w_pool := Some approved_db \<rparr>)"
    by (intro preflight_step [where fresh = "''d1''" and clk = clk0 and tid = "''t2''" and key = "''shop.cancel''"
          and inputs = demo_input])
       (auto simp: w_start_def demo_sv_def unused_id_def decision_ids_def)
  then show ?thesis unfolding w_approved_def by (rule more [OF start])
qed

lemma reach_sent: "\<exists>w. reachable demo_sv w_start w \<and> cancel_event \<in> set (w_sent w)"
proof -
  obtain resp d' where e: "execute (\<lambda>_. []) demo_rt demo_search demo_net clk0 0 (Some approved_db) ''t2'' ''shop.cancel'' ''d1''
      demo_input = (resp, Some d', [cancel_request])" using demo_execute by blast
  then have "step demo_sv w_approved (w_approved\<lparr> w_pool := Some d', w_sent := w_sent w_approved @
      map (sent_by demo_sv clk0 (w_now w_approved) (w_pool w_approved) ''t2'' ''shop.cancel'' ''d1'' demo_input) [cancel_request] \<rparr>)"
    by (intro execute_step) (auto simp: w_approved_def w_start_def demo_sv_def)
  note more [OF reach_approved this]
  then show ?thesis
    by (rule exI [where x = "w_approved\<lparr> w_pool := Some d', w_sent := w_sent w_approved @
      map (sent_by demo_sv clk0 (w_now w_approved) (w_pool w_approved) ''t2'' ''shop.cancel'' ''d1'' demo_input) [cancel_request] \<rparr>", OF conjI])
       (simp add: cancel_event_def w_approved_def w_start_def)
qed

theorem sent_requests_authorised_witness:
  "\<exists>(d :: db) r. r \<in> set (decisions d) \<and> dc_id r = ''d1'' \<and> rq_method (se_request cancel_event) = ''POST''
     \<and> \<not> expired 0 (dc_expires r)"
proof -
  obtain w where w: "reachable demo_sv w_start w" "cancel_event \<in> set (w_sent w)" using reach_sent by blast
  have i: "initial w_start" by (simp add: initial_def w_start_def)
  have ne: "sha256 (sv_rt demo_sv) x \<noteq> []" for x by (simp add: demo_sv_def demo_rt_def)
  from sent_requests_authorised [OF i w ne] have "\<exists>(d :: db) r. r \<in> set (decisions d) \<and> dc_id r = se_decision cancel_event
      \<and> \<not> expired (se_time cancel_event) (dc_expires r)"
    by blast
  then show ?thesis by (simp add: cancel_event_def sent_by_def cancel_request_def)
qed

theorem stored_decision_stable_witness:
  "\<exists>w d. reachable demo_sv w_approved w \<and> w_pool w = Some d \<and>
     decision_by_id d ''d1'' = Some (decision_row_of demo_rt ''d1'' ''t2'' pre_dec)"
proof -
  have "step demo_sv w_approved (w_approved\<lparr> w_now := 5 \<rparr>)"
    by (rule time_step) (simp add: w_approved_def w_start_def)
  then have r: "reachable demo_sv w_approved (w_approved\<lparr> w_now := 5 \<rparr>)" by (rule more [OF start])
  show ?thesis
    using stored_decision_stable [OF r, of approved_db "''d1''" "decision_row_of demo_rt ''d1'' ''t2'' pre_dec"] r
    by (auto simp: w_approved_def w_start_def decision_by_id_def approved_db_def)
qed

theorem stored_decisions_well_formed_witness:
  "\<exists>w d. reachable demo_sv w_start w \<and> w_pool w = Some d \<and> decisions d \<noteq> [] \<and> list_all well_formed_decision (decisions d)"
  using stored_decisions_well_formed [OF reach_approved, of start_db] reach_approved
  by (auto simp: w_approved_def w_start_def approved_db_def add_decision_def)

text \<open>A decision made for inputs cannot be executed without sending them again.  If a stored decision was
  made for an object of inputs, executing with the decision id alone, as the project's README shows,
  is refused with a conflict and sends nothing.\<close>

theorem execute_without_inputs:
  assumes "PersistDecision rt fresh (Some d) tid dec = (i, None, Some d')"
    and "dec_Inputs dec = Some m" "fresh \<notin> decision_ids d" "\<not> faults d SelectDecisionBind"
    and "\<And>x y. no_collision rt x y" "\<And>x. sha256 rt x \<noteq> []"
  shows "\<exists>prob. execute env rt search net clk now (Some d') tid key i None = (Conflict prob, Some d', [])"
proof -
  let ?fa = "fst (ResolveFacts rt search clk (Some d') tid key None)"
  from assms(1) have d': "d' = add_decision d (decision_row_of rt fresh tid dec)" and i: "i = fresh"
    and ok: "insert_decision_ok rt d tid dec" by (auto simp: PersistDecision_ok)
  have sel: "select_decision d' SelectDecisionBind tid i = Some (decision_row_of rt fresh tid dec)"
    using select_added_decision [of d SelectDecisionBind "decision_row_of rt fresh tid dec" tid]
      insert_ok_visible [OF ok] assms(3,4) by (simp add: d' i)
  have "mustJSON rt None \<noteq> mustJSON rt (dec_Inputs dec)"
    using json_text_map [of rt m] by (simp add: assms(2) mustJSON_def any_of_map_def json_text_nil_map)
  then have "binding_hash rt (dec_Inputs dec) (dec_Facts dec) v \<noteq> binding_hash rt None ?fa v" for v
    using binding_hash_inject [OF assms(5)] by metis
  moreover have "binding_hash rt (dec_Inputs dec) (dec_Facts dec) v \<noteq> []" for v
    using assms(6) by (auto simp: binding_hash_def hex_encode_def hex_byte_def neq_Nil_conv)
  ultimately have "\<not> fst (ValidateAndBindDecision env rt search clk now (Some d') tid i key None)"
    unfolding ValidateAndBind_row sel by (auto simp: authorises_def decision_row_of_def)
  then show ?thesis
    by (auto simp: execute_def split: prod.splits bool.splits)
qed

theorem execute_without_inputs_witness:
  "\<exists>prob. execute (\<lambda>_. []) demo_rt demo_search demo_net clk0 0 (Some approved_db) ''t2'' ''shop.cancel'' ''d1'' None
     = (Conflict prob, Some approved_db, [])"
proof (rule execute_without_inputs)
  show "PersistDecision demo_rt ''d1'' (Some start_db) ''t2'' pre_dec = (''d1'', None, Some approved_db)"
    unfolding PersistDecision_ok approved_db_def
    by (simp add: insert_decision_ok_def store_simps tenant_visible_def mustJSON_def pre_dec_fields demo_input_def
        any_of_map_def json_text_def json_members_def Let_def)
  show "dec_Inputs pre_dec = Some [(''id'', VStr ''7/8''), (''who'', VMap [(''name'', VStr ''Ann'')])]"
    by (simp add: pre_dec_fields demo_input_def)
qed (auto simp: decision_ids_def no_collision_def demo_rt_def)

text \<open>Missing required facts do not stop anything.  When no policy is published for the action, preflight
  approves it and hands out a decision id even if resolving the required facts failed.\<close>

theorem preflight_ignores_facts_error:
  assumes "snd (ResolveFacts rt search clk (Some d) tid key inputs) = Some err"
    and "fst (lookup_policy (Some d) tid key) = []"
    and "insert_decision_ok rt d tid (Evaluate rego now (Some d) tid key inputs
           (fst (ResolveFacts rt search clk (Some d) tid key inputs)))"
  shows "pr_status (fst (preflight rt search rego clk now fresh (Some d) tid key inputs)) = ''ALLOW''
    \<and> pr_decision_id (fst (preflight rt search rego clk now fresh (Some d) tid key inputs)) = Some fresh"
proof -
  have "dec_Status (Evaluate rego now (Some d) tid key inputs fa) = Allow" for fa
    using assms(2) by (auto simp: Evaluate_def Let_def split: prod.splits)
  then show ?thesis
    using assms(3) by (simp add: preflight_def Let_def PersistDecision_def decision_response_def status_only_def)
qed

theorem preflight_ignores_facts_error_witness:
  "pr_status (fst (preflight demo_rt (\<lambda>_ _. Inl ''no match'') demo_rego clk0 0 ''d1''
      (Some (start_db\<lparr>policy_versions := []\<rparr>)) ''t1'' ''shop.cancel'' None)) = ''ALLOW''"
proof -
  let ?d = "start_db\<lparr>policy_versions := []\<rparr>"
  have f: "ResolveFacts demo_rt (\<lambda>_ _. Inl ''no match'') clk0 (Some ?d) ''t1'' ''shop.cancel'' None = (None, Some ''no match'')"
    by (simp add: ResolveFacts_def loadResolvers_def loadMappings_def run_rows_def rls_rows_tenant demo_mapping_def
        scan_mapping_def eval_mapping_def)
  have l: "lookup_policy (Some ?d) ''t1'' ''shop.cancel'' = ([], 0)"
    by (simp add: lookup_policy_def run_rows_def rls_rows_cte published_rows_def)
  have "insert_decision_ok demo_rt ?d ''t1'' (Evaluate demo_rego 0 (Some ?d) ''t1'' ''shop.cancel'' None None)"
    by (simp add: insert_decision_ok_def store_simps tenant_visible_def mustJSON_def Evaluate_fields any_of_map_def json_text_nil_map)
  with preflight_ignores_facts_error [of demo_rt "\<lambda>_ _. Inl ''no match''" clk0 ?d "''t1''" "''shop.cancel''" None "''no match''" demo_rego 0 "''d1''"]
  show ?thesis by (simp add: f l)
qed

lemma preflight_approves:
  assumes "preflight rt search rego clk now fresh (Some d) tid key inputs = (resp, Some d')"
    and "pr_decision_id resp = Some i" "i \<noteq> []"
  obtains dec where "dec = Evaluate rego now (Some d) tid key inputs (fst (ResolveFacts rt search clk (Some d) tid key inputs))"
    and "executable_status (dec_Status dec)" "i = fresh" "insert_decision_ok rt d tid dec"
    and "d' = add_decision d (decision_row_of rt fresh tid dec)" "pr_expires_at resp = dec_ExpiresAt dec"
proof -
  let ?dec = "Evaluate rego now (Some d) tid key inputs (fst (ResolveFacts rt search clk (Some d) tid key inputs))"
  have "executable_status (dec_Status ?dec) \<and> i = fresh \<and> insert_decision_ok rt d tid ?dec
      \<and> d' = add_decision d (decision_row_of rt fresh tid ?dec) \<and> pr_expires_at resp = dec_ExpiresAt ?dec"
    using assms by (cases "dec_Status ?dec")
      (auto simp: preflight_def Let_def PersistDecision_def decision_response_def status_only_def executable_status_def
        add_decision_def split: if_splits)
  then show ?thesis using that by blast
qed

text \<open>C3: An approved action can be executed.  If a preflight handed out a decision id, then executing the same
  action with the same inputs before the announced expiry, while the facts still are what they were, is
  not refused: the action is performed, and its result is returned.\<close>

theorem approved_action_executes:
  assumes "preflight rt search rego clk now fresh (Some d) tid key inputs = (resp, Some d')"
    and "pr_decision_id resp = Some i" "trim_space i \<noteq> []" "fresh \<notin> decision_ids d" "\<not> faults d SelectDecisionBind"
    and "\<And>e. pr_expires_at resp = Some e \<Longrightarrow> now' \<le> micros e"
    and "fst (ResolveFacts rt search clk' (Some d) tid key inputs) = fst (ResolveFacts rt search clk (Some d) tid key inputs)"
  shows "\<exists>d''. execute env rt search net clk' now' (Some d') tid key i inputs =
     (Done (fst (perform env rt net (find_operation (Some d') tid key) inputs)), Some d'',
      snd (perform env rt net (find_operation (Some d') tid key) inputs))"
proof -
  have "i \<noteq> []" using assms(3) by (auto simp: trim_space_id)
  with assms(1,2) obtain dec where
    dec: "dec = Evaluate rego now (Some d) tid key inputs (fst (ResolveFacts rt search clk (Some d) tid key inputs))"
    and st: "executable_status (dec_Status dec)" and i: "i = fresh" and ok: "insert_decision_ok rt d tid dec"
    and d': "d' = add_decision d (decision_row_of rt fresh tid dec)" and e: "pr_expires_at resp = dec_ExpiresAt dec"
    by (rule preflight_approves)
  have sel: "select_decision d' SelectDecisionBind tid i = Some (decision_row_of rt fresh tid dec)"
    using select_added_decision [of d SelectDecisionBind "decision_row_of rt fresh tid dec" tid]
      insert_ok_visible [OF ok] assms(4,5) by (simp add: d' i)
  have f: "dec_ActionKey dec = key" "dec_Inputs dec = inputs"
    "dec_Facts dec = fst (ResolveFacts rt search clk' (Some d) tid key inputs)"
    unfolding dec by (simp_all add: Evaluate_fields assms(7))
  have "\<not> expired now' (map_option micros (dec_ExpiresAt dec))"
    using assms(6) e by (cases "dec_ExpiresAt dec") (auto simp: expired_def not_less)
  then have "fst (ValidateAndBindDecision env rt search clk' now' (Some d') tid i key inputs)"
    unfolding ValidateAndBind_row sel by (simp add: authorises_def decision_row_of_def st f d')
  then show ?thesis using assms(3)
    by (auto simp: execute_def Execute_def split: prod.splits bool.splits)
qed

theorem approved_action_executes_witness:
  "\<exists>d'' res. execute (\<lambda>_. []) demo_rt demo_search demo_net clk0 60000000000 (Some approved_db) ''t2'' ''shop.cancel'' ''d1'' demo_input
     = (Done res, Some d'', [cancel_request])"
proof -
  obtain resp where r: "preflight demo_rt demo_search demo_rego clk0 0 ''d1'' (Some start_db) ''t2'' ''shop.cancel'' demo_input
      = (resp, Some approved_db)" using demo_preflight by (metis prod.collapse)
  have "insert_decision_ok demo_rt start_db ''t2'' pre_dec"
    by (simp add: insert_decision_ok_def store_simps tenant_visible_def mustJSON_def pre_dec_fields demo_input_def
        any_of_map_def json_text_def json_members_def Let_def)
  then have "resp = decision_response pre_dec ''d1''"
    using arg_cong [OF r, of fst]
    by (simp add: preflight_def Let_def start_facts pre_dec_def [symmetric] pre_dec_fields PersistDecision_def)
  then have i: "pr_decision_id resp = Some ''d1''" "pr_expires_at resp = Some 60000000000"
    by (simp_all add: decision_response_def pre_dec_fields status_only_def)
  have t: "trim_space ''d1'' \<noteq> []" by code_simp
  from approved_action_executes [OF r i(1) t, of 60000000000 clk0 "\<lambda>_. []" demo_net] i(2) show ?thesis
    by (auto simp: decision_ids_def micros_def approved_choice cancel_performed)
qed

end
