(* ===== verification/Admin_Policies.thy ===== *)
theory Admin_Policies
  imports Policy_HTTP
begin

text \<open>
  \<^verbatim>\<open>internal/adminapi/handlers_policies.go\<close>: drafting, publishing and reading the versions of a policy,
  compiling, dry-running and test-executing one.  A handler receives the tenant the authentication
  put into the context, the decoded body (\<^const>\<open>None\<close> if decoding failed) and the query and path
  parameters; the compiler of the policy engine is a parameter.
\<close>

section \<open>Responses\<close>

text \<open>An error text, a JSON object, or a status whose body could not be encoded: \<^verbatim>\<open>writeJSON\<close> writes the
  status first and drops the error of the encoder.\<close>

datatype admin_response = AErr int string | AJson int kvs | AEmpty int

definition tenant_exists :: "db \<Rightarrow> string \<Rightarrow> bool" where
  "tenant_exists d tid \<longleftrightarrow> list_ex (\<lambda>r. tn_id r = tid) (tenants d)"

definition ok_json :: "kvs \<Rightarrow> admin_response" where
  "ok_json kv = AJson 200 ((''ok'', VBool True) # kv)"

definition or_blank :: "string option \<Rightarrow> string" where
  "or_blank s = (case s of None \<Rightarrow> [] | Some x \<Rightarrow> x)"

section \<open>Tenant policies\<close>

record PoliciesBody =
  pb_scopes :: "string list option"
  pb_step_up :: gomap

text \<open>Both columns are NOT NULL, and a nil slice or map is sent as NULL.\<close>

definition putPolicies :: "db \<Rightarrow> string \<Rightarrow> PoliciesBody option \<Rightarrow> admin_response \<times> db" where
  "putPolicies d tid body =
     (case body of
        None \<Rightarrow> (AErr 400 ''bad json'', d)
      | Some b \<Rightarrow>
         (case (pb_scopes b, pb_step_up b) of
            (Some sc, Some su) \<Rightarrow>
              if faults d PutPolicies \<or> \<not> tenant_exists d tid then (AErr 500 ''db error'', d)
              else (ok_json [],
                d\<lparr> tenant_policies := filter (\<lambda>r. tp_tenant r \<noteq> tid) (tenant_policies d)
                     @ [\<lparr> tp_tenant = tid, tp_scopes = sc, tp_step_up = VMap su \<rparr>] \<rparr>)
          | _ \<Rightarrow> (AErr 500 ''db error'', d)))"

section \<open>Reading versions\<close>

definition versions_seen :: "db \<Rightarrow> stmt \<Rightarrow> string \<Rightarrow> string \<Rightarrow> policy_version_row list option" where
  "versions_seen d st tid key =
     map_option (filter (\<lambda>r. pv_action r = key)) (run_rows d st (ViaCte tid) pv_tenant (policy_versions d))"

text \<open>The checks \<^verbatim>\<open>getPolicyVersion\<close> and \<^verbatim>\<open>publishPolicyVersion\<close> share: the trimmed action key and the number.\<close>

definition version_params :: "string \<Rightarrow> string \<Rightarrow> string + string \<times> int" where
  "version_params keyParam verStr =
     (if trim_space keyParam = [] then Inl ''missing action_key''
      else if trim_space verStr = [] then Inl ''missing version''
      else (case atoi verStr of None \<Rightarrow> Inl ''bad version'' | Some v \<Rightarrow> Inr (trim_space keyParam, v)))"

definition getPolicyVersion :: "db \<Rightarrow> string \<Rightarrow> string \<Rightarrow> string \<Rightarrow> admin_response" where
  "getPolicyVersion d tid keyParam verStr =
     (case version_params keyParam verStr of
        Inl e \<Rightarrow> AErr 400 e
      | Inr (key, v) \<Rightarrow>
         (case (if int4 v then versions_seen d SelectPolicyVersion tid key else None) of
            None \<Rightarrow> AErr 404 ''not found''
          | Some rows \<Rightarrow>
             (case find (\<lambda>r. pv_version r = v) rows of
                None \<Rightarrow> AErr 404 ''not found''
              | Some r \<Rightarrow> AJson 200 [(''version'', VInt v), (''status'', VStr (pv_status r)), (''code'', VStr (or_blank (pv_rego r)))])))"

definition no_active :: admin_response where
  "no_active = AJson 200 [(''version'', VInt 0), (''status'', VStr ''none''), (''code'', VStr [])]"

definition getActivePolicy :: "db \<Rightarrow> string \<Rightarrow> string \<Rightarrow> admin_response" where
  "getActivePolicy d tid keyParam =
     (let key = trim_space keyParam in
      if key = [] then AErr 400 ''missing action_key''
      else (case run_rows d ActivePolicy (ViaCte tid) pv_tenant (policy_versions d) of
              None \<Rightarrow> no_active
            | Some rows \<Rightarrow>
               (case newest (published_rows key rows) of
                  None \<Rightarrow> no_active
                | Some r \<Rightarrow>
                    if pv_version r = 0 then no_active
                    else AJson 200 [(''version'', VInt (pv_version r)), (''status'', VStr ''published''),
                           (''code'', VStr (or_blank (pv_rego r)))])))"

text \<open>\<^verbatim>\<open>ORDER BY version DESC\<close>; the time of the last change is left out.\<close>

definition listPolicyVersions :: "db \<Rightarrow> string \<Rightarrow> string \<Rightarrow> admin_response" where
  "listPolicyVersions d tid keyParam =
     (let key = trim_space keyParam in
      if key = [] then AErr 400 ''missing action_key''
      else (case map_option (filter (\<lambda>r. pv_action r = key))
                (query_rows d ListPolicyVersions (ViaCte tid) pv_tenant (policy_versions d)) of
              None \<Rightarrow> AErr 500 ''db error''
            | Some rows \<Rightarrow> AJson 200 [(''items'', VArr (map (\<lambda>r. VMap [(''version'', VInt (pv_version r)), (''status'', VStr (pv_status r))])
                  (rev (sort_key pv_version rows))))]))"

section \<open>Drafting and publishing\<close>

record PolicyVersionBody =
  vb_ActionKey :: string
  vb_Version :: "int option"
  vb_Code :: string

text \<open>\<^verbatim>\<open>COALESCE(MAX(version)+1,1)\<close> with errors dropped (no rows to be seen, or the sum out of range), and
  the correction of 0 that follows.\<close>

definition next_version :: "db \<Rightarrow> string \<Rightarrow> string \<Rightarrow> int" where
  "next_version d tid key =
     (case versions_seen d MaxPolicyVersion tid key of
        None \<Rightarrow> 1
      | Some [] \<Rightarrow> 1
      | Some (r # rs) \<Rightarrow>
          let v = foldl max (pv_version r) (map pv_version rs) + 1
          in if \<not> int4 v \<or> v = 0 then 1 else v)"

definition same_version :: "string \<Rightarrow> string \<Rightarrow> int \<Rightarrow> policy_version_row \<Rightarrow> bool" where
  "same_version tid key v r \<longleftrightarrow> pv_tenant r = tid \<and> pv_action r = key \<and> pv_version r = v"

definition draft_row :: "string \<Rightarrow> string \<Rightarrow> int \<Rightarrow> string \<Rightarrow> policy_version_row" where
  "draft_row tid key v cd = \<lparr> pv_tenant = tid, pv_action = key, pv_version = v, pv_rego = Some cd, pv_status = ''draft'' \<rparr>"

definition upsert_draft :: "db \<Rightarrow> string \<Rightarrow> string \<Rightarrow> int \<Rightarrow> string \<Rightarrow> db option" where
  "upsert_draft d tid key v cd =
     (if faults d InsertPolicyVersion \<or> \<not> rls_can_write d (ViaCte tid) tid \<or> \<not> int4 v \<or> \<not> tenant_exists d tid then None
      else if list_ex (same_version tid key v) (policy_versions d)
      then Some (d\<lparr> policy_versions := map (\<lambda>r. if same_version tid key v r
             then r\<lparr> pv_rego := Some cd, pv_status := ''draft'' \<rparr> else r) (policy_versions d) \<rparr>)
      else Some (d\<lparr> policy_versions := policy_versions d @ [draft_row tid key v cd] \<rparr>))"

definition createPolicyVersion ::
  "(string \<Rightarrow> string option) \<Rightarrow> db \<Rightarrow> string \<Rightarrow> PolicyVersionBody option \<Rightarrow> admin_response \<times> db" where
  "createPolicyVersion rc d tid body =
     (case body of
        None \<Rightarrow> (AErr 400 ''bad json'', d)
      | Some b \<Rightarrow>
          if trim_space (vb_Code b) = [] \<or> trim_space (vb_ActionKey b) = [] then (AErr 400 ''bad json'', d)
          else (case rc (vb_Code b) of
                  Some err \<Rightarrow> (AJson 400 [(''ok'', VBool False), (''errors'', VStr err)], d)
                | None \<Rightarrow>
                    let ver = (case vb_Version b of Some v \<Rightarrow> v | None \<Rightarrow> next_version d tid (vb_ActionKey b))
                    in (case upsert_draft d tid (vb_ActionKey b) ver (vb_Code b) of
                          None \<Rightarrow> (AErr 500 ''db error'', d)
                        | Some d' \<Rightarrow> (ok_json [(''version'', VInt ver)], d'))))"

text \<open>The one UPDATE behind publishing: the rows of the action, and what becomes of them.\<close>

definition of_action :: "string \<Rightarrow> string \<Rightarrow> policy_version_row \<Rightarrow> bool" where
  "of_action tid key r \<longleftrightarrow> pv_tenant r = tid \<and> pv_action r = key"

definition publish_rows :: "string \<Rightarrow> string \<Rightarrow> int \<Rightarrow> policy_version_row list \<Rightarrow> policy_version_row list" where
  "publish_rows tid key v rows =
     map (\<lambda>r. if of_action tid key r
        then r\<lparr> pv_status := (if pv_version r = v then ''published'' else ''archived'') \<rparr> else r) rows"

definition publishPolicyVersion :: "db \<Rightarrow> string \<Rightarrow> string \<Rightarrow> string \<Rightarrow> admin_response \<times> db" where
  "publishPolicyVersion d tid keyParam verStr =
     (case version_params keyParam verStr of
        Inl e \<Rightarrow> (AErr 400 e, d)
      | Inr (key, v) \<Rightarrow>
          if faults d PublishPolicyVersion \<or> \<not> rls_can_write d (ViaCte tid) tid \<or> \<not> int4 v
          then (AErr 500 ''db error'', d)
          else if \<not> list_ex (of_action tid key) (policy_versions d) then (AErr 404 ''not found'', d)
          else (ok_json [(''version'', VInt v)], d\<lparr> policy_versions := publish_rows tid key v (policy_versions d) \<rparr>))"

section \<open>Compiling and trying out\<close>

definition compilePolicy :: "(string \<Rightarrow> string option) \<Rightarrow> string option \<Rightarrow> admin_response" where
  "compilePolicy rc body =
     (case body of
        None \<Rightarrow> AErr 400 ''bad json''
      | Some cd \<Rightarrow> (case rc cd of
            Some err \<Rightarrow> AJson 400 [(''ok'', VBool False), (''errors'', VStr err)]
          | None \<Rightarrow> ok_json []))"

definition eval_facts :: "runtime \<Rightarrow> jmes \<Rightarrow> clock \<Rightarrow> db \<Rightarrow> string \<Rightarrow> string \<Rightarrow> gomap \<Rightarrow> gomap" where
  "eval_facts rt search clk d tid key inputs =
     (if trim_space key = [] then Some []
      else (case ResolveFacts rt search clk (Some d) tid key inputs of
              (f, None) \<Rightarrow> f
            | (_, Some _) \<Rightarrow> Some []))"

record DryRunBody =
  dr_Code :: string
  dr_ActionKey :: string
  dr_Inputs :: gomap
  dr_Trace :: bool

definition stage :: "string \<Rightarrow> string \<Rightarrow> gval \<Rightarrow> gval" where
  "stage name member v = VMap [(''stage'', VStr name), (member, v)]"

definition upper_status :: "kvs \<Rightarrow> kvs" where
  "upper_status m = (case as_str (mget m ''status'') of Some s \<Rightarrow> AList.update ''status'' (VStr (to_upper s)) m | None \<Rightarrow> m)"

text \<open>With a trace, the object of the response is put into its own trace: the encoder finds the cycle and
  writes no body.\<close>

definition dryRunPolicy ::
  "runtime \<Rightarrow> jmes \<Rightarrow> rego \<Rightarrow> clock \<Rightarrow> db \<Rightarrow> string \<Rightarrow> DryRunBody option \<Rightarrow> admin_response" where
  "dryRunPolicy rt search rego clk d tid body =
     (case body of
        None \<Rightarrow> AErr 400 ''bad json''
      | Some b \<Rightarrow>
          let fa = eval_facts rt search clk d tid (dr_ActionKey b) (dr_Inputs b);
              rs = rego (dr_Code b) (policy_input (dr_Inputs b) fa)
          in (case rego_value rs of
                None \<Rightarrow> AJson 200 ([(''status'', VStr ''BLOCKED''), (''reasons'', VArr [VStr ''policy_error'']),
                          (''facts_preview'', any_of_map fa)]
                        @ (if dr_Trace b then [(''trace'', VArr [stage ''inputs'' ''data'' (any_of_map (dr_Inputs b)),
                             stage ''facts'' ''data'' (any_of_map fa),
                             stage ''policy'' ''error'' (VStr (case rs of Inl e \<Rightarrow> e | Inr _ \<Rightarrow> []))])] else []))
              | Some v \<Rightarrow>
                 if dr_Trace b then AEmpty 200
                 else (case as_map v of
                         Some m \<Rightarrow> AJson 200 (AList.update ''facts_preview'' (any_of_map fa) (upper_status m))
                       | None \<Rightarrow> AJson 200 [(''status'', VStr ''ALLOW''), (''facts_preview'', any_of_map fa)])))"

record TestExecuteBody =
  tx_ActionKey :: string
  tx_Inputs :: gomap
  tx_Trace :: bool

text \<open>The response of a test execution: the decision, the result, and with a trace the inputs and facts as
  well (its last two stages repeat the decision and the steps).\<close>

record test_response =
  tr_decision :: Decision
  tr_execute :: ExecuteResult
  tr_trace :: "(gomap \<times> gomap) option"

definition testExecutePolicy ::
  "environ \<Rightarrow> runtime \<Rightarrow> jmes \<Rightarrow> rego \<Rightarrow> network \<Rightarrow> clock \<Rightarrow> int \<Rightarrow> string \<Rightarrow> db \<Rightarrow> string \<Rightarrow> TestExecuteBody option
     \<Rightarrow> (admin_response + test_response) \<times> db option \<times> http_request list" where
  "testExecutePolicy env rt search rego net clk now fresh d tid body =
     (case body of
        None \<Rightarrow> (Inl (AErr 400 ''bad json''), Some d, [])
      | Some b \<Rightarrow>
          let fa = eval_facts rt search clk d tid (tx_ActionKey b) (tx_Inputs b);
              dec = Evaluate rego now (Some d) tid (tx_ActionKey b) (tx_Inputs b) fa
          in (case PersistDecision rt fresh (Some d) tid dec of
                (i, err, pool') \<Rightarrow>
                  (case Execute env rt net pool' tid (tx_ActionKey b) i (tx_Inputs b) of
                     (res, pool'', sent) \<Rightarrow>
                       (Inr \<lparr> tr_decision = dec\<lparr> dec_ID := i \<rparr>, tr_execute = res,
                          tr_trace = (if tx_Trace b then Some (tx_Inputs b, fa) else None) \<rparr>, pool'', sent))))"

section \<open>The versions of a policy\<close>

definition version_id :: "policy_version_row \<Rightarrow> string \<times> string \<times> int" where
  "version_id r = (pv_tenant r, pv_action r, pv_version r)"

definition published :: "policy_version_row \<Rightarrow> bool" where
  "published r \<longleftrightarrow> pv_status r = ''published''"

text \<open>Versions are unique, and at most one version of an action is published.\<close>

definition rivals :: "policy_version_row \<Rightarrow> policy_version_row \<Rightarrow> bool" where
  "rivals r r' \<longleftrightarrow> published r \<and> published r' \<and> pv_tenant r = pv_tenant r' \<and> pv_action r = pv_action r'"

definition versions_ok :: "policy_version_row list \<Rightarrow> bool" where
  "versions_ok rows \<longleftrightarrow> distinct (map version_id rows)
     \<and> (\<forall>r \<in> set rows. \<forall>r' \<in> set rows. rivals r r' \<longrightarrow> pv_version r = pv_version r')"

lemma same_version_id: "same_version tid key v r \<longleftrightarrow> version_id r = (tid, key, v)"
  by (simp add: same_version_def version_id_def)

lemma version_id_fields: "version_id s = version_id r \<Longrightarrow> pv_tenant s = pv_tenant r \<and> pv_action s = pv_action r \<and> pv_version s = pv_version r"
  by (simp add: version_id_def)

lemma versions_ok_map:
  assumes "versions_ok rows" "\<And>r. version_id (f r) = version_id r"
    and "\<And>r r'. rivals (f r) (f r') \<Longrightarrow> rivals r r' \<or> pv_version r = pv_version r'"
  shows "versions_ok (map f rows)"
  unfolding versions_ok_def
proof (intro conjI ballI impI)
  show "distinct (map version_id (map f rows))"
    using assms(1) by (simp add: versions_ok_def assms(2) comp_def)
  fix s s' assume "s \<in> set (map f rows)" "s' \<in> set (map f rows)" "rivals s s'"
  then obtain r r' where r: "r \<in> set rows" "r' \<in> set rows" "s = f r" "s' = f r'" "rivals (f r) (f r')" by auto
  then have "pv_version r = pv_version r'" using assms(3) [OF r(5)] assms(1) unfolding versions_ok_def by blast
  then show "pv_version s = pv_version s'" using version_id_fields [OF assms(2)] r(3,4) by metis
qed

lemma versions_ok_snoc:
  assumes "versions_ok rows" "version_id r \<notin> version_id ` set rows" "\<not> published r"
  shows "versions_ok (rows @ [r])"
  unfolding versions_ok_def
proof (intro conjI ballI impI)
  show "distinct (map version_id (rows @ [r]))" using assms(1,2) by (simp add: versions_ok_def)
  fix s s' assume "s \<in> set (rows @ [r])" "s' \<in> set (rows @ [r])" and riv: "rivals s s'"
  then have "s \<in> set rows" "s' \<in> set rows" using assms(3) unfolding rivals_def by auto
  then show "pv_version s = pv_version s'" using assms(1) riv unfolding versions_ok_def by blast
qed

lemma versions_ok_draft:
  assumes "versions_ok (policy_versions d)" "upsert_draft d tid key v cd = Some d'"
  shows "versions_ok (policy_versions d')"
proof (cases "list_ex (same_version tid key v) (policy_versions d)")
  case True
  let ?f = "\<lambda>r. if same_version tid key v r then r\<lparr> pv_rego := Some cd, pv_status := ''draft'' \<rparr> else r"
  from True assms(2) have "policy_versions d' = map ?f (policy_versions d)"
    by (auto simp: upsert_draft_def split: if_splits)
  moreover have "versions_ok (map ?f (policy_versions d))"
  proof (rule versions_ok_map [OF assms(1)])
    show "version_id (?f r) = version_id r" for r by (simp add: version_id_def)
    show "rivals r r' \<or> pv_version r = pv_version r'" if "rivals (?f r) (?f r')" for r r'
      using that by (simp add: rivals_def published_def split: if_splits)
  qed
  ultimately show ?thesis by simp
next
  case False
  with assms(2) have "policy_versions d' = policy_versions d @ [draft_row tid key v cd]"
    by (auto simp: upsert_draft_def split: if_splits)
  moreover have "version_id (draft_row tid key v cd) = (tid, key, v)" by (simp add: draft_row_def version_id_def)
  then have "version_id (draft_row tid key v cd) \<notin> version_id ` set (policy_versions d)"
    using False by (simp add: list_ex_iff same_version_id image_iff) metis
  ultimately show ?thesis
    using versions_ok_snoc [OF assms(1)] by (simp add: published_def draft_row_def)
qed

lemma versions_ok_publish:
  assumes "versions_ok rows"
  shows "versions_ok (publish_rows tid key v rows)"
  unfolding publish_rows_def
proof (rule versions_ok_map [OF assms])
  let ?f = "\<lambda>r. if of_action tid key r then r\<lparr> pv_status := (if pv_version r = v then ''published'' else ''archived'') \<rparr> else r"
  show "version_id (?f r) = version_id r" for r by (simp add: version_id_def)
  show "rivals r r' \<or> pv_version r = pv_version r'" if "rivals (?f r) (?f r')" for r r'
    using that by (cases "of_action tid key r"; cases "of_action tid key r'"; cases "pv_version r = v"; cases "pv_version r' = v")
      (auto simp: rivals_def published_def of_action_def)
qed

text \<open>The edits the admin API offers, in any order.\<close>

inductive policy_edit :: "db \<Rightarrow> db \<Rightarrow> bool" where
  draft: "createPolicyVersion rc d tid body = (resp, d') \<Longrightarrow> policy_edit d d'"
| publish: "publishPolicyVersion d tid keyParam verStr = (resp, d') \<Longrightarrow> policy_edit d d'"

lemma policy_edit_ok: "policy_edit d d' \<Longrightarrow> versions_ok (policy_versions d) \<Longrightarrow> versions_ok (policy_versions d')"
proof (induction rule: policy_edit.induct)
  case (draft rc d tid body resp d')
  then show ?case
    by (auto simp: createPolicyVersion_def Let_def split: option.splits if_splits intro: versions_ok_draft)
next
  case (publish d tid keyParam verStr resp d')
  then show ?case
    by (auto simp: publishPolicyVersion_def versions_ok_publish split: sum.splits if_splits)
qed

text \<open>C8: At most one version of an action is published, and versions stay unique, whatever sequence of drafts and
  publications the admin API receives, well-formed or not.\<close>

theorem published_version_unique:
  assumes "policy_edit\<^sup>*\<^sup>* d d'" "versions_ok (policy_versions d)"
  shows "versions_ok (policy_versions d')"
  using assms by (induction rule: rtranclp_induct) (auto intro: policy_edit_ok)

section \<open>What a publication changes for decisions\<close>

lemma lookup_rls:
  assumes "rls_applies d" "cte_runs d" "\<not> faults d LatestPolicy"
  shows "lookup_policy (Some d) tid key =
     (case newest (filter (\<lambda>r. of_action tid key r \<and> published r) (policy_versions d)) of
        None \<Rightarrow> ([], 0) | Some r \<Rightarrow> (or_blank (pv_rego r), pv_version r))"
proof -
  have "published_rows key (filter (\<lambda>r. pv_tenant r = tid) (policy_versions d))
      = filter (\<lambda>r. of_action tid key r \<and> published r) (policy_versions d)"
    by (auto simp: published_rows_def of_action_def published_def intro: filter_cong)
  then show ?thesis
    using assms by (simp add: lookup_policy_def run_rows_def rls_rows_cte or_blank_def split: option.split)
qed

lemma filter_published:
  "filter (\<lambda>r. of_action tid key r \<and> published r) (publish_rows tid key v rows)
     = map (\<lambda>r. r\<lparr> pv_status := ''published'' \<rparr>) (filter (same_version tid key v) rows)"
  by (induction rows) (auto simp: publish_rows_def published_def of_action_def same_version_def)

lemma publish_ok:
  assumes "publishPolicyVersion d tid keyParam verStr = (AJson 200 b, d')"
  obtains key v where "version_params keyParam verStr = Inr (key, v)"
    and "d' = d\<lparr> policy_versions := publish_rows tid key v (policy_versions d) \<rparr>"
  using assms by (auto simp: publishPolicyVersion_def split: sum.splits if_splits prod.splits)

lemma no_policy_allows: "lookup_policy pool tid key = ([], v) \<Longrightarrow> dec_Status (Evaluate rego now pool tid key inputs facts) = Allow"
  by (simp add: Evaluate_def)



text \<open>Saving a draft of the published version switches the policy off.  Creating a version with the number of the
  published one answers success and turns it into a draft; no version is published any more, and every
  preflight of the action is allowed.\<close>

theorem redraft_unpublishes:
  assumes "rls_applies d" "cte_runs d" "\<not> faults d LatestPolicy" "versions_ok (policy_versions d)"
    and "createPolicyVersion rc d tid (Some body) = (AJson 200 resp, d')" "vb_Version body = Some v"
    and "r \<in> set (policy_versions d)" "version_id r = (tid, vb_ActionKey body, v)" "published r"
  shows "dec_Status (Evaluate rego now (Some d') tid (vb_ActionKey body) inputs facts) = Allow"
proof -
  let ?k = "vb_ActionKey body"
  from assms(5,6) have up: "upsert_draft d tid ?k v (vb_Code body) = Some d'"
    by (auto simp: createPolicyVersion_def Let_def split: if_splits option.splits)
  have "list_ex (same_version tid ?k v) (policy_versions d)"
    using assms(7,8) by (auto simp: list_ex_iff same_version_id)
  with up have d': "d' = d\<lparr> policy_versions := map (\<lambda>r. if same_version tid ?k v r
             then r\<lparr> pv_rego := Some (vb_Code body), pv_status := ''draft'' \<rparr> else r) (policy_versions d) \<rparr>"
    by (auto simp: upsert_draft_def split: if_splits)
  have only: "same_version tid ?k v s" if "s \<in> set (policy_versions d)" "of_action tid ?k s" "published s" for s
  proof -
    have "rivals s r" using that assms(8,9) by (simp add: rivals_def of_action_def version_id_def)
    with assms(4,7) that(1) have "pv_version s = pv_version r" unfolding versions_ok_def by blast
    with that(2) assms(8) show ?thesis by (simp add: same_version_def of_action_def version_id_def)
  qed
  have "filter (\<lambda>r. of_action tid ?k r \<and> published r) (policy_versions d') = []"
    using only by (auto simp: d' filter_empty_conv of_action_def published_def split: if_splits)
  then have "lookup_policy (Some d') tid ?k = ([], 0)"
    using assms(1-3) by (subst lookup_rls) (simp_all add: d')
  then show ?thesis by (rule no_policy_allows)
qed

text \<open>A test execution ignores the decision.  The requests it sends are those of executing the action directly,
  whatever the policy engine answers: a blocked action is executed for real.\<close>

theorem test_execute_ignores_policy:
  "snd (snd (testExecutePolicy env rt search rego net clk now fresh d tid (Some b)))
     = snd (perform env rt net (find_operation (Some d) tid (tx_ActionKey b)) (tx_Inputs b))"
proof -
  have "find_operation (Some (d\<lparr> decisions := ds \<rparr>)) tid key = find_operation (Some d) tid key" for ds key
    by (simp add: find_operation_def list_operations_def joined_def)
  then show ?thesis
    by (auto simp: testExecutePolicy_def Let_def PersistDecision_def Execute_def split: prod.splits)
qed

section \<open>Demonstrations\<close>

definition shop_tenant :: tenant_row where
  "shop_tenant = \<lparr> tn_id = ''t2'', tn_slug = None, tn_host = None, tn_issuer = None, tn_jwks_url = None, tn_base_url = None,
     tn_auth_mode = None, tn_discovery_url = None, tn_audiences = None, tn_account_claim = None, tn_machine_scopes = None,
     tn_required_acr = None, tn_dpop_required = None, tn_client_user = None, tn_client_machine = None \<rparr>"

definition edit_db :: db where
  "edit_db = start_db\<lparr> tenants := [shop_tenant] \<rparr>"

lemma edit_db_fields [simp]:
  "rls_applies edit_db" "cte_runs edit_db" "faults edit_db = (\<lambda>_. False)" "tenants edit_db = [shop_tenant]"
  "policy_versions edit_db = [demo_policy ''t1'' 1 ''deny'', demo_policy ''t2'' 2 ''allow'']"
  by (simp_all add: edit_db_def)

lemma edit_db_ok: "versions_ok (policy_versions edit_db)"
  by (auto simp: versions_ok_def version_id_def rivals_def demo_policy_def)

lemma edit_params: "version_params '' shop.cancel'' ''2'' = Inr (''shop.cancel'', 2)"
  "version_params ''shop.cancel'' ''7'' = Inr (''shop.cancel'', 7)"
  by code_simp+

lemma edit_publish: "version_params k s = Inr (''shop.cancel'', v) \<Longrightarrow> int4 v \<Longrightarrow>
    publishPolicyVersion edit_db ''t2'' k s = (ok_json [(''version'', VInt v)],
      edit_db\<lparr> policy_versions := publish_rows ''t2'' ''shop.cancel'' v (policy_versions edit_db) \<rparr>)"
  by (simp add: publishPolicyVersion_def store_simps tenant_visible_def of_action_def demo_policy_def)

theorem published_version_unique_witness:
  "versions_ok (publish_rows ''t2'' ''shop.cancel'' 7 (policy_versions edit_db))"
proof -
  have "policy_edit\<^sup>*\<^sup>* edit_db (edit_db\<lparr> policy_versions := publish_rows ''t2'' ''shop.cancel'' 7 (policy_versions edit_db) \<rparr>)"
    by (rule r_into_rtranclp, rule publish, rule edit_publish [OF edit_params(2)]) (simp add: int4_def)
  from published_version_unique [OF this edit_db_ok] show ?thesis by simp
qed



theorem redraft_unpublishes_witness:
  "\<exists>d'. dec_Status (Evaluate (\<lambda>_ _. Inl ''error'') 0 (Some d') ''t2'' ''shop.cancel'' None None) = Allow
     \<and> pv_status (last (policy_versions d')) = ''draft''"
proof -
  let ?b = "\<lparr> vb_ActionKey = ''shop.cancel'', vb_Version = Some 2, vb_Code = ''x'' \<rparr>"
  let ?d = "edit_db\<lparr> policy_versions := [demo_policy ''t1'' 1 ''deny'', (demo_policy ''t2'' 2 ''allow'')\<lparr> pv_rego := Some ''x'', pv_status := ''draft'' \<rparr>] \<rparr>"
  have t: "trim_space ''x'' \<noteq> []" "trim_space ''shop.cancel'' \<noteq> []" by code_simp+
  have c: "createPolicyVersion (\<lambda>_. None) edit_db ''t2'' (Some ?b) = (AJson 200 [(''ok'', VBool True), (''version'', VInt 2)], ?d)"
    by (simp add: createPolicyVersion_def t upsert_draft_def store_simps tenant_visible_def int4_def tenant_exists_def shop_tenant_def
        same_version_def demo_policy_def ok_json_def)
  from redraft_unpublishes [OF _ _ _ edit_db_ok c, of 2 "demo_policy ''t2'' 2 ''allow''" "\<lambda>_ _. Inl ''error''" 0 None None]
  have "dec_Status (Evaluate (\<lambda>_ _. Inl ''error'') 0 (Some ?d) ''t2'' ''shop.cancel'' None None) = Allow"
    by (simp add: demo_policy_def version_id_def published_def)
  then show ?thesis by (intro exI [of _ ?d]) simp
qed

end
