(* ===== verification/Secrets.thy ===== *)
theory Secrets
  imports Demo
begin

text \<open>
  Secrets at rest: \<^verbatim>\<open>encryptJSON\<close> of \<^verbatim>\<open>internal/adminapi/crypto.go\<close>, which writes them, and
  \<^verbatim>\<open>decryptSecrets\<close> of \<^verbatim>\<open>internal/connector/handler.go\<close>, which reads them.  The authenticated cipher
  (AES-256-GCM, whose nonce has twelve bytes) and the JSON decoder are parameters; the key given to
  the cipher is the digest of the configured one, so it always has the right length.
\<close>

record gcm =
  seal :: "string \<Rightarrow> string \<Rightarrow> string \<Rightarrow> string"
  gopen :: "string \<Rightarrow> string \<Rightarrow> string \<Rightarrow> string option"

definition nonce_size :: nat where "nonce_size = 12"

text \<open>\<open>nonce\<close> is what the random source delivers; \<^const>\<open>None\<close> is an error of the encoder.\<close>

definition encryptJSON :: "runtime \<Rightarrow> gcm \<Rightarrow> string \<Rightarrow> string \<Rightarrow> gval \<Rightarrow> string option" where
  "encryptJSON rt g encrypterKey nonce v =
     (if encrypterKey = [] then json_enc rt v
      else map_option (\<lambda>plain. CHR 0x01 # nonce @ seal g (sha256 rt encrypterKey) nonce plain) (json_enc rt v))"

definition decryptSecrets :: "runtime \<Rightarrow> gcm \<Rightarrow> (string \<Rightarrow> gomap option) \<Rightarrow> string \<Rightarrow> string \<Rightarrow> string + gomap" where
  "decryptSecrets rt g decode blob key =
     (if length blob < 2 then Inl ''invalid blob''
      else if blob ! 0 \<noteq> CHR 0x01 then Inl ''unsupported version''
      else if length blob < 1 + nonce_size then Inl ''short nonce''
      else (case gopen g (sha256 rt key) (take nonce_size (drop 1 blob)) (drop (1 + nonce_size) blob) of
              None \<Rightarrow> Inl ''authentication failed''
            | Some plain \<Rightarrow> (case decode plain of None \<Rightarrow> Inl ''invalid json'' | Some m \<Rightarrow> Inr m)))"

lemma decrypt_sealed:
  assumes "key \<noteq> []" "length nonce = nonce_size" "encryptJSON rt g key nonce (VMap m) = Some blob"
    and "\<And>k n p. gopen g k n (seal g k n p) = Some p"
    and "\<And>t. json_enc rt (VMap m) = Some t \<Longrightarrow> decode t = Some (Some m)"
  shows "decryptSecrets rt g decode blob key = Inr (Some m)"
proof -
  from assms(1,3) obtain t where t: "json_enc rt (VMap m) = Some t"
    and b: "blob = CHR 0x01 # nonce @ seal g (sha256 rt key) nonce t"
    by (auto simp: encryptJSON_def)
  show ?thesis using assms(2,4,5) t by (auto simp: decryptSecrets_def b nonce_size_def)
qed

text \<open>Secrets round-trip.  What the admin API encrypts under a key, the connector decrypts under the same
  key to the same object, for every nonce.  The cipher is assumed to open what it sealed, the decoder
  to invert the encoder on this object.\<close>

theorem decrypt_encrypt:
  assumes "key \<noteq> []" "length nonce = nonce_size" "encryptJSON rt g key nonce (VMap m) = Some blob"
    and "\<And>k n p. gopen g k n (seal g k n p) = Some p"
    and "\<And>t. json_enc rt (VMap m) = Some t \<Longrightarrow> decode t = Some (Some m)"
  shows "decryptSecrets rt g decode blob key = Inr (Some m)"
  using assms by (rule decrypt_sealed)

text \<open>A cipher that prefixes its input, and a decoder for one text.\<close>

definition demo_gcm :: gcm where
  "demo_gcm = \<lparr> seal = (\<lambda>k n p. CHR 0x78 # p), gopen = (\<lambda>k n c. case c of [] \<Rightarrow> None | x # p \<Rightarrow> Some p) \<rparr>"

theorem decrypt_encrypt_witness:
  "\<exists>blob. encryptJSON demo_rt demo_gcm ''k'' (replicate 12 CHR 0x41) (VMap [(''api_key'', VStr ''s'')]) = Some blob \<and>
     decryptSecrets demo_rt demo_gcm (\<lambda>t. Some (Some [(''api_key'', VStr ''s'')])) blob ''k'' = Inr (Some [(''api_key'', VStr ''s'')])"
proof -
  obtain blob where b: "encryptJSON demo_rt demo_gcm ''k'' (replicate 12 CHR 0x41) (VMap [(''api_key'', VStr ''s'')]) = Some blob"
    by (simp add: encryptJSON_def Let_def)
  have "decryptSecrets demo_rt demo_gcm (\<lambda>t. Some (Some [(''api_key'', VStr ''s'')])) blob ''k'' = Inr (Some [(''api_key'', VStr ''s'')])"
    by (rule decrypt_encrypt [OF _ _ b]) (simp_all add: nonce_size_def demo_gcm_def)
  with b show ?thesis by blast
qed

text \<open>Secrets stored without a key are never readable.  With no encryption key the admin API stores the JSON
  text itself, which the connector refuses under every key: its first byte is not the version byte.\<close>

theorem plain_secrets_unreadable:
  assumes "encryptJSON rt g [] nonce (VMap m) = Some blob"
  shows "decryptSecrets rt g decode blob key = Inl ''unsupported version''"
proof -
  from assms obtain ms where "blob = json_members ms"
    by (auto simp: encryptJSON_def Let_def split: if_splits)
  then show ?thesis by (simp add: decryptSecrets_def json_members_def)
qed

theorem plain_secrets_unreadable_witness:
  "\<exists>blob. encryptJSON demo_rt demo_gcm [] [] (VMap [(''api_key'', VStr ''s'')]) = Some blob
     \<and> decryptSecrets demo_rt demo_gcm (\<lambda>_. None) blob ''k'' = Inl ''unsupported version''"
proof -
  obtain blob where b: "encryptJSON demo_rt demo_gcm [] [] (VMap [(''api_key'', VStr ''s'')]) = Some blob"
    by (simp add: encryptJSON_def Let_def)
  from plain_secrets_unreadable [OF b] b show ?thesis by blast
qed

end
