(* ===== verification/Admin_Config.thy ===== *)
theory Admin_Config
  imports Admin_Policies Secrets
begin

text \<open>
  The configuration a tenant edits through the admin API: actions, fact resolvers and fact mappings
  (\<^verbatim>\<open>handlers_actions.go\<close>), the tenant's own record (\<^verbatim>\<open>handlers_tenant.go\<close>) and the authentication
  configurations of its connectors (\<^verbatim>\<open>handlers_marketplace_auth.go\<close>).  Times of creation and change are
  left out of rows and responses; the order of a listing is the server's collation, a parameter.
\<close>

section \<open>Upserts\<close>

text \<open>\<^verbatim>\<open>INSERT ... ON CONFLICT (key) DO UPDATE\<close>: the row with the key is updated, or a new row is added.\<close>

definition upsert_by :: "('r \<Rightarrow> bool) \<Rightarrow> ('r \<Rightarrow> 'r) \<Rightarrow> 'r \<Rightarrow> 'r list \<Rightarrow> 'r list" where
  "upsert_by same upd new rows =
     (if list_ex same rows then map (\<lambda>r. if same r then upd r else r) rows else rows @ [new])"

definition coalesce :: "'a option \<Rightarrow> 'a option \<Rightarrow> 'a option" where
  "coalesce a b = (case a of Some x \<Rightarrow> Some x | None \<Rightarrow> b)"

definition json_param :: "gomap \<Rightarrow> gval option" where
  "json_param m = map_option VMap m"

text \<open>What every upsert of a table promises, and what follows for sequences of upserts.\<close>

locale upsert_table =
  fixes key :: "'r \<Rightarrow> 'k" and target :: "'i \<Rightarrow> 'k" and up :: "'i \<Rightarrow> 'r list \<Rightarrow> 'r list"
  assumes up_keys: "map key (up i rows) = (if target i \<in> key ` set rows then map key rows else map key rows @ [target i])"
    and up_other: "filter (\<lambda>r. key r \<noteq> target i) (up i rows) = filter (\<lambda>r. key r \<noteq> target i) rows"
begin

lemma keys_unique: "distinct (map key rows) \<Longrightarrow> distinct (map key (fold up is rows))"
proof (induction "is" arbitrary: rows)
  case (Cons i "is")
  have "distinct (map key (up i rows))" using Cons.prems by (simp add: up_keys)
  then show ?case using Cons.IH by simp
qed simp

lemma target_present: "target i \<in> key ` set (up i rows)"
proof -
  have "target i \<in> set (map key (up i rows))" by (simp add: up_keys)
  then show ?thesis by simp
qed

lemma others_kept:
  assumes "\<And>i. i \<in> set is \<Longrightarrow> \<not> P (target i)"
  shows "filter (\<lambda>r. P (key r)) (fold up is rows) = filter (\<lambda>r. P (key r)) rows"
  using assms
proof (induction "is" arbitrary: rows)
  case (Cons i "is")
  have sub: "filter (\<lambda>r. P (key r)) xs = filter (\<lambda>r. P (key r)) (filter (\<lambda>r. key r \<noteq> target i) xs)" for xs
    using Cons.prems [of i] by (induction xs) auto
  have "filter (\<lambda>r. P (key r)) (up i rows) = filter (\<lambda>r. P (key r)) rows"
    by (subst (1 2) sub) (simp only: up_other)
  then show ?case using Cons by simp
qed simp

end

lemma upsert_keys:
  assumes "\<And>r. same r \<longleftrightarrow> key r = k" "\<And>r. same r \<Longrightarrow> key (upd r) = key r" "key new = k"
  shows "map key (upsert_by same upd new rows) = (if k \<in> key ` set rows then map key rows else map key rows @ [k])"
proof -
  have "k \<in> key ` set rows \<longleftrightarrow> list_ex same rows" by (auto simp: list_ex_iff assms(1))
  then show ?thesis using assms by (auto simp: upsert_by_def)
qed

lemma upsert_other:
  assumes "\<And>r. same r \<longleftrightarrow> key r = k" "\<And>r. same r \<Longrightarrow> key (upd r) = key r" "key new = k"
  shows "filter (\<lambda>r. key r \<noteq> k) (upsert_by same upd new rows) = filter (\<lambda>r. key r \<noteq> k) rows"
proof -
  have "filter (\<lambda>r. key r \<noteq> k) (map (\<lambda>r. if same r then upd r else r) rows) = filter (\<lambda>r. key r \<noteq> k) rows"
    using assms(1,2) by (induction rows) auto
  then show ?thesis using assms(3) by (simp add: upsert_by_def)
qed

lemma upsert_by_cases:
  assumes "r \<in> set (upsert_by same upd new rows)"
  obtains r0 where "r0 \<in> set rows" "same r0" "r = upd r0" | "r = new" | "r \<in> set rows" "\<not> same r"
  using assms by (auto simp: upsert_by_def list_ex_iff split: if_splits)

section \<open>Actions\<close>

record UpsertActionBody =
  ua_DisplayName :: "string option"
  ua_InputsSchema :: gomap

definition action_key :: "action_row \<Rightarrow> string \<times> string" where
  "action_key r = (an_tenant r, an_key r)"

definition put_action :: "string \<times> string \<times> UpsertActionBody \<Rightarrow> action_row list \<Rightarrow> action_row list" where
  "put_action i rows = (case i of (tid, key, b) \<Rightarrow>
     upsert_by (\<lambda>r. an_tenant r = tid \<and> an_key r = key)
       (\<lambda>r. r\<lparr> an_display := coalesce (ua_DisplayName b) (an_display r), an_schema := coalesce (json_param (ua_InputsSchema b)) (an_schema r) \<rparr>)
       \<lparr> an_tenant = tid, an_key = key, an_display = Some (or_blank (ua_DisplayName b)),
         an_schema = coalesce (json_param (ua_InputsSchema b)) (Some (VMap [])) \<rparr> rows)"

definition upsertAction :: "db \<Rightarrow> string \<Rightarrow> string \<Rightarrow> UpsertActionBody option \<Rightarrow> admin_response \<times> db" where
  "upsertAction d tid key body =
     (case body of
        None \<Rightarrow> (AErr 400 ''bad json'', d)
      | Some b \<Rightarrow>
          if faults d UpsertAction \<or> \<not> rls_can_write d (ViaCte tid) tid \<or> \<not> tenant_exists d tid then (AErr 500 ''db error'', d)
          else (ok_json [], d\<lparr> actions := put_action (tid, key, b) (actions d) \<rparr>))"

text \<open>A listing scans row by row; a NULL in a column scanned into a string is an error.\<close>

definition list_items :: "('r \<Rightarrow> gval option) \<Rightarrow> 'r list option \<Rightarrow> admin_response" where
  "list_items item rows =
     (case rows of
        None \<Rightarrow> AErr 500 ''db error''
      | Some rs \<Rightarrow> (case seq_opts (map item rs) of
            None \<Rightarrow> AErr 500 ''db error''
          | Some vs \<Rightarrow> AJson 200 [(''items'', VArr vs)]))"

definition action_item :: "action_row \<Rightarrow> gval option" where
  "action_item r = map_option (\<lambda>disp. VMap [(''Key'', VStr (an_key r)), (''DisplayName'', VStr disp),
     (''InputsSchema'', any_of_map (case an_schema r of None \<Rightarrow> None | Some v \<Rightarrow> unmarshal_map v))]) (an_display r)"

definition listActions :: "(action_row list \<Rightarrow> action_row list) \<Rightarrow> db \<Rightarrow> string \<Rightarrow> admin_response" where
  "listActions order d tid = list_items action_item (map_option order (query_rows d ListActions (ViaCte tid) an_tenant (actions d)))"

section \<open>Resolvers\<close>

record UpsertResolverBody =
  ur_ConnectorKey :: "string option"
  ur_RequestTmpl :: gomap
  ur_ResponseSample :: gomap
  ur_Needs :: "gomap list option"
  ur_Enabled :: "bool option"

definition resolver_key :: "resolver_row \<Rightarrow> string \<times> string \<times> string" where
  "resolver_key r = (rv_tenant r, rv_action r, rv_name r)"

definition needs_param :: "gomap list option \<Rightarrow> gval option" where
  "needs_param ns = map_option (\<lambda>xs. VArr (map any_of_map xs)) ns"

definition put_resolver :: "string \<times> string \<times> string \<times> string \<times> UpsertResolverBody \<Rightarrow> resolver_row list \<Rightarrow> resolver_row list" where
  "put_resolver i rows = (case i of (fresh, tid, key, name, b) \<Rightarrow>
     upsert_by (\<lambda>r. rv_tenant r = tid \<and> rv_action r = key \<and> rv_name r = name)
       (\<lambda>r. r\<lparr> rv_connector_key := coalesce (ur_ConnectorKey b) (rv_connector_key r),
               rv_request_template := coalesce (json_param (ur_RequestTmpl b)) (rv_request_template r),
               rv_response_sample := coalesce (json_param (ur_ResponseSample b)) (rv_response_sample r),
               rv_needs := coalesce (needs_param (ur_Needs b)) (rv_needs r),
               rv_enabled := (case ur_Enabled b of Some e \<Rightarrow> e | None \<Rightarrow> rv_enabled r) \<rparr>)
       \<lparr> rv_id = fresh, rv_tenant = tid, rv_action = key, rv_name = name, rv_connector_key = ur_ConnectorKey b,
         rv_request_template = json_param (ur_RequestTmpl b), rv_response_sample = json_param (ur_ResponseSample b),
         rv_needs = needs_param (ur_Needs b), rv_enabled = (case ur_Enabled b of Some e \<Rightarrow> e | None \<Rightarrow> True) \<rparr> rows)"

text \<open>The parameter that sets the tenant as text is also the value of a \<^verbatim>\<open>uuid\<close> column.\<close>

definition upsertResolver ::
  "string \<Rightarrow> db \<Rightarrow> string \<Rightarrow> string \<Rightarrow> string \<Rightarrow> UpsertResolverBody option \<Rightarrow> admin_response \<times> db" where
  "upsertResolver fresh d tid key name body =
     (case body of
        None \<Rightarrow> (AErr 400 ''bad json'', d)
      | Some b \<Rightarrow>
          if faults d UpsertResolver \<or> \<not> text_as_uuid d \<or> \<not> rls_can_write d (ViaCte tid) tid \<or> \<not> tenant_exists d tid
          then (AErr 500 ''db error'', d)
          else (ok_json [], d\<lparr> resolvers := put_resolver (fresh, tid, key, name, b) (resolvers d) \<rparr>))"

definition resolver_item :: "resolver_row \<Rightarrow> gval option" where
  "resolver_item r = map_option (\<lambda>ck. VMap [(''Name'', VStr (rv_name r)), (''ConnectorKey'', VStr ck),
     (''RequestTemplate'', coalesce_json (rv_request_template r) (VMap [])),
     (''ResponseSample'', coalesce_json (rv_response_sample r) (VMap [])),
     (''Needs'', coalesce_json (rv_needs r) (VArr [])), (''Enabled'', VBool (rv_enabled r))]) (rv_connector_key r)"

definition listResolvers :: "(resolver_row list \<Rightarrow> resolver_row list) \<Rightarrow> db \<Rightarrow> string \<Rightarrow> string \<Rightarrow> admin_response" where
  "listResolvers order d tid key = list_items resolver_item
     (map_option (order \<circ> filter (\<lambda>r. rv_action r = key)) (query_rows d ListResolvers (ViaCte tid) rv_tenant (resolvers d)))"

text \<open>A DELETE removes the rows it sees; it names the action and the name, but no tenant.\<close>

definition delete_rows :: "db \<Rightarrow> string \<Rightarrow> ('r \<Rightarrow> string) \<Rightarrow> ('r \<Rightarrow> bool) \<Rightarrow> 'r list \<Rightarrow> 'r list" where
  "delete_rows d tid ten P rows = filter (\<lambda>r. \<not> (P r \<and> (rls_applies d \<longrightarrow> ten r = tid))) rows"

definition deleteResolver :: "db \<Rightarrow> string \<Rightarrow> string \<Rightarrow> string \<Rightarrow> admin_response \<times> db" where
  "deleteResolver d tid key name =
     (if faults d DeleteResolver \<or> \<not> rls_can_write d (ViaCte tid) tid then (AErr 500 ''db error'', d)
      else (ok_json [], d\<lparr> resolvers := delete_rows d tid rv_tenant (\<lambda>r. rv_action r = key \<and> rv_name r = name) (resolvers d) \<rparr>))"

section \<open>Mappings\<close>

record UpsertMappingBody =
  um_JMESPath :: string
  um_FactKey :: string
  um_Transform :: "string option"
  um_TransformArgs :: "gval list option"
  um_Required :: "bool option"

definition mapping_key :: "mapping_row \<Rightarrow> string \<times> string \<times> string" where
  "mapping_key r = (mp_tenant r, mp_action r, mp_name r)"

text \<open>Path and fact key are strings, never NULL: an update always replaces them.\<close>

definition put_mapping :: "string \<times> string \<times> string \<times> string \<times> UpsertMappingBody \<Rightarrow> mapping_row list \<Rightarrow> mapping_row list" where
  "put_mapping i rows = (case i of (fresh, tid, key, name, b) \<Rightarrow>
     upsert_by (\<lambda>r. mp_tenant r = tid \<and> mp_action r = key \<and> mp_name r = name)
       (\<lambda>r. r\<lparr> mp_jmespath := um_JMESPath b, mp_fact_key := um_FactKey b,
               mp_transform := coalesce (um_Transform b) (mp_transform r),
               mp_transform_args := coalesce (map_option VArr (um_TransformArgs b)) (mp_transform_args r),
               mp_required := (case um_Required b of Some e \<Rightarrow> e | None \<Rightarrow> mp_required r) \<rparr>)
       \<lparr> mp_id = fresh, mp_tenant = tid, mp_action = key, mp_name = name, mp_jmespath = um_JMESPath b, mp_fact_key = um_FactKey b,
         mp_transform = um_Transform b, mp_transform_args = map_option VArr (um_TransformArgs b),
         mp_required = (case um_Required b of Some e \<Rightarrow> e | None \<Rightarrow> False) \<rparr> rows)"

definition upsertMapping ::
  "string \<Rightarrow> db \<Rightarrow> string \<Rightarrow> string \<Rightarrow> string \<Rightarrow> UpsertMappingBody option \<Rightarrow> admin_response \<times> db" where
  "upsertMapping fresh d tid key name body =
     (case body of
        None \<Rightarrow> (AErr 400 ''bad json'', d)
      | Some b \<Rightarrow>
          if faults d UpsertMapping \<or> \<not> text_as_uuid d \<or> \<not> rls_can_write d (ViaCte tid) tid \<or> \<not> tenant_exists d tid
          then (AErr 500 ''db error'', d)
          else (ok_json [], d\<lparr> mappings := put_mapping (fresh, tid, key, name, b) (mappings d) \<rparr>))"

definition mapping_item :: "mapping_row \<Rightarrow> gval option" where
  "mapping_item r = Some (VMap [(''Name'', VStr (mp_name r)), (''JMESPath'', VStr (mp_jmespath r)), (''FactKey'', VStr (mp_fact_key r)),
     (''Transform'', VStr (or_blank (mp_transform r))), (''TransformArgs'', coalesce_json (mp_transform_args r) (VArr [])),
     (''Required'', VBool (mp_required r))])"

definition listMappings :: "(mapping_row list \<Rightarrow> mapping_row list) \<Rightarrow> db \<Rightarrow> string \<Rightarrow> string \<Rightarrow> admin_response" where
  "listMappings order d tid key = list_items mapping_item
     (map_option (order \<circ> filter (\<lambda>r. mp_action r = key)) (query_rows d ListMappings (ViaCte tid) mp_tenant (mappings d)))"

definition deleteMapping :: "db \<Rightarrow> string \<Rightarrow> string \<Rightarrow> string \<Rightarrow> admin_response \<times> db" where
  "deleteMapping d tid key name =
     (if faults d DeleteMapping \<or> \<not> rls_can_write d (ViaCte tid) tid then (AErr 500 ''db error'', d)
      else (ok_json [], d\<lparr> mappings := delete_rows d tid mp_tenant (\<lambda>r. mp_action r = key \<and> mp_name r = name) (mappings d) \<rparr>))"

interpretation action_table: upsert_table action_key "\<lambda>(tid, key, b). (tid, key)" put_action
proof (unfold_locales, goal_cases)
  case (1 i rows)
  show ?case by (cases i) (simp only: put_action_def prod.case, rule upsert_keys, auto simp: action_key_def)
next
  case (2 i rows)
  show ?case by (cases i) (simp only: put_action_def prod.case, rule upsert_other, auto simp: action_key_def)
qed

interpretation resolver_table: upsert_table resolver_key "\<lambda>(fresh, tid, key, name, b). (tid, key, name)" put_resolver
proof (unfold_locales, goal_cases)
  case (1 i rows)
  show ?case by (cases i) (simp only: put_resolver_def prod.case, rule upsert_keys, auto simp: resolver_key_def)
next
  case (2 i rows)
  show ?case by (cases i) (simp only: put_resolver_def prod.case, rule upsert_other, auto simp: resolver_key_def)
qed

interpretation mapping_table: upsert_table mapping_key "\<lambda>(fresh, tid, key, name, b). (tid, key, name)" put_mapping
proof (unfold_locales, goal_cases)
  case (1 i rows)
  show ?case by (cases i) (simp only: put_mapping_def prod.case, rule upsert_keys, auto simp: mapping_key_def)
next
  case (2 i rows)
  show ?case by (cases i) (simp only: put_mapping_def prod.case, rule upsert_other, auto simp: mapping_key_def)
qed

section \<open>The tenant's own record\<close>

record OIDCBody =
  oi_OAuthIssuer :: string
  oi_AcceptedAudiences :: "string list"
  oi_ClientIDUser :: string
  oi_ClientIDMachine :: "string option"
  oi_AccountClaim :: string
  oi_DpopRequired :: "bool option"

definition nilIfNull :: "string option \<Rightarrow> gval" where
  "nilIfNull s = (case s of Some x \<Rightarrow> VStr x | None \<Rightarrow> VNil)"

definition nullIfEmpty :: "string \<Rightarrow> string option" where
  "nullIfEmpty s = (if trim_space s = [] then None else Some s)"

definition getTenantSelf :: "db \<Rightarrow> string \<Rightarrow> admin_response" where
  "getTenantSelf d tid =
     (if faults d TenantSelf then AErr 500 ''db error''
      else (case find (\<lambda>r. tn_id r = tid) (tenants d) of
              None \<Rightarrow> AErr 404 ''tenant not found''
            | Some r \<Rightarrow>
               (case (tn_slug r, tn_host r, tn_issuer r, tn_account_claim r, tn_dpop_required r) of
                  (Some sl, Some h, Some iss, Some claim, Some dp) \<Rightarrow>
                    AJson 200 [(''id'', VStr (tn_id r)), (''slug'', VStr sl), (''host'', VStr h), (''oauth_issuer'', VStr iss),
                      (''accepted_audiences'', (case tn_audiences r of None \<Rightarrow> VNil | Some xs \<Rightarrow> VArr (map VStr xs))),
                      (''account_claim'', VStr claim), (''client_id_user'', nilIfNull (tn_client_user r)),
                      (''client_id_machine'', nilIfNull (tn_client_machine r)), (''dpop_required'', VBool dp)]
                | _ \<Rightarrow> AErr 500 ''db error'')))"

text \<open>\<^verbatim>\<open>COALESCE($5,'sub')\<close> never applies: the claim is a string, empty if it was omitted.\<close>

definition putTenantOIDC :: "db \<Rightarrow> string \<Rightarrow> OIDCBody option \<Rightarrow> admin_response \<times> db" where
  "putTenantOIDC d tid body =
     (case body of
        None \<Rightarrow> (AErr 400 ''bad json'', d)
      | Some b \<Rightarrow>
          if oi_OAuthIssuer b = [] \<or> oi_AcceptedAudiences b = [] \<or> oi_ClientIDUser b = [] then (AErr 400 ''missing required fields'', d)
          else if faults d PutOIDC then (AErr 500 ''db error'', d)
          else (ok_json [], d\<lparr> tenants := map (\<lambda>r. if tn_id r = tid
              then r\<lparr> tn_issuer := Some (oi_OAuthIssuer b), tn_audiences := Some (oi_AcceptedAudiences b),
                       tn_client_user := Some (oi_ClientIDUser b), tn_client_machine := oi_ClientIDMachine b,
                       tn_account_claim := Some (oi_AccountClaim b),
                       tn_dpop_required := Some (case oi_DpopRequired b of Some x \<Rightarrow> x | None \<Rightarrow> False) \<rparr> else r) (tenants d) \<rparr>))"

section \<open>Authentication configurations\<close>

record AuthBody =
  ab_Name :: string
  ab_Type :: string
  ab_Config :: gomap
  ab_Secrets :: "(string \<times> string) list option"

definition secrets_value :: "(string \<times> string) list option \<Rightarrow> gval" where
  "secrets_value sec = (case sec of None \<Rightarrow> VNilMap | Some kv \<Rightarrow> VMap (map (map_prod id VStr) kv))"

text \<open>What the handlers take from their application: the encoder, the cipher, the key, and a nonce.\<close>

record vault =
  va_rt :: runtime
  va_gcm :: gcm
  va_key :: string
  va_nonce :: string

definition encrypt_secrets :: "vault \<Rightarrow> (string \<times> string) list option \<Rightarrow> string option" where
  "encrypt_secrets va sec = encryptJSON (va_rt va) (va_gcm va) (va_key va) (va_nonce va) (secrets_value sec)"

definition auth_item :: "auth_config_row \<Rightarrow> gval" where
  "auth_item a = VMap [(''ID'', VStr (ac_id a)), (''Name'', VStr (ac_name a)), (''Type'', VStr (ac_type a)),
     (''Config'', any_of_map (unmarshal_map (ac_config a)))]"

definition listAuth :: "(auth_config_row list \<Rightarrow> auth_config_row list) \<Rightarrow> db \<Rightarrow> string \<Rightarrow> admin_response" where
  "listAuth order d tid =
     (if faults d ListAuth then AErr 500 ''db error''
      else let rows = order (filter (\<lambda>a. ac_tenant a = tid) (auth_configs d))
           in AJson 200 [(''items'', if rows = [] then VNil else VArr (map auth_item rows))])"

definition createAuth :: "vault \<Rightarrow> string \<Rightarrow> db \<Rightarrow> string \<Rightarrow> AuthBody option \<Rightarrow> admin_response \<times> db" where
  "createAuth va fresh d tid body =
     (case body of
        None \<Rightarrow> (AErr 400 ''bad json'', d)
      | Some b \<Rightarrow>
          if ab_Name b = [] \<or> ab_Type b = [] then (AErr 400 ''missing fields'', d)
          else (case encrypt_secrets va (ab_Secrets b) of
                  None \<Rightarrow> (AErr 500 ''encrypt'', d)
                | Some enc \<Rightarrow>
                   (case ab_Config b of
                      None \<Rightarrow> (AErr 500 ''db error'', d)
                    | Some cfg \<Rightarrow>
                        if faults d CreateAuth \<or> \<not> tenant_exists d tid
                           \<or> list_ex (\<lambda>a. ac_id a = fresh \<or> ac_tenant a = tid \<and> ac_name a = ab_Name b) (auth_configs d)
                        then (AErr 500 ''db error'', d)
                        else (AJson 201 [(''ok'', VBool True), (''id'', VStr fresh)],
                          d\<lparr> auth_configs := auth_configs d @ [\<lparr> ac_id = fresh, ac_tenant = tid, ac_name = ab_Name b,
                               ac_type = ab_Type b, ac_config = VMap cfg, ac_secrets = Some enc \<rparr>] \<rparr>))))"

definition updated_auth :: "AuthBody \<Rightarrow> string option \<Rightarrow> auth_config_row \<Rightarrow> auth_config_row" where
  "updated_auth b enc a = a\<lparr> ac_name := (case nullIfEmpty (ab_Name b) of Some x \<Rightarrow> x | None \<Rightarrow> ac_name a),
     ac_type := (case nullIfEmpty (ab_Type b) of Some x \<Rightarrow> x | None \<Rightarrow> ac_type a),
     ac_config := (case ab_Config b of Some c \<Rightarrow> VMap c | None \<Rightarrow> ac_config a),
     ac_secrets := coalesce enc (ac_secrets a) \<rparr>"

text \<open>A new name that another configuration of the tenant has violates the unique constraint, if there is a
  row to rename.\<close>

definition name_taken :: "db \<Rightarrow> string \<Rightarrow> string \<Rightarrow> AuthBody \<Rightarrow> bool" where
  "name_taken d tid i b \<longleftrightarrow> list_ex (\<lambda>a. ac_id a = i \<and> ac_tenant a = tid) (auth_configs d)
     \<and> list_ex (\<lambda>a. ac_id a \<noteq> i \<and> ac_tenant a = tid \<and> Some (ac_name a) = nullIfEmpty (ab_Name b)) (auth_configs d)"

definition store_auth :: "db \<Rightarrow> string \<Rightarrow> string \<Rightarrow> AuthBody \<Rightarrow> string option \<Rightarrow> admin_response \<times> db" where
  "store_auth d tid i b enc =
     (if faults d UpdateAuth \<or> name_taken d tid i b then (AErr 500 ''db error'', d)
      else (ok_json [], d\<lparr> auth_configs := map (\<lambda>a. if ac_id a = i \<and> ac_tenant a = tid then updated_auth b enc a else a) (auth_configs d) \<rparr>))"

definition updateAuth :: "vault \<Rightarrow> db \<Rightarrow> string \<Rightarrow> string \<Rightarrow> AuthBody option \<Rightarrow> admin_response \<times> db" where
  "updateAuth va d tid i body =
     (case body of
        None \<Rightarrow> (AErr 400 ''bad json'', d)
      | Some b \<Rightarrow>
         (case ab_Secrets b of
            None \<Rightarrow> store_auth d tid i b None
          | Some sec \<Rightarrow>
             (case encrypt_secrets va (Some sec) of
                None \<Rightarrow> (AErr 500 ''encrypt'', d)
              | Some enc \<Rightarrow> store_auth d tid i b (Some enc))))"

definition deleteAuth :: "db \<Rightarrow> string \<Rightarrow> string \<Rightarrow> admin_response \<times> db" where
  "deleteAuth d tid i =
     (if faults d DeleteAuth then (AErr 500 ''db error'', d)
      else (ok_json [], d\<lparr> auth_configs := filter (\<lambda>a. \<not> (ac_id a = i \<and> ac_tenant a = tid)) (auth_configs d) \<rparr>))"

section \<open>Trying a path\<close>

definition testJMESPath :: "jmes \<Rightarrow> (gval \<times> string) option \<Rightarrow> admin_response" where
  "testJMESPath search body =
     (case body of
        None \<Rightarrow> AErr 400 ''bad json''
      | Some (doc, path) \<Rightarrow>
          if trim_space path = [] then AErr 400 ''missing path''
          else (case search path doc of
                  Inl e \<Rightarrow> AJson 200 [(''ok'', VBool False), (''error'', VStr e)]
                | Inr res \<Rightarrow> AJson 200 [(''ok'', VBool True), (''result'', res)]))"

section \<open>Properties\<close>

text \<open>Resolvers and mappings cannot be created on a server that keeps text and \<^verbatim>\<open>uuid\<close> apart.\<close>

theorem fact_configuration_rejected:
  assumes "\<not> text_as_uuid d"
  shows "upsertResolver fresh d tid key name (Some rb) = (AErr 500 ''db error'', d)
    \<and> upsertMapping fresh d tid key name (Some mb) = (AErr 500 ''db error'', d)"
  using assms by (simp add: upsertResolver_def upsertMapping_def)

text \<open>An update of a mapping that leaves the path out erases it.\<close>

theorem partial_mapping_update_erases:
  assumes "upsertMapping fresh d tid key name (Some b) = (AJson 200 resp, d')" "um_JMESPath b = []"
    and "r \<in> set (mappings d')" "mapping_key r = (tid, key, name)"
  shows "mp_jmespath r = []"
proof -
  from assms(1) have "mappings d' = put_mapping (fresh, tid, key, name, b) (mappings d)"
    by (auto simp: upsertMapping_def split: if_splits)
  with assms(3) have "r \<in> set (put_mapping (fresh, tid, key, name, b) (mappings d))" by simp
  then show ?thesis unfolding put_mapping_def prod.case
    by (rule upsert_by_cases) (use assms(2,4) in \<open>simp_all add: mapping_key_def\<close>)
qed



end
