(* ===== verification/Admin_Auth.thy ===== *)
theory Admin_Auth
  imports Admin_Config Middleware
begin

text \<open>
  \<^verbatim>\<open>internal/adminapi/auth.go\<close> and the set-up of origins in \<^verbatim>\<open>server.go\<close>: who may call the admin API, and for
  which tenant.  Reading identifiers (\<^verbatim>\<open>uuid.Parse\<close>) and verifying tokens are parameters; a token is the
  map of its claims.
\<close>

section \<open>Cross-origin requests\<close>

definition allowed_origins :: "environ \<Rightarrow> string list" where
  "allowed_origins env =
     (let v = trim_space (env ''ADMIN_CORS_ORIGINS'');
          tmp = filter (\<lambda>s. s \<noteq> []) (map trim_space (str_split '','' v))
      in if v \<noteq> [] \<and> tmp \<noteq> [] then tmp else [''http://localhost:3001''])"

definition match_origin :: "string list \<Rightarrow> string \<Rightarrow> string option" where
  "match_origin allowed origin =
     (if origin = [] then None else find (\<lambda>a. a = ''*'' \<or> a = origin) (map trim_space allowed))"

definition cors_headers :: "string \<Rightarrow> (string \<times> string) list" where
  "cors_headers ao = [(''Access-Control-Allow-Origin'', ao), (''Vary'', ''Origin''),
     (''Access-Control-Allow-Methods'', ''GET,POST,PUT,PATCH,DELETE,OPTIONS''),
     (''Access-Control-Allow-Headers'', ''Authorization, Content-Type, X-Tenant-ID''),
     (''Access-Control-Allow-Credentials'', ''true''), (''Access-Control-Max-Age'', ''86400'')]"

text \<open>The headers set, and whether the middleware answered itself.\<close>

definition cors :: "string list \<Rightarrow> http_in \<Rightarrow> (string \<times> string) list \<times> bool" where
  "cors allowed r =
     (case match_origin allowed (header_get (hi_headers r) ''Origin'') of
        None \<Rightarrow> ([], False)
      | Some ao \<Rightarrow> (cors_headers ao, hi_method r = ''OPTIONS''))"

section \<open>Authentication\<close>

datatype admin_outcome = ARespond admin_response | APanic | APass string

definition resolve_tid :: "(string \<Rightarrow> bool) \<Rightarrow> db \<Rightarrow> string \<Rightarrow> string option" where
  "resolve_tid is_uuid d v =
     (if is_uuid v then Some v
      else let found = (if faults d ResolveTid then None
                        else find (\<lambda>r. tn_slug r = Some v \<or> tn_host r = Some v) (tenants d));
               resolved = (case found of None \<Rightarrow> [] | Some r \<Rightarrow> tn_id r)
           in if trim_space resolved = [] then None else Some resolved)"

definition for_tenant :: "(string \<Rightarrow> bool) \<Rightarrow> db \<Rightarrow> string \<Rightarrow> admin_outcome" where
  "for_tenant is_uuid d v =
     (case resolve_tid is_uuid d v of None \<Rightarrow> ARespond (AErr 400 ''invalid tenant id'') | Some tid \<Rightarrow> APass tid)"

text \<open>Without a key set, the header alone names the tenant.\<close>

definition dev_auth :: "(string \<Rightarrow> bool) \<Rightarrow> db \<Rightarrow> http_in \<Rightarrow> admin_outcome" where
  "dev_auth is_uuid d r =
     (if hi_method r = ''OPTIONS'' then ARespond (AEmpty 204)
      else let tid = trim_space (header_get (hi_headers r) ''X-Tenant-ID'')
           in if tid = [] then ARespond (AErr 400 ''missing tenant id'') else for_tenant is_uuid d tid)"

text \<open>The tenant a verified token acts for: its claim, or else the header.\<close>

definition token_tid :: "runtime \<Rightarrow> kvs \<Rightarrow> http_in \<Rightarrow> string option" where
  "token_tid rt jt r =
     (case mget jt ''tid'' of
        VNil \<Rightarrow> (let h = header_get (hi_headers r) ''X-Tenant-ID'' in if h = [] then None else Some h)
      | v \<Rightarrow> Some (sprint rt v))"

definition admin_roles :: "string list" where
  "admin_roles = [''tenant_admin'', ''lamdis_admin'']"

text \<open>What the code asks of the token library: key set, issuer, audience, token.\<close>

type_synonym 'k admin_parser = "'k \<Rightarrow> string \<Rightarrow> string \<Rightarrow> string \<Rightarrow> kvs option"

record 'k admin_app =
  ap_jwks :: "'k option"
  ap_issuer :: string
  ap_aud :: string

definition adminAuth ::
  "runtime \<Rightarrow> (string \<Rightarrow> bool) \<Rightarrow> 'k admin_parser \<Rightarrow> 'k admin_app \<Rightarrow> db \<Rightarrow> http_in \<Rightarrow> admin_outcome" where
  "adminAuth rt is_uuid parse app d r =
     (case ap_jwks app of
        None \<Rightarrow> dev_auth is_uuid d r
      | Some ks \<Rightarrow>
         (case bearer r of
            None \<Rightarrow> ARespond (AErr 401 ''missing bearer'')
          | Some tok \<Rightarrow>
             (case parse ks (ap_issuer app) (ap_aud app) tok of
                None \<Rightarrow> ARespond (AErr 401 ''invalid token'')
              | Some jt \<Rightarrow>
                 (case mget jt ''role'' of
                    VNil \<Rightarrow> ARespond (AErr 403 ''forbidden'')
                  | VStr role \<Rightarrow>
                      if role \<notin> set admin_roles then ARespond (AErr 403 ''forbidden'')
                      else (case token_tid rt jt r of
                              None \<Rightarrow> ARespond (AErr 400 ''missing tenant id'')
                            | Some v \<Rightarrow> for_tenant is_uuid d v)
                  | _ \<Rightarrow> APanic))))"

section \<open>Properties\<close>

lemma for_tenant_pass: "for_tenant is_uuid d v = APass tid \<longleftrightarrow> resolve_tid is_uuid d v = Some tid"
  by (auto simp: for_tenant_def split: option.splits)

lemma adminAuth_token:
  assumes "adminAuth rt is_uuid parse app d r = APass tid" "ap_jwks app = Some ks"
  shows "\<exists>tok jt role. bearer r = Some tok \<and> parse ks (ap_issuer app) (ap_aud app) tok = Some jt
     \<and> mget jt ''role'' = VStr role \<and> role \<in> {''tenant_admin'', ''lamdis_admin''}
     \<and> (mget jt ''tid'' \<noteq> VNil \<longrightarrow> resolve_tid is_uuid d (sprint rt (mget jt ''tid'')) = Some tid)"
proof -
  from assms obtain tok jt where t: "bearer r = Some tok" "parse ks (ap_issuer app) (ap_aud app) tok = Some jt"
    by (auto simp: adminAuth_def split: option.splits)
  with assms obtain role where role: "mget jt ''role'' = VStr role" by (auto simp: adminAuth_def split: gval.splits)
  with t assms have ok: "role \<in> set admin_roles" by (auto simp: adminAuth_def split: if_splits)
  with t assms role obtain v where v: "token_tid rt jt r = Some v" "resolve_tid is_uuid d v = Some tid"
    by (auto simp: adminAuth_def for_tenant_pass split: option.splits)
  have "mget jt ''tid'' \<noteq> VNil \<longrightarrow> v = sprint rt (mget jt ''tid'')"
    using v(1) by (auto simp: token_tid_def split: gval.splits)
  with t role ok v(2) show ?thesis by (auto simp: admin_roles_def)
qed

text \<open>With a key set, only administrators pass.  A request that passes carries a bearer token the library
  verified for the configured issuer and audience, with one of the two administrator roles; and if the
  token names a tenant, the request acts for that tenant, whatever header it sends.\<close>

theorem adminAuth_admin_only:
  assumes "adminAuth rt is_uuid parse app d r = APass tid" "ap_jwks app = Some ks"
  shows "\<exists>tok jt role. bearer r = Some tok \<and> parse ks (ap_issuer app) (ap_aud app) tok = Some jt
     \<and> mget jt ''role'' = VStr role \<and> role \<in> {''tenant_admin'', ''lamdis_admin''}
     \<and> (mget jt ''tid'' \<noteq> VNil \<longrightarrow> resolve_tid is_uuid d (sprint rt (mget jt ''tid'')) = Some tid)"
  using assms by (rule adminAuth_token)

definition demo_admin :: "string \<Rightarrow> unit admin_parser" where
  "demo_admin role ks iss aud tok = Some [(''role'', VStr role)]"

definition admin_request :: http_in where
  "admin_request = \<lparr> hi_method = ''POST'', hi_path = ''/admin/policies/versions'', hi_host = [],
     hi_headers = [(canonical_key ''Authorization'', ''Bearer x''), (canonical_key ''X-Tenant-ID'', ''t2'')] \<rparr>"

lemma admin_request_headers: "bearer admin_request = Some ''x''" "header_get (hi_headers admin_request) ''X-Tenant-ID'' = ''t2''"
  by code_simp+

text \<open>An administrator of one tenant may act for every tenant.  A token with the role of a tenant administrator but
  no tenant claim passes for whatever tenant the request's header names.\<close>

theorem tenant_admin_chooses_tenant:
  assumes "ap_jwks app = Some ks" "bearer r = Some tok" "parse ks (ap_issuer app) (ap_aud app) tok = Some jt"
    and "mget jt ''role'' = VStr ''tenant_admin''" "mget jt ''tid'' = VNil"
    and "header_get (hi_headers r) ''X-Tenant-ID'' = tid" "tid \<noteq> []" "is_uuid tid"
  shows "adminAuth rt is_uuid parse app d r = APass tid"
  using assms by (simp add: adminAuth_def admin_roles_def token_tid_def for_tenant_def resolve_tid_def)

lemma demo_admin_claims: "mget [(''role'', VStr x)] ''role'' = VStr x" "mget [(''role'', VStr x)] ''tid'' = VNil"
  by (simp_all add: mget_def)

theorem tenant_admin_chooses_tenant_witness:
  "adminAuth demo_rt (\<lambda>_. True) (demo_admin ''tenant_admin'') \<lparr> ap_jwks = Some (), ap_issuer = [], ap_aud = [] \<rparr> empty_db admin_request
     = APass ''t2''"
  by (rule tenant_admin_chooses_tenant) (auto simp: demo_admin_def admin_request_headers demo_admin_claims)

theorem adminAuth_admin_only_witness:
  "\<exists>tok jt role. bearer admin_request = Some tok \<and> demo_admin ''lamdis_admin'' () [] [] tok = Some jt
     \<and> mget jt ''role'' = VStr role \<and> role \<in> {''tenant_admin'', ''lamdis_admin''}"
proof -
  have "adminAuth demo_rt (\<lambda>_. True) (demo_admin ''lamdis_admin'') \<lparr> ap_jwks = Some (), ap_issuer = [], ap_aud = [] \<rparr> empty_db admin_request
     = APass ''t2''"
    by (simp add: adminAuth_def admin_request_headers demo_admin_def demo_admin_claims admin_roles_def token_tid_def for_tenant_def resolve_tid_def)
  from adminAuth_admin_only [OF this] show ?thesis by simp blast
qed

text \<open>Origins: the header is only ever set for an origin on the list, or for all if the list has a star.\<close>

lemma match_origin_allowed:
  "match_origin allowed origin = Some ao \<Longrightarrow> origin \<noteq> [] \<and> ao \<in> trim_space ` set allowed \<and> (ao = ''*'' \<or> ao = origin)"
  by (auto simp: match_origin_def dest!: find_set split: if_splits)

end
