(* ===== verification/Registry.thy ===== *)
theory Registry
  imports Store Config Cache Facts
begin

text \<open>
  \<^verbatim>\<open>pkg/connectors/registry.go\<close>: the operations of a tenant as the connector and manifest services see
  them, read from the database and cached per tenant for thirty seconds.
\<close>

section \<open>Data\<close>

record ConnectorRecord =
  cr_TenantID :: string
  cr_Kind :: string
  cr_BuiltinKind :: string
  cr_ConfigJSON :: gomap
  cr_SecretJSON :: gomap

record operationRow =
  or_Method :: string
  or_Path :: string
  or_Summary :: string
  or_Scopes :: "string list"
  or_Params :: "gomap list"
  or_BaseURL :: "string option"
  or_AuthRef :: "string option"
  or_Kind :: "string option"

definition zero_op :: operationRow where
  "zero_op = \<lparr> or_Method = [], or_Path = [], or_Summary = [], or_Scopes = [], or_Params = [], or_BaseURL = None,
     or_AuthRef = None, or_Kind = None \<rparr>"

text \<open>A cached entry: the operations and when they were loaded.\<close>

type_synonym byTenant = "(string \<times> (operationRow list \<times> int)) list"

definition registry_ttl :: int where "registry_ttl = 30 * second_ns"

text \<open>Builtin connectors: the factories are code registered by name.\<close>

definition RegisterFactory ::
  "(string \<times> (gomap \<Rightarrow> gomap \<Rightarrow> string + 'b)) list \<Rightarrow> string \<Rightarrow> (gomap \<Rightarrow> gomap \<Rightarrow> string + 'b)
     \<Rightarrow> (string \<times> (gomap \<Rightarrow> gomap \<Rightarrow> string + 'b)) list" where
  "RegisterFactory factories kind f = AList.update kind f factories"

definition InstantiateBuiltin :: "(string \<times> (gomap \<Rightarrow> gomap \<Rightarrow> string + 'b)) list \<Rightarrow> ConnectorRecord \<Rightarrow> string + 'b" where
  "InstantiateBuiltin factories rec =
     (if cr_BuiltinKind rec = [] then Inl ''not a builtin''
      else (case map_of factories (cr_BuiltinKind rec) of
              None \<Rightarrow> Inl (''no factory for builtin '' @ cr_BuiltinKind rec)
            | Some f \<Rightarrow> f (cr_ConfigJSON rec) (cr_SecretJSON rec)))"

section \<open>Loading\<close>

definition sample_ops :: "operationRow list" where
  "sample_ops =
     [zero_op\<lparr> or_Method := ''GET'', or_Path := ''/v1/dev/ping'', or_Summary := ''Ping test endpoint'', or_Scopes := [''dev:read''], or_Kind := Some ''sample'' \<rparr>,
      zero_op\<lparr> or_Method := ''POST'', or_Path := ''/v1/dev/echo'', or_Summary := ''Echo posted payload'', or_Scopes := [''dev:write''], or_Kind := Some ''sample'' \<rparr>,
      zero_op\<lparr> or_Method := ''GET'', or_Path := ''/v1/dev/orders/{id}'', or_Summary := ''Fetch mock order by id'', or_Scopes := [''order:read''], or_Kind := Some ''sample'' \<rparr>]"

text \<open>The query: operations of the tenant's definitions that the tenant has enabled.\<close>

definition enabled_for :: "db \<Rightarrow> string \<Rightarrow> string \<Rightarrow> nat" where
  "enabled_for d tid conn = length (filter (\<lambda>tc. tc_connector tc = conn \<and> tc_tenant tc = tid \<and> tc_enabled tc = Some True) (tenant_connectors d))"

definition registry_rows :: "db \<Rightarrow> string \<Rightarrow> (operation_row \<times> definition_row) list" where
  "registry_rows d tid = concat (map (\<lambda>q. concat (map (\<lambda>f. replicate (enabled_for d tid (df_id f)) (q, f))
      (filter (\<lambda>f. df_id f = op_connector q \<and> df_tenant f = tid) (definitions d)))) (operations d))"

text \<open>\<^verbatim>\<open>rows.Scan\<close> with its error dropped: a NULL method, path or summary leaves the columns from there on at
  their zero values, and ends the rows.\<close>

definition scan_full :: "operation_row \<Rightarrow> definition_row \<Rightarrow> string \<Rightarrow> string \<Rightarrow> string \<Rightarrow> operationRow" where
  "scan_full q f m p s = \<lparr> or_Method = m, or_Path = p, or_Summary = s,
     or_Scopes = (case op_scopes q of None \<Rightarrow> [] | Some xs \<Rightarrow> xs),
     or_Params = unmarshal_maps (coalesce_json (op_params q) (VArr [])),
     or_BaseURL = df_base_url f, or_AuthRef = df_auth_ref f, or_Kind = df_kind f \<rparr>"

fun scan_ops :: "(operation_row \<times> definition_row) list \<Rightarrow> operationRow list" where
  "scan_ops [] = []"
| "scan_ops ((q, f) # rs) =
     (case op_method q of
        None \<Rightarrow> [zero_op]
      | Some m \<Rightarrow>
         (case op_path q of
            None \<Rightarrow> [zero_op\<lparr> or_Method := m \<rparr>]
          | Some p \<Rightarrow>
             (case op_summary q of
                None \<Rightarrow> [zero_op\<lparr> or_Method := m, or_Path := p \<rparr>]
              | Some s \<Rightarrow> scan_full q f m p s # scan_ops rs)))"

definition fetch_ops :: "db option \<Rightarrow> string \<Rightarrow> operationRow list option" where
  "fetch_ops pool tid =
     (case pool of
        None \<Rightarrow> Some sample_ops
      | Some d \<Rightarrow> if faults d RegistryQuery then None else Some (scan_ops (registry_rows d tid)))"

section \<open>The cache\<close>

definition reg_get ::
  "(string \<Rightarrow> operationRow list option) \<Rightarrow> int \<Rightarrow> byTenant \<Rightarrow> string \<Rightarrow> operationRow list option \<times> byTenant" where
  "reg_get fetch now c tid =
     (case map_of c tid of
        Some (ops, loadedAt) \<Rightarrow>
          if now - loadedAt < registry_ttl then (Some ops, c)
          else (case fetch tid of None \<Rightarrow> (None, c) | Some ops' \<Rightarrow> (Some ops', AList.update tid (ops', now) c))
      | None \<Rightarrow> (case fetch tid of None \<Rightarrow> (None, c) | Some ops' \<Rightarrow> (Some ops', AList.update tid (ops', now) c)))"

definition LoadOperations :: "db option \<Rightarrow> int \<Rightarrow> byTenant \<Rightarrow> string \<Rightarrow> operationRow list option \<times> byTenant" where
  "LoadOperations pool now c tid = reg_get (fetch_ops pool) now c tid"

interpretation reg: ttl_cache registry_ttl map_of reg_get
proof unfold_locales
  show "0 < registry_ttl" by (simp add: registry_ttl_def second_ns_def)
qed (auto simp: reg_get_def fun_eq_iff update_conv' split: option.splits)

text \<open>C15: Operations are at most thirty seconds old.  For a database that changes over time and any sequence of
  lookups at non-decreasing times, starting from an empty cache, each answer is what the database
  held for that tenant at some moment within the thirty seconds before the lookup.\<close>

theorem LoadOperations_bounded_staleness:
  assumes "sorted (now0 # map fst rs)" "i < length rs" "rs ! i = (now, tid)"
    and "fst (LoadOperations (pool now) now
           (foldl (\<lambda>c (n, k). snd (LoadOperations (pool n) n c k)) [] (take i rs)) tid) = Some ops"
  shows "\<exists>t. now - 30 * second_ns < t \<and> t \<le> now \<and> fetch_ops (pool t) tid = Some ops"
proof -
  have "tracks (\<lambda>t. fetch_ops (pool t)) (map_of []) now0" by (simp add: tracks_def)
  from reg.run_fresh [OF this assms(1-3)] assms(4)
  have "fresh_value (\<lambda>t. fetch_ops (pool t)) registry_ttl now tid ops" by (simp add: LoadOperations_def)
  then show ?thesis by (simp add: fresh_value_def registry_ttl_def)
qed

theorem LoadOperations_bounded_staleness_witness:
  "\<exists>t. 7 - 30 * second_ns < t \<and> t \<le> 7 \<and> fetch_ops (None :: db option) ''t1'' = Some sample_ops"
  using LoadOperations_bounded_staleness [of 0 "[(5, ''t1''), (7, ''t1'')]" 1 7 "''t1''" "\<lambda>_. None" sample_ops]
  by (simp add: LoadOperations_def reg_get_def fetch_ops_def registry_ttl_def second_ns_def)

text \<open>Disabling an operation does not hide it.  What the registry lists for a tenant does not depend on
  whether the individual operations are enabled, although execution skips disabled ones.\<close>

theorem fetch_ops_ignores_enabled:
  "fetch_ops (Some (d\<lparr> operations := map (\<lambda>q. q\<lparr> op_enabled := f q \<rparr>) (operations d) \<rparr>)) tid = fetch_ops (Some d) tid"
proof -
  let ?d = "d\<lparr> operations := map (\<lambda>q. q\<lparr> op_enabled := f q \<rparr>) (operations d) \<rparr>"
  have rows: "registry_rows ?d tid = map (\<lambda>(q, g). (q\<lparr> op_enabled := f q \<rparr>, g)) (registry_rows d tid)"
    by (simp add: registry_rows_def enabled_for_def map_concat comp_def map_replicate)
  have scan: "scan_ops (map (\<lambda>(q, g). (q\<lparr> op_enabled := f q \<rparr>, g)) rs) = scan_ops rs" for rs
    by (induction rs rule: scan_ops.induct) (auto simp: scan_full_def split: option.splits)
  show ?thesis unfolding fetch_ops_def option.case rows scan by simp
qed

end
