(* ===== verification/Admin_Connectors.thy ===== *)
theory Admin_Connectors
  imports Admin_Config Registry Slugs Tenants
begin

text \<open>
  \<^verbatim>\<open>internal/adminapi/handlers_connectors.go\<close>: enabling connectors and defining a tenant's own.  Identifiers
  are compared in the server's canonical form; which texts the server reads as identifiers is the
  parameter \<open>is_uuid\<close>.  The legacy column \<^verbatim>\<open>kind\<close> of \<^verbatim>\<open>tenant_connectors\<close>, which no migration of the repository
  creates, is not represented: the statements for it differ from the others in that column only.
\<close>

section \<open>Enabling\<close>

definition tc_key :: "tenant_connector_row \<Rightarrow> string \<times> string" where
  "tc_key r = (tc_tenant r, tc_connector r)"

definition put_tc :: "string \<times> string \<times> bool \<times> string option \<Rightarrow> tenant_connector_row list \<Rightarrow> tenant_connector_row list" where
  "put_tc i rows = (case i of (tid, cid, enabled, enc) \<Rightarrow>
     upsert_by (\<lambda>r. tc_tenant r = tid \<and> tc_connector r = cid)
       (\<lambda>r. r\<lparr> tc_enabled := Some enabled, tc_secrets := coalesce enc (tc_secrets r) \<rparr>)
       \<lparr> tc_tenant = tid, tc_connector = cid, tc_enabled = Some enabled, tc_secrets = enc \<rparr> rows)"

interpretation tc_table: upsert_table tc_key "\<lambda>(tid, cid, enabled, enc). (tid, cid)" put_tc
proof (unfold_locales, goal_cases)
  case (1 i rows)
  show ?case by (cases i) (simp only: put_tc_def prod.case, rule upsert_keys, auto simp: tc_key_def)
next
  case (2 i rows)
  show ?case by (cases i) (simp only: put_tc_def prod.case, rule upsert_other, auto simp: tc_key_def)
qed

definition store_tc :: "db \<Rightarrow> string \<Rightarrow> string \<Rightarrow> bool \<Rightarrow> string option \<Rightarrow> db option" where
  "store_tc d tid cid enabled enc =
     (if faults d PutTenantConnector \<or> \<not> tenant_exists d tid then None
      else Some (d\<lparr> tenant_connectors := put_tc (tid, cid, enabled, enc) (tenant_connectors d) \<rparr>))"

text \<open>The action seeded for an enabled connector; the statement sets no tenant, and its error is dropped.\<close>

definition insert_action :: "db \<Rightarrow> string \<Rightarrow> string \<Rightarrow> db" where
  "insert_action d tid display =
     (if faults d InsertAction \<or> \<not> rls_can_write d NoCtx tid \<or> \<not> tenant_exists d tid
         \<or> list_ex (\<lambda>r. an_tenant r = tid \<and> an_key r = slugify display) (actions d)
      then d
      else d\<lparr> actions := actions d @ [\<lparr> an_tenant = tid, an_key = slugify display, an_display = Some display,
             an_schema = Some (VMap []) \<rparr>] \<rparr>)"

definition tenant_definition :: "db \<Rightarrow> string \<Rightarrow> string \<Rightarrow> definition_row option" where
  "tenant_definition d cid tid =
     (if faults d SelectDefinition then None else find (\<lambda>f. df_id f = cid \<and> df_tenant f = tid) (definitions d))"

definition def_display :: "db \<Rightarrow> string \<Rightarrow> string \<Rightarrow> string" where
  "def_display d cid tid = (case tenant_definition d cid tid of None \<Rightarrow> [] | Some f \<Rightarrow> or_blank (coalesce (df_title f) (df_kind f)))"

definition connector_display :: "db \<Rightarrow> string \<Rightarrow> string \<Rightarrow> string" where
  "connector_display d cid tid =
     (let disp = def_display d cid tid in
      if trim_space disp \<noteq> [] then disp
      else if faults d SelectConnector then disp
      else (case find (\<lambda>c. cn_id c = cid) (connectors d) of None \<Rightarrow> disp | Some c \<Rightarrow> cn_display c))"

record ConnectorBody =
  cb_Enabled :: bool
  cb_Secrets :: "(string \<times> string) list option"

definition toggle_connector :: "db \<Rightarrow> string \<Rightarrow> string \<Rightarrow> bool \<Rightarrow> string option \<Rightarrow> admin_response \<times> db" where
  "toggle_connector d tid cid enabled enc =
     (case store_tc d tid cid enabled enc of
        None \<Rightarrow> (AErr 500 ''db error'', d)
      | Some d1 \<Rightarrow>
          let disp = connector_display d1 cid tid
          in (ok_json [], if enabled \<and> trim_space disp \<noteq> [] then insert_action d1 tid disp else d1))"

definition putTenantConnector :: "vault \<Rightarrow> db \<Rightarrow> string \<Rightarrow> string \<Rightarrow> ConnectorBody option \<Rightarrow> admin_response \<times> db" where
  "putTenantConnector va d tid cid body =
     (if cid = [] then (AErr 400 ''missing connectorId'', d)
      else (case body of
              None \<Rightarrow> (AErr 400 ''bad json'', d)
            | Some b \<Rightarrow>
               (case cb_Secrets b of
                  None \<Rightarrow> toggle_connector d tid cid (cb_Enabled b) None
                | Some sec \<Rightarrow>
                   (case encrypt_secrets va (Some sec) of
                      None \<Rightarrow> (AErr 500 ''encrypt'', d)
                    | Some enc \<Rightarrow> toggle_connector d tid cid (cb_Enabled b) (Some enc)))))"

section \<open>Custom connectors\<close>

record op_body =
  ob_Method :: string
  ob_Path :: string
  ob_Summary :: string
  ob_Scopes :: "string list option"
  ob_Params :: "gomap list option"
  ob_RequestTmpl :: gomap
  ob_Enabled :: "bool option"

record CustomConnectorBody =
  cc_Display :: string
  cc_Title :: string
  cc_Summary :: string
  cc_BaseURL :: string
  cc_AuthRef :: "string option"
  cc_Enabled :: "bool option"
  cc_Operations :: "op_body list"
  cc_Actions :: "op_body list"

definition op_list :: "CustomConnectorBody \<Rightarrow> op_body list" where
  "op_list b = (if cc_Actions b = [] then cc_Operations b else cc_Actions b)"

definition op_row_of :: "string \<Rightarrow> string \<Rightarrow> op_body \<Rightarrow> operation_row" where
  "op_row_of i cid ob = \<lparr> op_id = i, op_connector = cid, op_method = Some (to_upper (ob_Method ob)), op_path = Some (ob_Path ob),
     op_summary = Some (ob_Summary ob), op_scopes = ob_Scopes ob, op_params = needs_param (ob_Params ob),
     op_request_tmpl = json_param (ob_RequestTmpl ob), op_enabled = Some (case ob_Enabled ob of Some e \<Rightarrow> e | None \<Rightarrow> True) \<rparr>"

definition insert_op :: "db \<Rightarrow> operation_row \<Rightarrow> db" where
  "insert_op d q = (if faults d InsertOperation then d else add_operation d q)"

text \<open>\<open>fresh\<close> delivers the identifiers the handler generates, the connector's first.\<close>

definition insert_ops :: "(nat \<Rightarrow> string) \<Rightarrow> string \<Rightarrow> op_body list \<Rightarrow> db \<Rightarrow> db" where
  "insert_ops fresh cid obs d = foldl (\<lambda>d (i, ob). insert_op d (op_row_of (fresh (Suc i)) cid ob)) d (enumerate 0 obs)"

definition custom_definition :: "string \<Rightarrow> string \<Rightarrow> CustomConnectorBody \<Rightarrow> definition_row" where
  "custom_definition i tid b = \<lparr> df_id = i, df_tenant = tid, df_kind = Some (cc_Display b), df_builtin_kind = Some [],
     df_config = Some (VMap []), df_secret = Some (VMap []), df_base_url = Some (cc_BaseURL b), df_auth_ref = cc_AuthRef b,
     df_title = nullIfEmpty (cc_Title b), df_summary = nullIfEmpty (cc_Summary b) \<rparr>"

definition ref_ok :: "(string \<Rightarrow> bool) \<Rightarrow> string option \<Rightarrow> bool" where
  "ref_ok is_uuid r = (case r of None \<Rightarrow> True | Some x \<Rightarrow> is_uuid x)"

definition enable_quietly :: "db \<Rightarrow> string \<Rightarrow> string \<Rightarrow> bool \<Rightarrow> db" where
  "enable_quietly d tid cid e = (case store_tc d tid cid e None of None \<Rightarrow> d | Some d' \<Rightarrow> d')"

definition body_label :: "CustomConnectorBody \<Rightarrow> string" where
  "body_label b = (if trim_space (cc_Title b) = [] then trim_space (cc_Display b) else trim_space (cc_Title b))"

definition createCustomConnector ::
  "(string \<Rightarrow> bool) \<Rightarrow> (nat \<Rightarrow> string) \<Rightarrow> db \<Rightarrow> string \<Rightarrow> CustomConnectorBody option \<Rightarrow> admin_response \<times> db" where
  "createCustomConnector is_uuid fresh d tid body =
     (case body of
        None \<Rightarrow> (AErr 400 ''bad json'', d)
      | Some b \<Rightarrow>
          if cc_Display b = [] \<or> cc_BaseURL b = [] then (AErr 400 ''missing fields'', d)
          else if faults d InsertDefinition \<or> \<not> tenant_exists d tid \<or> \<not> ref_ok is_uuid (cc_AuthRef b)
             \<or> list_ex (\<lambda>f. df_id f = fresh 0 \<or> df_tenant f = tid \<and> df_kind f = Some (cc_Display b)) (definitions d)
          then (AErr 500 ''db error'', d)
          else
            let d1 = d\<lparr> definitions := definitions d @ [custom_definition (fresh 0) tid b] \<rparr>;
                d2 = insert_ops fresh (fresh 0) (op_list b) d1;
                d3 = (if cc_Enabled b = Some True
                      then let d' = enable_quietly d2 tid (fresh 0) True
                           in if body_label b \<noteq> [] then insert_action d' tid (body_label b) else d'
                      else d2)
            in (AJson 201 [(''ok'', VBool True), (''id'', VStr (fresh 0))], d3))"

definition updated_definition :: "CustomConnectorBody \<Rightarrow> definition_row \<Rightarrow> definition_row" where
  "updated_definition b f = f\<lparr> df_kind := coalesce (nullIfEmpty (cc_Display b)) (df_kind f),
     df_base_url := coalesce (nullIfEmpty (cc_BaseURL b)) (df_base_url f), df_auth_ref := coalesce (cc_AuthRef b) (df_auth_ref f),
     df_title := coalesce (nullIfEmpty (cc_Title b)) (df_title f), df_summary := coalesce (nullIfEmpty (cc_Summary b)) (df_summary f) \<rparr>"

definition kind_taken :: "db \<Rightarrow> string \<Rightarrow> string \<Rightarrow> CustomConnectorBody \<Rightarrow> bool" where
  "kind_taken d tid cid b \<longleftrightarrow> list_ex (\<lambda>f. df_id f = cid \<and> df_tenant f = tid) (definitions d)
     \<and> nullIfEmpty (cc_Display b) \<noteq> None
     \<and> list_ex (\<lambda>f. df_id f \<noteq> cid \<and> df_tenant f = tid \<and> df_kind f = nullIfEmpty (cc_Display b)) (definitions d)"

definition update_label :: "db \<Rightarrow> string \<Rightarrow> string \<Rightarrow> CustomConnectorBody \<Rightarrow> string" where
  "update_label d tid cid b = (if body_label b = [] then def_display d cid tid else body_label b)"

definition enable_from_body :: "db \<Rightarrow> string \<Rightarrow> string \<Rightarrow> CustomConnectorBody \<Rightarrow> db" where
  "enable_from_body d tid cid b =
     (case cc_Enabled b of
        None \<Rightarrow> d
      | Some e \<Rightarrow>
          let d1 = enable_quietly d tid cid e; disp = update_label d1 tid cid b
          in if e \<and> trim_space disp \<noteq> [] then insert_action d1 tid disp else d1)"

definition delete_ops :: "db \<Rightarrow> string \<Rightarrow> db" where
  "delete_ops d cid = (if faults d DeleteOperations then d else d\<lparr> operations := filter (\<lambda>q. op_connector q \<noteq> cid) (operations d) \<rparr>)"

definition updateCustomConnector ::
  "(string \<Rightarrow> bool) \<Rightarrow> (nat \<Rightarrow> string) \<Rightarrow> db \<Rightarrow> string \<Rightarrow> string \<Rightarrow> CustomConnectorBody option \<Rightarrow> admin_response \<times> db" where
  "updateCustomConnector is_uuid fresh d tid cid body =
     (case body of
        None \<Rightarrow> (AErr 400 ''bad json'', d)
      | Some b \<Rightarrow>
          if trim_space (case tenant_definition d cid tid of None \<Rightarrow> [] | Some f \<Rightarrow> or_blank (df_builtin_kind f)) \<noteq> []
          then (AErr 403 ''builtin_connectors_are_readonly'', d)
          else if faults d UpdateDefinition \<or> \<not> is_uuid cid \<or> \<not> ref_ok is_uuid (cc_AuthRef b) \<or> kind_taken d tid cid b
          then (AErr 500 ''db error'', d)
          else
            let d1 = d\<lparr> definitions := map (\<lambda>f. if df_id f = cid \<and> df_tenant f = tid then updated_definition b f else f) (definitions d) \<rparr>;
                d2 = enable_from_body d1 tid cid b;
                d3 = (if op_list b = [] then d2 else insert_ops fresh cid (op_list b) (delete_ops d2 cid))
            in (ok_json [], d3))"

section \<open>Single operations\<close>

definition owned_operation :: "db \<Rightarrow> string \<Rightarrow> string \<Rightarrow> string \<Rightarrow> bool" where
  "owned_operation d opid cid tid \<longleftrightarrow> \<not> faults d SelectOperations
     \<and> list_ex (\<lambda>q. op_id q = opid \<and> op_connector q = cid
          \<and> list_ex (\<lambda>f. df_id f = cid \<and> df_tenant f = tid) (definitions d)) (operations d)"

definition putConnectorAction :: "db \<Rightarrow> string \<Rightarrow> string \<Rightarrow> string \<Rightarrow> bool option \<Rightarrow> admin_response \<times> db" where
  "putConnectorAction d tid cid opid body =
     (if cid = [] \<or> opid = [] then (AErr 400 ''missing ids'', d)
      else if \<not> owned_operation d opid cid tid then (AErr 404 ''not found'', d)
      else (case body of
              None \<Rightarrow> (AErr 400 ''bad json'', d)
            | Some e \<Rightarrow>
                if faults d EnableOperation then (AErr 500 ''db error'', d)
                else (ok_json [], d\<lparr> operations := map (\<lambda>q. if op_id q = opid then q\<lparr> op_enabled := Some e \<rparr> else q) (operations d) \<rparr>)))"

section \<open>Listings\<close>

definition params_value :: "gval option \<Rightarrow> gval" where
  "params_value v = (case coalesce_json v (VArr []) of
       VArr xs \<Rightarrow> VArr (map any_of_map (unmarshal_maps (VArr xs))) | _ \<Rightarrow> VNil)"

definition op_members :: "operation_row \<Rightarrow> kvs option" where
  "op_members q =
     (case (op_method q, op_path q, op_summary q) of
        (Some m, Some p, Some sm) \<Rightarrow>
          Some [(''id'', VStr (op_id q)), (''method'', VStr m), (''path'', VStr p), (''summary'', VStr sm),
             (''scopes'', VArr (map VStr (case op_scopes q of None \<Rightarrow> [] | Some xs \<Rightarrow> xs))),
             (''params'', params_value (op_params q)),
             (''request_tmpl'', any_of_map (unmarshal_map (coalesce_json (op_request_tmpl q) (VMap []))))]
      | _ \<Rightarrow> None)"

definition op_on :: "operation_row \<Rightarrow> bool" where
  "op_on q = (case op_enabled q of None \<Rightarrow> True | Some e \<Rightarrow> e)"

definition full_op_item :: "operation_row \<Rightarrow> gval option" where
  "full_op_item q = map_option (\<lambda>m. VMap (m @ [(''enabled'', VBool (op_on q))])) (op_members q)"

definition getCustomConnector ::
  "(operation_row list \<Rightarrow> operation_row list) \<Rightarrow> db \<Rightarrow> string \<Rightarrow> string \<Rightarrow> admin_response" where
  "getCustomConnector order d tid cid =
     (case tenant_definition d cid tid of
        None \<Rightarrow> AErr 404 ''custom connector not found for tenant''
      | Some f \<Rightarrow>
         (case df_kind f of
            None \<Rightarrow> AErr 404 ''custom connector not found for tenant''
          | Some kind \<Rightarrow>
              if faults d SelectOperations then AErr 500 ''db error''
              else (case seq_opts (map full_op_item (order (filter (\<lambda>q. op_connector q = cid) (operations d)))) of
                      None \<Rightarrow> AErr 500 ''db error''
                    | Some vs \<Rightarrow> AJson 200 [(''id'', VStr (df_id f)), (''display_name'', VStr kind), (''title'', nilIfNull (df_title f)),
                          (''summary'', nilIfNull (df_summary f)), (''base_url'', nilIfNull (df_base_url f)),
                          (''auth_ref'', nilIfNull (df_auth_ref f)), (''actions'', VArr vs), (''operations'', VArr vs)])))"

definition nil_if_none :: "gval list \<Rightarrow> gval" where
  "nil_if_none vs = (if vs = [] then VNil else VArr vs)"

definition listConnectorActions ::
  "(operation_row list \<Rightarrow> operation_row list) \<Rightarrow> db \<Rightarrow> string \<Rightarrow> string \<Rightarrow> admin_response" where
  "listConnectorActions order d tid cid =
     (if trim_space cid = [] then AErr 400 ''missing id''
      else (case tenant_definition d cid tid of
              None \<Rightarrow> AErr 404 ''not found''
            | Some f \<Rightarrow>
                if faults d SelectOperations then AErr 500 ''db error''
                else (case seq_opts (map (map_option VMap \<circ> op_members)
                             (order (filter (\<lambda>q. op_connector q = cid \<and> op_on q) (operations d)))) of
                        None \<Rightarrow> AErr 500 ''db error''
                      | Some vs \<Rightarrow> AJson 200 [(''connector'', VMap [(''id'', VStr cid),
                            (''display'', VStr (case coalesce (df_title f) (df_kind f) of Some x \<Rightarrow> x | None \<Rightarrow> df_id f))]),
                            (''items'', nil_if_none vs)])))"

definition tc_on :: "db \<Rightarrow> string \<Rightarrow> string \<Rightarrow> bool" where
  "tc_on d tid cid = (case find (\<lambda>r. tc_key r = (tid, cid)) (tenant_connectors d) of Some r \<Rightarrow> tc_enabled r = Some True | None \<Rightarrow> False)"

definition definition_item :: "db \<Rightarrow> string \<Rightarrow> definition_row \<Rightarrow> gval option" where
  "definition_item d tid f =
     (case (df_kind f, df_builtin_kind f) of
        (Some k, Some bk) \<Rightarrow>
          Some (VMap [(''id'', VStr (df_id f)), (''kind'', VStr k), (''builtin_kind'', VStr bk),
             (''config'', any_of_map (case df_config f of None \<Rightarrow> None | Some v \<Rightarrow> unmarshal_map v)),
             (''base_url'', nilIfNull (df_base_url f)), (''auth_ref'', nilIfNull (df_auth_ref f)), (''title'', nilIfNull (df_title f)),
             (''summary'', nilIfNull (df_summary f)), (''enabled'', VBool (tc_on d tid (df_id f)))])
      | _ \<Rightarrow> None)"

definition nil_listing :: "gval option list \<Rightarrow> admin_response" where
  "nil_listing items = (case seq_opts items of None \<Rightarrow> AErr 500 ''db error'' | Some vs \<Rightarrow> AJson 200 [(''items'', nil_if_none vs)])"

definition listTenantConnectors :: "(definition_row list \<Rightarrow> definition_row list) \<Rightarrow> db \<Rightarrow> string \<Rightarrow> admin_response" where
  "listTenantConnectors order d tid =
     (if faults d ListConnectors then AErr 500 ''db error''
      else nil_listing (map (definition_item d tid) (order (filter (\<lambda>f. df_tenant f = tid) (definitions d)))))"

text \<open>A configured connector: source, id, kind, display name, requirements, enabled; the columns that can be
  NULL are options.\<close>

type_synonym configured = "string \<times> string \<times> string option \<times> string option \<times> gval \<times> bool option"

definition configured_rows :: "db \<Rightarrow> string \<Rightarrow> configured list" where
  "configured_rows d tid =
     concat (map (\<lambda>c. map (\<lambda>r. (''builtin'', cn_id c, Some (cn_kind c), Some (cn_display c), cn_requirements c, tc_enabled r))
        (filter (\<lambda>r. tc_key r = (tid, cn_id c)) (tenant_connectors d))) (connectors d))
     @ map (\<lambda>f. (''custom'', df_id f, df_kind f, coalesce (df_title f) (df_kind f), VMap [], Some (tc_on d tid (df_id f))))
        (filter (\<lambda>f. df_tenant f = tid) (definitions d))"

definition configured_item :: "configured \<Rightarrow> gval option" where
  "configured_item r =
     (case r of
        (src, i, Some kind, Some disp, req, Some e) \<Rightarrow>
          Some (VMap [(''id'', VStr i), (''type'', VStr src), (''kind'', VStr kind), (''display_name'', VStr disp),
             (''requirements'', any_of_map (unmarshal_map req)), (''enabled'', VBool e)])
      | _ \<Rightarrow> None)"

definition listConfiguredConnectors :: "(configured list \<Rightarrow> configured list) \<Rightarrow> db \<Rightarrow> string \<Rightarrow> admin_response" where
  "listConfiguredConnectors order d tid =
     (if faults d ListConnectors then AErr 500 ''db error'' else nil_listing (map configured_item (order (configured_rows d tid))))"

section \<open>Properties\<close>

lemma store_tc_frame:
  "store_tc d tid cid e enc = Some d' \<Longrightarrow> operations d' = operations d \<and> definitions d' = definitions d \<and> faults d' = faults d"
  by (auto simp: store_tc_def split: if_splits)

lemma enable_quietly_frame [simp]:
  "operations (enable_quietly d tid cid e) = operations d" "definitions (enable_quietly d tid cid e) = definitions d"
  "faults (enable_quietly d tid cid e) = faults d"
  using store_tc_frame by (auto simp: enable_quietly_def split: option.splits)

lemma insert_action_frame [simp]:
  "operations (insert_action d tid disp) = operations d" "definitions (insert_action d tid disp) = definitions d"
  "faults (insert_action d tid disp) = faults d"
  by (simp_all add: insert_action_def)

lemma enable_from_body_frame [simp]:
  "operations (enable_from_body d tid cid b) = operations d" "definitions (enable_from_body d tid cid b) = definitions d"
  "faults (enable_from_body d tid cid b) = faults d"
  by (simp_all add: enable_from_body_def Let_def split: option.split)

lemma insert_op_frame [simp]:
  "definitions (insert_op d q) = definitions d" "faults (insert_op d q) = faults d"
  by (simp_all add: insert_op_def add_operation_def)

text \<open>C40: A tenant can replace the operations of another tenant's connector.  If no tenant but the owner has a
  definition with the id, an update by another tenant, here with one operation, is answered with success:
  the owner's operations are deleted, and the intruder's operation is the only one of the connector.\<close>

theorem update_replaces_foreign_operations:
  assumes "f \<in> set (definitions d)" "df_id f = cid" "\<And>f'. f' \<in> set (definitions d) \<Longrightarrow> df_id f' = cid \<Longrightarrow> df_tenant f' \<noteq> tid"
    and "is_uuid cid" "ref_ok is_uuid (cc_AuthRef b)" "op_list b = [ob]" "\<And>q. q \<in> set (operations d) \<Longrightarrow> op_id q \<noteq> fresh 1"
    and "\<not> faults d UpdateDefinition" "\<not> faults d DeleteOperations" "\<not> faults d InsertOperation"
  shows "\<exists>d'. updateCustomConnector is_uuid fresh d tid cid (Some b) = (AJson 200 [(''ok'', VBool True)], d')
    \<and> operations d' = filter (\<lambda>q. op_connector q \<noteq> cid) (operations d) @ [op_row_of (fresh 1) cid ob]"
proof -
  have none: "tenant_definition d cid tid = None"
    using assms(3) by (auto simp: tenant_definition_def find_None_iff)
  have same: "map (\<lambda>f. if df_id f = cid \<and> df_tenant f = tid then updated_definition b f else f) (definitions d) = definitions d"
    by (rule map_idI) (use assms(3) in \<open>metis (no_types)\<close>)
  have "\<not> kind_taken d tid cid b" using assms(3) by (auto simp: kind_taken_def list_ex_iff)
  moreover have "trim_space [] = []" by code_simp
  moreover have "list_ex (\<lambda>f. df_id f = cid) (definitions d)" using assms(1,2) by (auto simp: list_ex_iff)
  moreover have "\<not> list_ex (\<lambda>r. op_id r = fresh (Suc 0)) (filter (\<lambda>q. op_connector q \<noteq> cid) (operations d))"
    using assms(7) by (auto simp: list_ex_iff)
  ultimately show ?thesis
    using assms(4-6,8-10)
    by (simp add: updateCustomConnector_def none same Let_def ok_json_def insert_ops_def insert_op_def delete_ops_def
        add_operation_def enumerate_eq_zip op_row_of_def)
qed

text \<open>Switching a single operation stays within the tenant.  Whatever the request, an operation whose connector has
  no definition of this tenant is the same afterwards.\<close>

theorem put_action_stays_in_tenant:
  assumes "putConnectorAction d tid cid opid body = (resp, d')" "distinct (map op_id (operations d))"
    and "q \<in> set (operations d)" "\<And>f. f \<in> set (definitions d) \<Longrightarrow> df_id f = op_connector q \<Longrightarrow> df_tenant f \<noteq> tid"
  shows "q \<in> set (operations d')"
proof (cases "owned_operation d opid cid tid \<and> d' \<noteq> d")
  case True
  then obtain q' where q': "q' \<in> set (operations d)" "op_id q' = opid" "op_connector q' = cid"
    "\<exists>f \<in> set (definitions d). df_id f = cid \<and> df_tenant f = tid" by (auto simp: owned_operation_def list_ex_iff)
  then have "op_connector q \<noteq> cid" using assms(4) by blast
  then have "op_id q \<noteq> opid" using q' assms(2,3) by (auto simp: distinct_map inj_on_def)
  then show ?thesis
    using assms(1,3) True by (auto simp: putConnectorAction_def image_iff split: if_splits option.splits)
next
  case False
  then show ?thesis using assms(1,3) by (auto simp: putConnectorAction_def split: if_splits option.splits)
qed

lemma insert_ops_from:
  assumes "inj fresh" "list_ex (\<lambda>f. df_id f = cid) (definitions d)" "\<not> faults d InsertOperation"
    and "\<And>q. q \<in> set (operations d) \<Longrightarrow> op_id q \<notin> fresh ` {Suc n..}"
  shows "operations (foldl (\<lambda>d (i, ob). insert_op d (op_row_of (fresh (Suc i)) cid ob)) d (enumerate n obs))
     = operations d @ map (\<lambda>(i, ob). op_row_of (fresh (Suc i)) cid ob) (enumerate n obs)"
  using assms(2-)
proof (induction obs arbitrary: n d)
  case (Cons ob obs)
  let ?q = "op_row_of (fresh (Suc n)) cid ob"
  have "\<not> list_ex (\<lambda>r. op_id r = fresh (Suc n)) (operations d)" using Cons.prems(3) by (auto simp: list_ex_iff)
  then have ops: "operations (insert_op d ?q) = operations d @ [?q]"
    using Cons.prems(1,2) by (simp add: insert_op_def add_operation_def op_row_of_def)
  have "op_id q \<notin> fresh ` {Suc (Suc n)..}" if "q \<in> set (operations (insert_op d ?q))" for q
  proof -
    from that ops consider "q \<in> set (operations d)" | "q = ?q" by auto
    then show ?thesis
    proof cases
      case 1
      then show ?thesis using Cons.prems(3) by fastforce
    next
      case 2
      then show ?thesis using assms(1) by (auto simp: op_row_of_def inj_eq)
    qed
  qed
  then show ?case using Cons.IH [of "insert_op d ?q" "Suc n"] Cons.prems(1,2) by (simp add: ops)
qed simp

lemma insert_ops_frame [simp]: "definitions (insert_ops fresh cid obs d) = definitions d"
proof -
  have "definitions (foldl (\<lambda>d (i, ob). insert_op d (op_row_of (fresh (Suc i)) cid ob)) d xs) = definitions d" for xs
    by (induction xs arbitrary: d) auto
  then show ?thesis by (simp add: insert_ops_def)
qed


text \<open>Two tenants; the second owns a connector with one operation.\<close>

definition two_tenants_db :: db where
  "two_tenants_db = exec_db\<lparr> tenants := [shop_tenant\<lparr> tn_id := ''t1'' \<rparr>, shop_tenant] \<rparr>"

definition intruder_op :: op_body where
  "intruder_op = \<lparr> ob_Method = ''delete'', ob_Path = ''/v1/orders'', ob_Summary = [], ob_Scopes = None, ob_Params = None,
     ob_RequestTmpl = None, ob_Enabled = None \<rparr>"

definition intruder_body :: CustomConnectorBody where
  "intruder_body = \<lparr> cc_Display = [], cc_Title = [], cc_Summary = [], cc_BaseURL = [], cc_AuthRef = None, cc_Enabled = None,
     cc_Operations = [intruder_op], cc_Actions = [] \<rparr>"

lemma two_tenants_fields [simp]:
  "definitions two_tenants_db = [shop_definition ''t2'']" "faults two_tenants_db = (\<lambda>_. False)"
  "operations two_tenants_db = [shop_operation ''GET'' ''/v1/orders'' (VMap []), shop_operation ''POST'' ''/v1/orders/{id}/cancel'' cancel_tmpl]"
  by (simp_all add: two_tenants_db_def exec_db_def decided_db_def policy_db_def demo_db_def empty_db_def)

theorem update_replaces_foreign_operations_witness:
  "\<exists>d'. updateCustomConnector (\<lambda>_. True) (\<lambda>_. ''new'') two_tenants_db ''t1'' ''c1'' (Some intruder_body) = (AJson 200 [(''ok'', VBool True)], d')
    \<and> operations d' = [op_row_of ''new'' ''c1'' intruder_op]"
proof -
  have "\<exists>d'. updateCustomConnector (\<lambda>_. True) (\<lambda>_. ''new'') two_tenants_db ''t1'' ''c1'' (Some intruder_body) = (AJson 200 [(''ok'', VBool True)], d')
    \<and> operations d' = filter (\<lambda>q. op_connector q \<noteq> ''c1'') (operations two_tenants_db) @ [op_row_of ''new'' ''c1'' intruder_op]"
    by (rule update_replaces_foreign_operations)
      (auto simp: shop_definition_def shop_operation_def ref_ok_def intruder_body_def op_list_def)
  then show ?thesis by (simp add: shop_operation_def)
qed

theorem put_action_stays_in_tenant_witness:
  "\<exists>d'. putConnectorAction two_tenants_db ''t1'' ''c1'' ''/v1/orders'' (Some False) = (AErr 404 ''not found'', d')
     \<and> shop_operation ''GET'' ''/v1/orders'' (VMap []) \<in> set (operations d')"
proof -
  have p: "putConnectorAction two_tenants_db ''t1'' ''c1'' ''/v1/orders'' (Some False) = (AErr 404 ''not found'', two_tenants_db)"
    by (simp add: putConnectorAction_def owned_operation_def shop_definition_def)
  have "shop_operation ''GET'' ''/v1/orders'' (VMap []) \<in> set (operations two_tenants_db)"
    by (rule put_action_stays_in_tenant [OF p]) (auto simp: shop_operation_def shop_definition_def)
  with p show ?thesis by blast
qed

definition shop_body :: CustomConnectorBody where
  "shop_body = intruder_body\<lparr> cc_Display := ''My Shop'', cc_BaseURL := ''https://x.test'' \<rparr>"


end
