(* ===== verification/Admin_Registry.thy ===== *)
theory Admin_Registry
  imports Admin_Connectors
begin

text \<open>
  The global catalogue of connectors: \<^verbatim>\<open>internal/adminapi/registry.go\<close> (import from a directory and the default
  entry), \<^verbatim>\<open>handlers_registry.go\<close> and the start of the application in \<^verbatim>\<open>app.go\<close>.  The decoders for JSON and YAML
  and the server's \<^verbatim>\<open>ILIKE\<close> are parameters; a directory is the list of its files in walking order, each
  with its content, or nothing if it cannot be read.
\<close>

section \<open>Specifications\<close>

record capability =
  cap_Canonical :: string
  cap_Mode :: string
  cap_Constraints :: gomap

record ConnectorSpec =
  cs_ID :: string
  cs_Kind :: string
  cs_DisplayName :: string
  cs_Capabilities :: "capability list option"
  cs_Secrets :: "string list option"
  cs_Webhooks :: "string list option"
  cs_AuditMode :: string

definition strings_value :: "string list option \<Rightarrow> gval" where
  "strings_value xs = (case xs of None \<Rightarrow> VNil | Some ss \<Rightarrow> VArr (map VStr ss))"

definition capability_value :: "capability \<Rightarrow> gval" where
  "capability_value c = VMap ([(''canonical'', VStr (cap_Canonical c)), (''mode'', VStr (cap_Mode c))]
     @ (case cap_Constraints c of Some (x # xs) \<Rightarrow> [(''constraints'', VMap (x # xs))] | _ \<Rightarrow> []))"

definition capabilities_value :: "capability list option \<Rightarrow> gval" where
  "capabilities_value cs = (case cs of None \<Rightarrow> VNil | Some xs \<Rightarrow> VArr (map capability_value xs))"

definition requirements_value :: "ConnectorSpec \<Rightarrow> gval" where
  "requirements_value s = VMap [(''secrets'', strings_value (cs_Secrets s)), (''webhooks'', strings_value (cs_Webhooks s))]"

text \<open>The extension of a path: from the last dot of its last element.\<close>

definition file_ext :: "string \<Rightarrow> string" where
  "file_ext path =
     (let base = rev (takeWhile (\<lambda>c. c \<noteq> CHR ''/'') (rev path)); suffix = takeWhile (\<lambda>c. c \<noteq> CHR ''.'') (rev base)
      in if length suffix < length base then CHR ''.'' # rev suffix else [])"

type_synonym decoder = "string \<Rightarrow> string + ConnectorSpec"

text \<open>Walking the files: an unreadable or undecodable file ends the walk with an error.\<close>

fun load_files :: "decoder \<Rightarrow> decoder \<Rightarrow> (string \<times> string option) list \<Rightarrow> string + ConnectorSpec list" where
  "load_files js ya [] = Inr []"
| "load_files js ya ((path, content) # fs) =
     (let ext = to_lower (file_ext path) in
      if ext \<noteq> ''.yaml'' \<and> ext \<noteq> ''.yml'' \<and> ext \<noteq> ''.json'' then load_files js ya fs
      else (case content of
              None \<Rightarrow> Inl ''read error''
            | Some b \<Rightarrow>
               (case (if ext = ''.json'' then js b else ya b) of
                  Inl e \<Rightarrow> Inl (if ext = ''.json'' then e else ''yaml parse: '' @ e)
                | Inr spec \<Rightarrow>
                   (case load_files js ya fs of
                      Inl e \<Rightarrow> Inl e
                    | Inr specs \<Rightarrow> Inr (if cs_ID spec \<noteq> [] then spec # specs else specs)))))"

section \<open>The catalogue\<close>

definition put_connector :: "string \<times> ConnectorSpec \<Rightarrow> connector_row list \<Rightarrow> connector_row list" where
  "put_connector i rows = (case i of (cid, s) \<Rightarrow>
     let kind = (if cs_Kind s = [] then cid else cs_Kind s) in
     upsert_by (\<lambda>c. cn_id c = cid)
       (\<lambda>c. c\<lparr> cn_kind := kind, cn_display := cs_DisplayName s, cn_capabilities := capabilities_value (cs_Capabilities s),
               cn_requirements := requirements_value s, cn_audit := cs_AuditMode s \<rparr>)
       \<lparr> cn_id = cid, cn_kind = kind, cn_display = cs_DisplayName s, cn_capabilities = capabilities_value (cs_Capabilities s),
         cn_requirements = requirements_value s, cn_audit = cs_AuditMode s, cn_category = None, cn_tags = Some [] \<rparr> rows)"

interpretation catalogue: upsert_table cn_id fst put_connector
proof (unfold_locales, goal_cases)
  case (1 i rows)
  show ?case by (cases i) (simp only: put_connector_def prod.case Let_def fst_conv, rule upsert_keys, auto)
next
  case (2 i rows)
  show ?case by (cases i) (simp only: put_connector_def prod.case Let_def fst_conv, rule upsert_other, auto)
qed

text \<open>The loop of the import: it stops at the first statement that fails, keeping what it has stored.\<close>

fun import_specs :: "ConnectorSpec list \<Rightarrow> db \<Rightarrow> string option \<times> db" where
  "import_specs [] d = (None, d)"
| "import_specs (s # ss) d =
     (if cs_ID s = [] then import_specs ss d
      else if faults d UpsertConnector then (Some ''db error'', d)
      else import_specs ss (d\<lparr> connectors := put_connector (cs_ID s, s) (connectors d) \<rparr>))"

definition importConnectorsFromDir :: "decoder \<Rightarrow> decoder \<Rightarrow> (string \<times> string option) list \<Rightarrow> db \<Rightarrow> string option \<times> db" where
  "importConnectorsFromDir js ya files d =
     (case load_files js ya files of
        Inl e \<Rightarrow> (Some e, d)
      | Inr specs \<Rightarrow> import_specs specs d)"

definition sample_connector :: connector_row where
  "sample_connector = \<lparr> cn_id = ''sample'', cn_kind = ''sample'', cn_display = ''Sample Connector'',
     cn_capabilities = VArr [VMap [(''canonical'', VStr ''orders.create''), (''mode'', VStr ''sync'')]],
     cn_requirements = VMap [(''secrets'', VArr [VStr ''api_key'']), (''webhooks'', VArr [])], cn_audit = ''none'',
     cn_category = None, cn_tags = Some [] \<rparr>"

definition seedDefaultConnector :: "db \<Rightarrow> string option \<times> db" where
  "seedDefaultConnector d =
     (if faults d CountConnectors then (Some ''db error'', d)
      else if connectors d \<noteq> [] then (None, d)
      else if faults d UpsertConnector then (Some ''db error'', d)
      else (None, d\<lparr> connectors := connectors d @ [sample_connector] \<rparr>))"

text \<open>The start of the application after the schema is in place; a failed count reads as zero.\<close>

definition startup :: "decoder \<Rightarrow> decoder \<Rightarrow> string \<Rightarrow> (string \<times> string option) list \<Rightarrow> db \<Rightarrow> db" where
  "startup js ya dir files d =
     (let d1 = (if dir \<noteq> [] then snd (importConnectorsFromDir js ya files d) else d);
          cnt = (if faults d1 CountConnectors then 0 else length (connectors d1))
      in if cnt = 0 then snd (seedDefaultConnector d1) else d1)"

section \<open>Handlers\<close>

definition upsertConnector :: "db \<Rightarrow> string \<Rightarrow> ConnectorSpec option \<Rightarrow> admin_response \<times> db" where
  "upsertConnector d idParam body =
     (case body of
        None \<Rightarrow> (AErr 400 ''bad json'', d)
      | Some b \<Rightarrow>
          let i = (if idParam = [] then cs_ID b else idParam) in
          if i = [] \<or> cs_DisplayName b = [] then (AErr 400 ''missing id or display_name'', d)
          else if faults d UpsertConnector then (AErr 500 ''db error'', d)
          else (ok_json [(''id'', VStr i)], d\<lparr> connectors := put_connector (i, b) (connectors d) \<rparr>))"

definition matches_query :: "(string \<Rightarrow> string \<Rightarrow> bool) \<Rightarrow> string \<Rightarrow> string \<Rightarrow> connector_row \<Rightarrow> bool" where
  "matches_query ilike cat q c \<longleftrightarrow> (cat = [] \<or> cn_category c = Some cat)
     \<and> (q = [] \<or> ilike (''%'' @ q @ ''%'') (cn_display c) \<or> ilike (''%'' @ q @ ''%'') (cn_kind c))"

definition tc_configured :: "db \<Rightarrow> string \<Rightarrow> string \<Rightarrow> bool" where
  "tc_configured d tid cid = list_ex (\<lambda>r. tc_key r = (tid, cid)) (tenant_connectors d)"

definition connector_item :: "db \<Rightarrow> string \<Rightarrow> connector_row \<Rightarrow> gval" where
  "connector_item d tid c = VMap [(''id'', VStr (cn_id c)), (''kind'', VStr (cn_kind c)), (''display_name'', VStr (cn_display c)),
     (''category'', VStr (or_blank (cn_category c))),
     (''tags'', VArr (map VStr (case cn_tags c of None \<Rightarrow> [] | Some xs \<Rightarrow> xs))),
     (''capabilities'', (case cn_capabilities c of VArr xs \<Rightarrow> VArr (map any_of_map (unmarshal_maps (VArr xs))) | _ \<Rightarrow> VNil)),
     (''requirements'', any_of_map (unmarshal_map (cn_requirements c))), (''audit_mode'', VStr (cn_audit c)),
     (''enabled'', VBool (tc_on d tid (cn_id c))), (''configured'', VBool (tc_configured d tid (cn_id c)))]"

definition getRegistry ::
  "(connector_row list \<Rightarrow> connector_row list) \<Rightarrow> (string \<Rightarrow> string \<Rightarrow> bool) \<Rightarrow> db \<Rightarrow> string \<Rightarrow> string \<Rightarrow> string \<Rightarrow> admin_response" where
  "getRegistry order ilike d tid qParam catParam =
     (let q = trim_space qParam; cat = trim_space catParam in
      if faults d ListConnectors then AErr 500 ''db error''
      else AJson 200 [(''connectors'', nil_if_none (map (connector_item d tid) (order (filter (matches_query ilike cat q) (connectors d)))))])"

section \<open>Properties\<close>

lemma import_specs_fold:
  "\<not> faults d UpsertConnector \<Longrightarrow> import_specs specs d =
     (None, d\<lparr> connectors := fold put_connector (map (\<lambda>s. (cs_ID s, s)) (filter (\<lambda>s. cs_ID s \<noteq> []) specs)) (connectors d) \<rparr>)"
  by (induction specs arbitrary: d) auto

lemma put_connector_present:
  "cn_id ` set rows \<subseteq> cn_id ` set (put_connector i rows) \<and> fst i \<in> cn_id ` set (put_connector i rows)"
proof -
  have "set (map cn_id (put_connector i rows)) = insert (fst i) (set (map cn_id rows))"
    by (simp add: catalogue.up_keys insert_absorb)
  then show ?thesis by auto
qed

lemma fold_put_nonempty: "rows \<noteq> [] \<or> is \<noteq> [] \<Longrightarrow> fold put_connector is rows \<noteq> []"
proof (induction "is" arbitrary: rows)
  case (Cons i "is")
  have "put_connector i rows \<noteq> []" using put_connector_present [of rows i] by auto
  then show ?case using Cons.IH by simp
qed simp

text \<open>C31: The service never starts with an empty catalogue.  If the statements for the catalogue do not fail, then
  after the start, whatever the directory holds and whether or not it could be read, there is at least
  one connector, and connector ids are still unique.\<close>

theorem startup_catalogue:
  assumes "\<not> faults d UpsertConnector" "\<not> faults d CountConnectors" "distinct (map cn_id (connectors d))"
  shows "connectors (startup js ya dir files d) \<noteq> [] \<and> distinct (map cn_id (connectors (startup js ya dir files d)))"
proof -
  define d1 where "d1 = (if dir \<noteq> [] then snd (importConnectorsFromDir js ya files d) else d)"
  have "\<exists>is. d1 = d\<lparr> connectors := fold put_connector is (connectors d) \<rparr>"
  proof (cases "dir = [] \<or> (\<exists>e. load_files js ya files = Inl e)")
    case True
    then have "d1 = d\<lparr> connectors := fold put_connector [] (connectors d) \<rparr>"
      by (auto simp: d1_def importConnectorsFromDir_def)
    then show ?thesis by blast
  next
    case False
    then show ?thesis
      by (cases "load_files js ya files") (auto simp: d1_def importConnectorsFromDir_def import_specs_fold assms(1))
  qed
  then have u: "distinct (map cn_id (connectors d1))" "faults d1 = faults d"
    using catalogue.keys_unique [OF assms(3)] by auto
  have s: "startup js ya dir files d = (if connectors d1 = [] then snd (seedDefaultConnector d1) else d1)"
    using assms(2) u(2) by (simp add: startup_def d1_def [symmetric] Let_def)
  show ?thesis
    using u assms(1,2) by (simp add: s seedDefaultConnector_def)
qed

theorem startup_catalogue_witness:
  "connectors (startup (\<lambda>_. Inl ''bad'') (\<lambda>_. Inl ''bad'') ''/etc/connectors'' [(''/etc/connectors/x.json'', Some ''{'')] empty_db) \<noteq> []"
  using startup_catalogue [of empty_db "\<lambda>_. Inl ''bad''" "\<lambda>_. Inl ''bad''" "''/etc/connectors''" "[(''/etc/connectors/x.json'', Some ''{'')]"]
  by (simp add: empty_db_def)

lemma upsert_by_twice:
  assumes "\<And>r. same r \<Longrightarrow> same (upd r) \<and> upd (upd r) = upd r" "same new" "upd new = new"
  shows "upsert_by same upd new (upsert_by same upd new rows) = upsert_by same upd new rows"
proof (cases "list_ex same rows")
  case True
  then have "list_ex same (map (\<lambda>r. if same r then upd r else r) rows)"
    using assms(1) by (fastforce simp: list_ex_iff)
  then show ?thesis using True assms(1) by (simp add: upsert_by_def)
next
  case False
  then have "map (\<lambda>r. if same r then upd r else r) rows = rows" by (auto simp: list_ex_iff intro!: map_idI)
  then show ?thesis using False assms(2,3) by (simp add: upsert_by_def list_ex_append)
qed

text \<open>Storing the same specification again changes nothing.\<close>

lemma put_connector_twice: "put_connector i (put_connector i rows) = put_connector i rows"
  by (cases i) (simp only: put_connector_def prod.case Let_def, rule upsert_by_twice, simp_all)

end
