(* ===== verification/Manifest.thy ===== *)
theory Manifest
  imports Registry Slugs Tenants
begin

text \<open>
  \<^verbatim>\<open>internal/manifest/service.go\<close> and \<^verbatim>\<open>pkg/openapi/builder.go\<close>: the two documents that tell clients which
  actions exist, both built from the operations the registry lists.
\<close>

section \<open>The manifest\<close>

record OAuth =
  AuthorizationURL :: string
  TokenURL :: string
  oScopes :: "string list"

record Action =
  ma_Path :: string
  ma_Method :: string
  ma_Scope :: string
  ma_Summary :: string
  ma_Title :: string
  ma_Params :: "gomap list"
  ma_RequiresPreflight :: bool
  ma_Flow :: kvs
  ma_Key :: string
  ma_DisplayName :: string
  ma_PreflightEndpoint :: string
  ma_ExecuteEndpoint :: string
  ma_ExecutionRequiresDecision :: bool
  ma_InputsSchema :: kvs
  ma_NeedsContract :: bool
  ma_AlternativesSupported :: "string list"
  ma_ProblemTypes :: "(string \<times> string) list"

record Manifest =
  mf_Version :: string
  mf_BaseURL :: string
  mf_OAuth :: OAuth
  mf_Actions :: "Action list"
  mf_Namespace :: string

definition action_flow :: kvs where
  "action_flow = [
     (''preflight'', VMap [(''method'', VStr ''POST''), (''path'', VStr ''/v1/actions/{key}/preflight'')]),
     (''execute'', VMap [(''method'', VStr ''POST''), (''path'', VStr ''/v1/actions/{key}/execute''), (''binds'', VArr [VStr ''decision_id''])]),
     (''needs_input'', VBool True), (''alternatives'', VBool True), (''consent'', VBool True)]"

definition tenant_namespace :: "Tenant \<Rightarrow> string" where
  "tenant_namespace t = (if Slug t = [] then tID t else Slug t)"

definition op_namespace :: "string \<Rightarrow> operationRow \<Rightarrow> string" where
  "op_namespace ns q = (case or_Kind q of
       Some k \<Rightarrow> if k \<noteq> [] \<and> kind_slug k \<noteq> [] then kind_slug k else ns
     | None \<Rightarrow> ns)"

definition op_key :: "string \<Rightarrow> operationRow \<Rightarrow> string" where
  "op_key ns q = action_key_of (op_namespace ns q) (derive_name (or_Path q))"

definition manifest_action :: "environ \<Rightarrow> string \<Rightarrow> operationRow \<Rightarrow> Action" where
  "manifest_action env ns q = \<lparr>
     ma_Path = or_Path q, ma_Method = or_Method q,
     ma_Scope = (case or_Scopes q of [] \<Rightarrow> [] | s # _ \<Rightarrow> s),
     ma_Summary = or_Summary q, ma_Title = or_Summary q, ma_Params = or_Params q,
     ma_RequiresPreflight = True, ma_Flow = action_flow, ma_Key = op_key ns q, ma_DisplayName = or_Summary q,
     ma_PreflightEndpoint = ''/v1/actions/{key}/eligibility'', ma_ExecuteEndpoint = ''/v1/actions/{key}/execute'',
     ma_ExecutionRequiresDecision = True, ma_InputsSchema = [], ma_NeedsContract = True,
     ma_AlternativesSupported = [''create_checkout_link'', ''open_support_case''],
     ma_ProblemTypes = [(''preflight_required'', Type env ''preflight-required''), (''policy_violation'', Type env ''policy-violation'')] \<rparr>"

text \<open>\<open>reg\<close> is the registry's database and cache, or nothing if there is no registry.\<close>

definition BuildManifest ::
  "environ \<Rightarrow> Config \<Rightarrow> int \<Rightarrow> Tenant \<Rightarrow> (db option \<times> byTenant) option \<Rightarrow> Manifest \<times> (db option \<times> byTenant) option" where
  "BuildManifest env cfg now t reg =
     (let ns = tenant_namespace t;
          (acts, reg') = (case reg of
              None \<Rightarrow> ([], None)
            | Some (pool, cache) \<Rightarrow>
                (case LoadOperations pool now cache (tID t) of
                   (None, cache') \<Rightarrow> ([], Some (pool, cache'))
                 | (Some ops, cache') \<Rightarrow> (map (manifest_action env ns) ops, Some (pool, cache'))))
      in (\<lparr> mf_Version = ''1'',
            mf_BaseURL = (if BasePublicURL t = [] then DefaultBasePublicURL cfg else BasePublicURL t),
            mf_OAuth = \<lparr> AuthorizationURL = OAuthIssuer t @ ''/authorize'', TokenURL = OAuthIssuer t @ ''/token'',
                         oScopes = [''catalog:read'', ''order:write'', ''refund:write''] \<rparr>,
            mf_Actions = acts, mf_Namespace = ns \<rparr>, reg'))"

section \<open>OpenAPI documents\<close>

record Operation =
  oa_Method :: string
  oa_Path :: string
  oa_Summary :: string
  oa_Description :: string
  oa_Tags :: "string list"
  oa_Scopes :: "string list"
  oa_RequestBody :: gval
  oa_Responses :: gomap

definition Register :: "Operation list \<Rightarrow> Operation \<Rightarrow> Operation list" where
  "Register ops op = ops @ [op\<lparr> oa_Method := to_lower (oa_Method op) \<rparr>]"

text \<open>A nil slice in an interface is not nil; it is encoded as null.\<close>

definition str_slice :: "string list \<Rightarrow> gval" where
  "str_slice xs = (if xs = [] then VNil else VArr (map VStr xs))"

definition op_object :: "Operation \<Rightarrow> kvs" where
  "op_object op = [(''summary'', VStr (oa_Summary op)), (''description'', VStr (oa_Description op)),
       (''tags'', str_slice (oa_Tags op)), (''responses'', any_of_map (oa_Responses op))]
     @ (if oa_Scopes op \<noteq> [] then [(''x-required-scopes'', VArr (map VStr (oa_Scopes op)))] else [])
     @ (if oa_RequestBody op \<noteq> VNil then [(''requestBody'', oa_RequestBody op)] else [])"

type_synonym paths = "(string \<times> (string \<times> kvs) list) list"

definition add_path :: "paths \<Rightarrow> Operation \<Rightarrow> paths" where
  "add_path ps op = AList.update (oa_Path op)
     (AList.update (oa_Method op) (op_object op) (case map_of ps (oa_Path op) of None \<Rightarrow> [] | Some m \<Rightarrow> m)) ps"

definition build_paths :: "Operation list \<Rightarrow> paths" where
  "build_paths ops = foldl add_path [] ops"

definition security_schemes :: gval where
  "security_schemes = VMap [(''oauth'', VMap [(''type'', VStr ''oauth2''), (''flows'', VMap [(''clientCredentials'', VMap [
     (''tokenUrl'', VStr ''/oauth/token''), (''scopes'', VMap [(''order:write'', VStr ''Create orders / checkouts''),
       (''refund:write'', VStr ''Issue refunds'')])])])])]"

definition Build :: "Operation list \<Rightarrow> string \<Rightarrow> string \<Rightarrow> kvs" where
  "Build ops serviceName version =
     [(''openapi'', VStr ''3.1.0''), (''info'', VMap [(''title'', VStr serviceName), (''version'', VStr version)]),
      (''paths'', VMap (map (\<lambda>(p, ms). (p, VMap (map (\<lambda>(m, ob). (m, VMap ob)) ms))) (build_paths ops))),
      (''components'', VMap [(''securitySchemes'', security_schemes)]),
      (''security'', VArr [VMap [(''oauth'', VArr [])]])]"

section \<open>Properties\<close>

definition path_entry :: "paths \<Rightarrow> string \<Rightarrow> string \<Rightarrow> kvs option" where
  "path_entry ps p m = (case map_of ps p of None \<Rightarrow> None | Some ms \<Rightarrow> map_of ms m)"

lemma path_entry_add:
  "path_entry (add_path ps op) p m = (if p = oa_Path op \<and> m = oa_Method op then Some (op_object op) else path_entry ps p m)"
  by (auto simp: path_entry_def add_path_def update_conv' split: option.splits)

text \<open>The OpenAPI document lists the registered operations.  The entry at a path and method is that of the
  last registered operation with this path and (lower-case) method, and there is none if no operation
  was registered for them.\<close>

theorem build_paths_lookup:
  "path_entry (build_paths (foldl Register [] ops)) p m =
     map_option op_object (find (\<lambda>q. oa_Path q = p \<and> oa_Method q = m)
       (rev (map (\<lambda>q. q\<lparr> oa_Method := to_lower (oa_Method q) \<rparr>) ops)))"
proof -
  have reg: "foldl Register acc ops = acc @ map (\<lambda>q. q\<lparr> oa_Method := to_lower (oa_Method q) \<rparr>) ops" for acc
    by (induction ops arbitrary: acc) (simp_all add: Register_def)
  have "path_entry (build_paths qs) p m = map_option op_object (find (\<lambda>q. oa_Path q = p \<and> oa_Method q = m) (rev qs))" for qs
  proof (induction qs rule: rev_induct)
    case (snoc q qs)
    then show ?case by (simp add: build_paths_def path_entry_add)
  qed (simp add: build_paths_def path_entry_def)
  then show ?thesis unfolding reg by simp
qed

end
