(* ===== verification/Connector.thy ===== *)
theory Connector
  imports Orchestrator Middleware Manifest Secrets
begin

text \<open>
  \<^verbatim>\<open>internal/connector/handler.go\<close>: the canonical operations of the platform, the operations a tenant's
  connectors add, passed through to their upstream, and the OpenAPI document over both.  The router
  library, the upstream client, JSON decoding and the clock are parameters.
\<close>

section \<open>Data\<close>

record CanonicalOperation =
  co_Method :: string
  co_Path :: string
  co_Summary :: string
  co_Scopes :: "string list"
  co_ID :: string
  co_Mode :: string
  co_UserOnly :: bool

definition canonicalOps :: "CanonicalOperation list" where
  "canonicalOps =
     [\<lparr> co_Method = ''GET'', co_Path = ''/v1/orders/locate'', co_Summary = ''Find order across rails'',
        co_Scopes = [''orders:read''], co_ID = ''orders.locate'', co_Mode = ''execute'', co_UserOnly = False \<rparr>,
      \<lparr> co_Method = ''GET'', co_Path = ''/v1/orders/{rail}/{id}/status'', co_Summary = ''Get order status'',
        co_Scopes = [''orders:read''], co_ID = ''orders.status'', co_Mode = ''execute'', co_UserOnly = False \<rparr>,
      \<lparr> co_Method = ''POST'', co_Path = ''/v1/orders/{rail}/{id}/cancel'', co_Summary = ''Attempt cancel'',
        co_Scopes = [''orders:cancel''], co_ID = ''orders.cancel'', co_Mode = ''execute'', co_UserOnly = True \<rparr>,
      \<lparr> co_Method = ''POST'', co_Path = ''/v1/orders/{rail}/{id}/refund'', co_Summary = ''Request refund'',
        co_Scopes = [''refunds:request''], co_ID = ''refunds.request'', co_Mode = ''request'', co_UserOnly = True \<rparr>,
      \<lparr> co_Method = ''POST'', co_Path = ''/v1/reorder'', co_Summary = ''Reorder (deep link or first-party)'',
        co_Scopes = [''reorder:create''], co_ID = ''reorder.link'', co_Mode = ''execute'', co_UserOnly = False \<rparr>]"

datatype conn_response = CErr int string | CJson kvs | CPanic

text \<open>The upstream client: what \<^verbatim>\<open>url.Parse\<close> and \<^verbatim>\<open>NewRequest\<close> accept, and for a request either no answer or a
  status, a content type and the bytes of the body.\<close>

record upstream =
  up_parse :: "string \<Rightarrow> bool"
  up_new :: "string \<Rightarrow> string \<Rightarrow> bool"
  up_do :: "http_request \<Rightarrow> (int \<times> string \<times> string) option"

text \<open>The surroundings of a request: environment and libraries, the upstream, and two readings of the clock that the usage
  event records, the start of the request and the milliseconds it took.\<close>

record conn_env =
  ce_env :: environ
  ce_rt :: runtime
  ce_json :: "string \<Rightarrow> gval option"
  ce_gcm :: gcm
  ce_up :: upstream
  ce_start :: int
  ce_ms :: int

definition decode_map :: "conn_env \<Rightarrow> string \<Rightarrow> gomap option" where
  "decode_map ce s = (case ce_json ce s of
       Some (VMap m) \<Rightarrow> Some (Some m) | Some VNil \<Rightarrow> Some None | _ \<Rightarrow> None)"

section \<open>Usage events\<close>

definition add_usage :: "db \<Rightarrow> usage_row \<Rightarrow> db" where
  "add_usage d u =
     (if \<not> faults d InsertUsage \<and> int4 (us_duration u) \<and> list_ex (\<lambda>r. tn_id r = us_tenant u) (tenants d)
      then d\<lparr> usage_events := usage_events d @ [u] \<rparr> else d)"

definition log_usage :: "db option \<Rightarrow> Tenant \<Rightarrow> (string \<Rightarrow> usage_row) \<Rightarrow> db option" where
  "log_usage pool t u =
     (case pool of
        None \<Rightarrow> None
      | Some d \<Rightarrow> Some (if tID t \<noteq> [] then add_usage d (u (tID t)) else d))"

section \<open>Canonical operations\<close>

definition canonical_result :: "string \<Rightarrow> kvs" where
  "canonical_result i =
     (if i = ''orders.locate'' then [(''matches'', VArr [])]
      else if i = ''orders.status'' then [(''status'', VStr ''UNKNOWN'')]
      else if i = ''orders.cancel'' then [(''accepted'', VBool True)]
      else if i = ''refunds.request'' then [(''case_id'', VStr ''CASE-PLACEHOLDER'')]
      else if i = ''reorder.link'' then [(''link'', VStr ''https://example.com/reorder/demo'')]
      else [])"

definition canonicalHandler ::
  "conn_env \<Rightarrow> int \<Rightarrow> int \<Rightarrow> CanonicalOperation \<Rightarrow> db option \<Rightarrow> ctx \<Rightarrow> conn_response \<times> db option" where
  "canonicalHandler ce now dur co pool c =
     (if \<not> HasAnyScope c (co_Scopes co) then (CErr 403 ''insufficient_scope'', pool)
      else if co_UserOnly co \<and> GrantTypeFrom c = ''client_credentials'' then (CErr 403 ''grant_not_allowed'', pool)
      else
        (CJson [(''mode'', VStr (co_Mode co)), (''result'', VMap (canonical_result (co_ID co))),
           (''audit'', VMap [(''action'', VStr (co_ID co)), (''actor_sub'', VStr (ActorSub c)),
              (''timestamp'', VStr (format_rfc3339 (ce_rt ce) now))]),
           (''duration_ms'', VInt dur)],
         log_usage pool (TenantFrom c) (\<lambda>tid. \<lparr> us_tenant = tid, us_action = co_ID co, us_method = co_Method co,
            us_path = co_Path co, us_mode = co_Mode co, us_actor = ActorSub c, us_request = cx_reqid c, us_status = 200,
            us_duration = ce_ms ce, us_started = ce_start ce \<rparr>)))"

section \<open>Operations of connectors\<close>

definition has_body :: "string \<Rightarrow> bool" where
  "has_body m \<longleftrightarrow> m \<in> {''POST'', ''PUT'', ''PATCH''}"

text \<open>The API key of an auth configuration: from the configuration, or from the encrypted secrets.\<close>

definition secret_key :: "conn_env \<Rightarrow> string option \<Rightarrow> string" where
  "secret_key ce sec =
     (case sec of
        None \<Rightarrow> []
      | Some blob \<Rightarrow>
          if blob = [] \<or> ce_env ce ''ENCRYPTION_KEY'' = [] then []
          else (case decryptSecrets (ce_rt ce) (ce_gcm ce) (decode_map ce) blob (ce_env ce ''ENCRYPTION_KEY'') of
                  Inl _ \<Rightarrow> []
                | Inr m \<Rightarrow> (case as_str (mget (gmap m) ''api_key'') of Some v \<Rightarrow> v | None \<Rightarrow> [])))"

definition config_key :: "conn_env \<Rightarrow> auth_config_row \<Rightarrow> string" where
  "config_key ce a =
     (case as_str (mget (gmap (unmarshal_map (ac_config a))) ''api_key'') of
        Some v \<Rightarrow> if v \<noteq> [] then v else secret_key ce (ac_secrets a)
      | None \<Rightarrow> secret_key ce (ac_secrets a))"

definition find_auth :: "db option \<Rightarrow> string option \<Rightarrow> auth_config_row option" where
  "find_auth pool authRef =
     (case (pool, authRef) of
        (Some d, Some i) \<Rightarrow>
          if i = [] \<or> faults d AuthConfigQuery then None else find (\<lambda>a. ac_id a = i) (auth_configs d)
      | _ \<Rightarrow> None)"

definition api_key_for :: "conn_env \<Rightarrow> db option \<Rightarrow> string option \<Rightarrow> string" where
  "api_key_for ce pool authRef =
     (case find_auth pool authRef of
        None \<Rightarrow> []
      | Some a \<Rightarrow> if to_lower (ac_type a) = ''api_key'' then config_key ce a else [])"

definition pass_header :: "http_in \<Rightarrow> string \<Rightarrow> (string \<times> string) list \<Rightarrow> (string \<times> string) list" where
  "pass_header r k h = (let v = header_get (hi_headers r) k in if v \<noteq> [] then header_set h k v else h)"

definition upstream_url :: "string \<Rightarrow> string \<Rightarrow> string" where
  "upstream_url baseURL opPath = trim_right ''/'' baseURL @ opPath"

definition upstream_request ::
  "conn_env \<Rightarrow> string \<Rightarrow> string \<Rightarrow> string \<Rightarrow> string option \<Rightarrow> db option \<Rightarrow> http_in \<Rightarrow> string \<Rightarrow> http_request" where
  "upstream_request ce method opPath baseURL authRef pool r body =
     (let k = api_key_for ce pool authRef;
          h0 = (if k \<noteq> [] then header_set [] ''x-api-key'' k else [])
      in \<lparr> rq_method = method, rq_url = upstream_url baseURL opPath,
           rq_headers = pass_header r ''Accept'' (pass_header r ''Content-Type'' h0),
           rq_body = (if has_body method then take 2097152 body else []) \<rparr>)"

text \<open>The upstream's body as the client gets to see it.\<close>

definition result_body :: "conn_env \<Rightarrow> string \<Rightarrow> string \<Rightarrow> gval" where
  "result_body ce ct bytes =
     (let b = take 4194304 bytes
      in if str_contains ct ''application/json''
         then (case ce_json ce b of Some v \<Rightarrow> v | None \<Rightarrow> VStr b) else VStr b)"

definition op_descr :: "string \<Rightarrow> string \<Rightarrow> gval" where
  "op_descr method opPath = VMap [(''method'', VStr method), (''path'', VStr opPath)]"

definition passthrough ::
  "conn_env \<Rightarrow> int \<Rightarrow> string \<Rightarrow> string \<Rightarrow> string \<Rightarrow> string option \<Rightarrow> db option \<Rightarrow> http_in \<Rightarrow> string
     \<Rightarrow> (conn_response \<times> int option) \<times> http_request list" where
  "passthrough ce dur method opPath baseURL authRef pool r body =
     (let full = upstream_url baseURL opPath in
      if \<not> up_parse (ce_up ce) full then ((CErr 502 ''invalid_upstream_url'', None), [])
      else if \<not> up_new (ce_up ce) method full then ((CErr 502 ''upstream_request_build_failed'', None), [])
      else let rq = upstream_request ce method opPath baseURL authRef pool r body
           in (case up_do (ce_up ce) rq of
                 None \<Rightarrow> ((CErr 502 ''upstream_unreachable'', None), [rq])
               | Some (st, ct, bytes) \<Rightarrow>
                   ((CJson [(''passthrough'', VBool True), (''upstream_status'', VInt st),
                       (''operation'', op_descr method opPath), (''upstream'', result_body ce ct bytes),
                       (''duration_ms'', VInt dur)], Some st), [rq])))"

definition echo :: "conn_env \<Rightarrow> int \<Rightarrow> string \<Rightarrow> string \<Rightarrow> string \<Rightarrow> conn_response" where
  "echo ce dur method opPath body =
     (let b = (if has_body method then take 1048576 body else []);
          received = (if b \<noteq> [] then (case ce_json ce b of Some v \<Rightarrow> v | None \<Rightarrow> VNil) else VNil)
      in CJson [(''ok'', VBool True), (''operation'', op_descr method opPath), (''received'', received),
           (''duration_ms'', VInt dur)])"

definition dynamic_usage :: "conn_env \<Rightarrow> string \<Rightarrow> string \<Rightarrow> ctx \<Rightarrow> int \<Rightarrow> string \<Rightarrow> usage_row" where
  "dynamic_usage ce method opPath c st tid = \<lparr> us_tenant = tid, us_action = [], us_method = method, us_path = opPath,
     us_mode = [], us_actor = ActorSub c, us_request = cx_reqid c, us_status = st,
     us_duration = ce_ms ce, us_started = ce_start ce \<rparr>"

definition makeDynamicOperationHandler ::
  "conn_env \<Rightarrow> int \<Rightarrow> string \<Rightarrow> string \<Rightarrow> string option \<Rightarrow> string option \<Rightarrow> db option \<Rightarrow> http_in \<Rightarrow> string \<Rightarrow> ctx
     \<Rightarrow> conn_response \<times> db option \<times> http_request list" where
  "makeDynamicOperationHandler ce dur method opPath baseURL authRef pool r body c =
     (case baseURL of
        Some (x # xs) \<Rightarrow>
          (case passthrough ce dur method opPath (x # xs) authRef pool r body of
             ((resp, None), sent) \<Rightarrow> (resp, pool, sent)
           | ((resp, Some st), sent) \<Rightarrow>
               (resp, log_usage pool (TenantFrom c) (dynamic_usage ce method opPath c st), sent))
      | _ \<Rightarrow> (echo ce dur method opPath body,
              log_usage pool (TenantFrom c) (dynamic_usage ce method opPath c 200), []))"

section \<open>Routing\<close>

text \<open>The router library: given the registered methods and patterns, the route of a request, no route, or a
  panic while registering.\<close>

datatype route = RoutePanic | NoRoute int | Route nat

type_synonym chi = "(string \<times> string) list \<Rightarrow> string \<Rightarrow> string \<Rightarrow> route"

definition dynamicOperationsRouter ::
  "conn_env \<Rightarrow> chi \<Rightarrow> int \<Rightarrow> int \<Rightarrow> db option \<Rightarrow> byTenant \<Rightarrow> http_in \<Rightarrow> string \<Rightarrow> ctx
     \<Rightarrow> conn_response \<times> db option \<times> byTenant \<times> http_request list" where
  "dynamicOperationsRouter ce chi now dur pool cache r body c =
     (case LoadOperations pool now cache (tID (TenantFrom c)) of
        (None, cache') \<Rightarrow> (CErr 500 ''query failed'', pool, cache', [])
      | (Some ops, cache') \<Rightarrow>
         (case chi (map (\<lambda>q. (to_upper (or_Method q), or_Path q)) ops) (hi_method r) (hi_path r) of
            RoutePanic \<Rightarrow> (CPanic, pool, cache', [])
          | NoRoute st \<Rightarrow> (CErr st [], pool, cache', [])
          | Route i \<Rightarrow>
              let q = ops ! i in
              if \<not> HasAnyScope c (or_Scopes q) then (CErr 403 ''insufficient_scope'', pool, cache', [])
              else (case makeDynamicOperationHandler ce dur (to_upper (or_Method q)) (or_Path q) (or_BaseURL q)
                           (or_AuthRef q) pool r body c of
                      (resp, pool', sent) \<Rightarrow> (resp, pool', cache', sent))))"

definition ok_responses :: gomap where
  "ok_responses = Some [(''200'', VMap [(''description'', VStr ''OK'')])]"

definition doc_op :: "string \<Rightarrow> string \<Rightarrow> string \<Rightarrow> string list \<Rightarrow> Operation" where
  "doc_op m p s sc = \<lparr> oa_Method = m, oa_Path = p, oa_Summary = s, oa_Description = [], oa_Tags = [],
     oa_Scopes = sc, oa_RequestBody = VNil, oa_Responses = ok_responses \<rparr>"

definition serveOpenAPI :: "int \<Rightarrow> db option \<Rightarrow> byTenant \<Rightarrow> ctx \<Rightarrow> kvs \<times> byTenant" where
  "serveOpenAPI now pool cache c =
     (case LoadOperations pool now cache (tID (TenantFrom c)) of
        (ops, cache') \<Rightarrow>
          (Build (foldl Register []
             (map (\<lambda>co. doc_op (co_Method co) (co_Path co) (co_Summary co) (co_Scopes co)) canonicalOps
              @ map (\<lambda>q. doc_op (or_Method q) (or_Path q) (or_Summary q) (or_Scopes q)) (case ops of None \<Rightarrow> [] | Some xs \<Rightarrow> xs)))
             ''connector-service'' ''v1'', cache'))"

section \<open>Properties\<close>

text \<open>What the code relies on of the router library: it answers with a route that was registered, for the method
  of the request.\<close>

definition routes_registered :: "chi \<Rightarrow> bool" where
  "routes_registered chi \<longleftrightarrow> (\<forall>rs m p i. chi rs m p = Route i \<longrightarrow> i < length rs \<and> fst (rs ! i) = m)"

lemma passthrough_sent:
  assumes "passthrough ce dur method opPath baseURL authRef pool r body = (res, sent)" "rq \<in> set sent"
  shows "rq = upstream_request ce method opPath baseURL authRef pool r body"
  using assms by (auto simp: passthrough_def Let_def split: if_splits option.splits)

lemma handler_sent:
  assumes "makeDynamicOperationHandler ce dur method opPath baseURL authRef pool r body c = (resp, pool', sent)"
    and "rq \<in> set sent"
  shows "\<exists>b. baseURL = Some b \<and> b \<noteq> [] \<and> rq = upstream_request ce method opPath b authRef pool r body"
  using assms passthrough_sent
  by (fastforce simp: makeDynamicOperationHandler_def split: option.splits list.splits prod.splits)

lemma router_sent:
  assumes "dynamicOperationsRouter ce chi now dur pool cache r body c = (resp, pool', cache', sent)" "rq \<in> set sent"
  obtains ops i b where "fst (LoadOperations pool now cache (tID (TenantFrom c))) = Some ops"
    and "chi (map (\<lambda>q. (to_upper (or_Method q), or_Path q)) ops) (hi_method r) (hi_path r) = Route i"
    and "HasAnyScope c (or_Scopes (ops ! i))" "or_BaseURL (ops ! i) = Some b" "b \<noteq> []"
    and "rq = upstream_request ce (to_upper (or_Method (ops ! i))) (or_Path (ops ! i)) b (or_AuthRef (ops ! i)) pool r body"
proof -
  obtain res cache1 where l: "LoadOperations pool now cache (tID (TenantFrom c)) = (res, cache1)" by fastforce
  from assms l obtain ops where ops: "res = Some ops" by (cases res) (auto simp: dynamicOperationsRouter_def)
  from assms l ops obtain i
    where i: "chi (map (\<lambda>q. (to_upper (or_Method q), or_Path q)) ops) (hi_method r) (hi_path r) = Route i"
    and sc: "HasAnyScope c (or_Scopes (ops ! i))"
    and h: "\<exists>p. makeDynamicOperationHandler ce dur (to_upper (or_Method (ops ! i))) (or_Path (ops ! i)) (or_BaseURL (ops ! i))
              (or_AuthRef (ops ! i)) pool r body c = (resp, p, sent)"
    by (auto simp: dynamicOperationsRouter_def Let_def split: route.splits if_splits prod.splits)
  from h handler_sent assms(2) obtain b where "or_BaseURL (ops ! i) = Some b" "b \<noteq> []"
    and "rq = upstream_request ce (to_upper (or_Method (ops ! i))) (or_Path (ops ! i)) b (or_AuthRef (ops ! i)) pool r body"
    by blast
  with l ops i sc show ?thesis by (intro that) auto
qed

lemma dynamic_sent:
  assumes "routes_registered chi"
    and "dynamicOperationsRouter ce chi now dur pool cache r body c = (resp, pool', cache', sent)" "rq \<in> set sent"
  shows "\<exists>ops q b. fst (LoadOperations pool now cache (tID (TenantFrom c))) = Some ops \<and> q \<in> set ops
     \<and> HasAnyScope c (or_Scopes q) \<and> or_BaseURL q = Some b \<and> rq_url rq = trim_right ''/'' b @ or_Path q
     \<and> to_upper (or_Method q) = hi_method r \<and> rq_method rq = hi_method r"
  using assms(2,3)
proof (rule router_sent)
  fix ops i b
  assume i: "chi (map (\<lambda>q. (to_upper (or_Method q), or_Path q)) ops) (hi_method r) (hi_path r) = Route i"
    and *: "fst (LoadOperations pool now cache (tID (TenantFrom c))) = Some ops" "HasAnyScope c (or_Scopes (ops ! i))"
      "or_BaseURL (ops ! i) = Some b"
      "rq = upstream_request ce (to_upper (or_Method (ops ! i))) (or_Path (ops ! i)) b (or_AuthRef (ops ! i)) pool r body"
  have "i < length ops" "to_upper (or_Method (ops ! i)) = hi_method r"
    using assms(1) i unfolding routes_registered_def by fastforce+
  with * show ?thesis
    by (intro exI [of _ ops] exI [of _ "ops ! i"] exI [of _ b])
      (simp add: upstream_request_def upstream_url_def Let_def)
qed

text \<open>Every request a connector operation sends upstream belongs to an operation the registry lists for the
  caller's tenant, with the caller's method, and the caller holds one of the scopes the operation asks
  for.  Its URL is the operation's base URL followed by the operation's path.  The router library is
  assumed to answer only with registered routes of the request's method.\<close>

theorem dynamic_requests_authorised:
  assumes "routes_registered chi"
    and "dynamicOperationsRouter ce chi now dur pool cache r body c = (resp, pool', cache', sent)" "rq \<in> set sent"
  shows "\<exists>ops q b. fst (LoadOperations pool now cache (tID (TenantFrom c))) = Some ops \<and> q \<in> set ops
     \<and> HasAnyScope c (or_Scopes q) \<and> or_BaseURL q = Some b \<and> rq_url rq = trim_right ''/'' b @ or_Path q
     \<and> to_upper (or_Method q) = hi_method r \<and> rq_method rq = hi_method r"
  using assms by (rule dynamic_sent)

text \<open>A concrete service: one operation with a path parameter, and an upstream that always answers.\<close>

definition demo_chi :: chi where
  "demo_chi rs m p = (let i = length (takeWhile (\<lambda>x. fst x \<noteq> m) rs) in if i < length rs then Route i else NoRoute 404)"

definition demo_conn_env :: conn_env where
  "demo_conn_env = \<lparr> ce_env = (\<lambda>_. []), ce_rt = demo_rt, ce_json = (\<lambda>_. None), ce_gcm = demo_gcm,
     ce_up = \<lparr> up_parse = (\<lambda>_. True), up_new = (\<lambda>_ _. True), up_do = (\<lambda>_. Some (200, ''text/plain'', ''ok'')) \<rparr>, ce_start = 0, ce_ms = 12 \<rparr>"

definition demo_conn_db :: db where
  "demo_conn_db = empty_db\<lparr>
     definitions := [\<lparr> df_id = ''d1'', df_tenant = [], df_kind = Some ''shop'', df_builtin_kind = None, df_config = None,
        df_secret = None, df_base_url = Some ''https://up.test'', df_auth_ref = None, df_title = None, df_summary = None \<rparr>],
     operations := [\<lparr> op_id = ''o1'', op_connector = ''d1'', op_method = Some ''get'', op_path = Some ''/v1/orders/{id}'',
        op_summary = Some ''Order'', op_scopes = None, op_params = None, op_request_tmpl = None, op_enabled = Some False \<rparr>],
     tenant_connectors := [\<lparr> tc_tenant = [], tc_connector = ''d1'', tc_enabled = Some True, tc_secrets = None \<rparr>] \<rparr>"

definition demo_get :: http_in where
  "demo_get = demo_request\<lparr> hi_method := ''GET'', hi_path := ''/v1/orders/7'' \<rparr>"

definition demo_row :: operationRow where
  "demo_row = zero_op\<lparr> or_Method := ''get'', or_Path := ''/v1/orders/{id}'', or_Summary := ''Order'', or_BaseURL := Some ''https://up.test'', or_Kind := Some ''shop'' \<rparr>"

lemma routes_registered_demo: "routes_registered demo_chi"
proof -
  have "length (takeWhile P rs) < length rs \<Longrightarrow> \<not> P (rs ! length (takeWhile P rs))" for P and rs :: "(string \<times> string) list"
    by (metis nth_length_takeWhile)
  then show ?thesis by (auto simp: routes_registered_def demo_chi_def Let_def split: if_splits)
qed

lemma demo_conn_load: "LoadOperations (Some demo_conn_db) 0 [] [] = (Some [demo_row], [([], ([demo_row], 0))])"
  by (simp add: LoadOperations_def reg_get_def fetch_ops_def demo_conn_db_def empty_db_def registry_rows_def enabled_for_def
      scan_full_def unmarshal_arr_def unmarshal_maps_def coalesce_json_def demo_row_def zero_op_def)

definition demo_upstream :: http_request where
  "demo_upstream = upstream_request demo_conn_env ''GET'' ''/v1/orders/{id}'' ''https://up.test'' None (Some demo_conn_db) demo_get []"

lemma demo_route: "\<exists>resp pool' cache'. dynamicOperationsRouter demo_conn_env demo_chi 0 5 (Some demo_conn_db) [] demo_get [] no_ctx
    = (resp, pool', cache', [demo_upstream])"
proof -
  have t: "tID (TenantFrom no_ctx) = []" by (simp add: no_ctx_def TenantFrom_def zero_tenant_def)
  have u: "to_upper ''get'' = ''GET''" by code_simp
  have sc: "HasAnyScope no_ctx []" by (simp add: HasAnyScope_def)
  show ?thesis
    unfolding dynamicOperationsRouter_def t demo_conn_load
    by (simp add: demo_chi_def demo_row_def zero_op_def demo_get_def u sc makeDynamicOperationHandler_def passthrough_def
        demo_conn_env_def demo_upstream_def Let_def)
qed

theorem dynamic_requests_authorised_witness:
  "\<exists>ops q b. fst (LoadOperations (Some demo_conn_db) 0 [] (tID (TenantFrom no_ctx))) = Some ops \<and> q \<in> set ops
     \<and> HasAnyScope no_ctx (or_Scopes q) \<and> or_BaseURL q = Some b \<and> rq_url demo_upstream = trim_right ''/'' b @ or_Path q
     \<and> to_upper (or_Method q) = hi_method demo_get \<and> rq_method demo_upstream = hi_method demo_get"
proof -
  obtain resp pool' cache' where r: "dynamicOperationsRouter demo_conn_env demo_chi 0 5 (Some demo_conn_db) [] demo_get [] no_ctx
    = (resp, pool', cache', [demo_upstream])"
    using demo_route by blast
  show ?thesis by (rule dynamic_requests_authorised [OF routes_registered_demo r]) simp
qed

lemma upstream_request_path: "upstream_request ce m p b a pool (r\<lparr> hi_path := x \<rparr>) body = upstream_request ce m p b a pool r body"
  by (simp add: upstream_request_def pass_header_def Let_def)

text \<open>The path of the caller's request never reaches the upstream.  Whatever concrete path the router matched,
  the operation answers alike, sends the same requests and leaves the same database: the path
  parameters are not filled in.\<close>

theorem dynamic_ignores_request_path:
  "makeDynamicOperationHandler ce dur m p b a pool (r\<lparr> hi_path := x \<rparr>) body c = makeDynamicOperationHandler ce dur m p b a pool r body c"
proof -
  have p: "passthrough ce dur m p b a pool (r\<lparr> hi_path := x \<rparr>) body = passthrough ce dur m p b a pool r body" for b
    unfolding passthrough_def upstream_request_path ..
  show ?thesis unfolding makeDynamicOperationHandler_def p ..
qed

lemma upstream_request_decisions:
  "upstream_request ce m p b a (Some (d\<lparr> decisions := ds \<rparr>)) r body = upstream_request ce m p b a (Some d) r body"
proof -
  have "find_auth (Some (d\<lparr> decisions := ds \<rparr>)) a = find_auth (Some d) a" by (cases a) (simp_all add: find_auth_def)
  then show ?thesis by (simp add: upstream_request_def api_key_for_def)
qed

lemma fetch_ops_decisions: "fetch_ops (Some (d\<lparr> decisions := ds \<rparr>)) tid = fetch_ops (Some d) tid"
  by (simp add: fetch_ops_def registry_rows_def enabled_for_def)

lemma handler_decisions:
  assumes "makeDynamicOperationHandler ce dur m p b a (Some d) r body c = (resp, pool', sent)"
  shows "\<exists>pool''. makeDynamicOperationHandler ce dur m p b a (Some (d\<lparr> decisions := ds \<rparr>)) r body c = (resp, pool'', sent)"
  using assms by (auto simp: makeDynamicOperationHandler_def passthrough_def upstream_request_decisions Let_def
      split: option.splits list.splits prod.splits if_splits)

text \<open>The operations of connectors need no decision.  The response and the upstream requests of a connector
  operation do not depend on the table of policy decisions, although the manifest declares of every
  one of these operations that its execution requires a decision.\<close>

theorem dynamic_needs_no_decision:
  "(case dynamicOperationsRouter ce chi now dur (Some (d\<lparr> decisions := ds \<rparr>)) cache r body c of (resp, _, _, sent) \<Rightarrow> (resp, sent))
   = (case dynamicOperationsRouter ce chi now dur (Some d) cache r body c of (resp, _, _, sent) \<Rightarrow> (resp, sent))"
proof -
  have l: "LoadOperations (Some (d\<lparr> decisions := ds \<rparr>)) now cache tid = LoadOperations (Some d) now cache tid" for tid
    unfolding LoadOperations_def reg_get_def fetch_ops_decisions ..
  obtain res cache' where r: "LoadOperations (Some d) now cache (tID (TenantFrom c)) = (res, cache')" by fastforce
  have h: "(case makeDynamicOperationHandler ce dur m p b a (Some (d\<lparr> decisions := ds \<rparr>)) r body c of (resp, _, sent) \<Rightarrow> (resp, sent))
      = (case makeDynamicOperationHandler ce dur m p b a (Some d) r body c of (resp, _, sent) \<Rightarrow> (resp, sent))" for m p b a
  proof -
    obtain resp pool' sent where m: "makeDynamicOperationHandler ce dur m p b a (Some d) r body c = (resp, pool', sent)"
      by (metis prod.exhaust)
    from handler_decisions [OF m, of ds] m show ?thesis by auto
  qed
  show ?thesis
  proof (cases res)
    case (Some ops)
    show ?thesis
    proof (cases "chi (map (\<lambda>q. (to_upper (or_Method q), or_Path q)) ops) (hi_method r) (hi_path r)")
      case (Route i)
      then show ?thesis using h unfolding dynamicOperationsRouter_def l r Some by (simp add: Let_def case_prod_unfold)
    qed (simp_all add: dynamicOperationsRouter_def l r Some)
  qed (simp add: dynamicOperationsRouter_def l r)
qed

text \<open>The credentials of an upstream call are not tied to a tenant.  The API key attached to a request is
  the same whichever tenant the authentication configurations belong to.\<close>

theorem api_key_crosses_tenants:
  "api_key_for ce (Some (d\<lparr> auth_configs := map (\<lambda>a. a\<lparr> ac_tenant := f a \<rparr>) (auth_configs d) \<rparr>)) ref
   = api_key_for ce (Some d) ref"
proof -
  have find: "find (\<lambda>a. ac_id a = i) (map (\<lambda>a. a\<lparr> ac_tenant := f a \<rparr>) xs)
      = map_option (\<lambda>a. a\<lparr> ac_tenant := f a \<rparr>) (find (\<lambda>a. ac_id a = i) xs)" for i and xs :: "auth_config_row list"
    by (induction xs) auto
  have key: "config_key ce (a\<lparr> ac_tenant := t \<rparr>) = config_key ce a" for a t
    by (cases "mget (gmap (unmarshal_map (ac_config a))) ''api_key''") (simp_all add: config_key_def as_str_def)
  show ?thesis by (auto simp: api_key_for_def find_auth_def find key split: option.splits)
qed

text \<open>A canonical operation answers with a result exactly if the caller holds one of its scopes and, for
  the operations reserved to users, the token is not a machine's.\<close>

theorem canonicalHandler_guard:
  "(\<exists>m. fst (canonicalHandler ce now dur co pool c) = CJson m)
     \<longleftrightarrow> HasAnyScope c (co_Scopes co) \<and> (co_UserOnly co \<longrightarrow> GrantTypeFrom c \<noteq> ''client_credentials'')"
  by (auto simp: canonicalHandler_def)

end
