(* ===== verification/Admin_Analytics.thy ===== *)
theory Admin_Analytics
  imports Admin_Config Connector "HOL-Library.Multiset" "HOL-Library.Product_Lexorder"
begin

text \<open>
  The reports of the admin API (\<^verbatim>\<open>handlers_analytics.go\<close>): the audit log, the usage summary, the coverage of
  actions by facts, the summary of decisions and the paged list of decisions, with what the figures mean
  and what a client gets that follows the cursor of the list.

  Three things are parameters: the times of rows the server stamps itself (\<open>created\<close>, the default of
  \<^verbatim>\<open>decisions.created_at\<close>; no statement of the program writes it), the day a time falls on in the time
  zone of the session (\<open>day\<close>, the function \<^verbatim>\<open>date_trunc\<close>), and the text of a time in JSON (\<open>show_time\<close>).
  Where the order of groups depends on the collation it is a parameter, too.
\<close>

section \<open>The audit log\<close>

definition audit_item :: "(int \<Rightarrow> string) \<Rightarrow> audit_row \<Rightarrow> gval option" where
  "audit_item show_time r =
     (case (au_rail r, au_order r, au_actor r, au_mode r, au_result r, au_request r) of
        (Some rail, Some order, Some actor, Some mode, Some res, Some req) \<Rightarrow>
          Some (VMap [(''Action'', VStr (au_action r)), (''Rail'', VStr rail), (''OrderID'', VStr order),
            (''ActorSub'', VStr actor), (''Mode'', VStr mode), (''RequestID'', VStr req),
            (''ResultCode'', VInt res), (''TS'', VStr (show_time (au_ts r)))])
      | _ \<Rightarrow> None)"

text \<open>The slice starts as nil, so that an empty log is \<^verbatim>\<open>null\<close>.\<close>

definition getAudit :: "(int \<Rightarrow> string) \<Rightarrow> (audit_row list \<Rightarrow> audit_row list) \<Rightarrow> db \<Rightarrow> string \<Rightarrow> admin_response" where
  "getAudit show_time order d tid =
     (if faults d AuditQuery then AErr 500 ''db error''
      else (case seq_opts (map (audit_item show_time) (take 100 (order (filter (\<lambda>r. au_tenant r = tid) (audit_log d))))) of
              None \<Rightarrow> AErr 500 ''db error''
            | Some vs \<Rightarrow> AJson 200 [(''items'', if vs = [] then VNil else VArr vs)]))"

section \<open>Usage\<close>

definition usage_label :: "usage_row \<Rightarrow> string" where
  "usage_label u = (if us_action u \<noteq> [] then us_action u else us_method u @ '' '' @ us_path u)"

definition usage_ok :: "usage_row \<Rightarrow> bool" where
  "usage_ok u \<longleftrightarrow> 200 \<le> us_status u \<and> us_status u \<le> 299"

text \<open>\<^verbatim>\<open>COALESCE(AVG(duration_ms)::int,0)\<close>: the cast rounds to the nearest integer, halves away from zero.\<close>

definition avg_ms :: "usage_row list \<Rightarrow> int" where
  "avg_ms us =
     (let s = sum_list (map us_duration us); k = int (length us)
      in if us = [] then 0 else if s \<ge> 0 then (2 * s + k) div (2 * k) else - ((2 * - s + k) div (2 * k)))"

record UsageRow =
  ur_Day :: int
  ur_Action :: string
  ur_Count :: nat
  ur_AvgMs :: int
  ur_Ok :: nat

definition usage_group :: "(int \<Rightarrow> int) \<Rightarrow> usage_row \<Rightarrow> int \<times> string" where
  "usage_group day u = (day (us_started u), usage_label u)"

definition usage_line :: "(int \<Rightarrow> int) \<Rightarrow> usage_row list \<Rightarrow> int \<times> string \<Rightarrow> UsageRow" where
  "usage_line day us g =
     (let xs = filter (\<lambda>u. usage_group day u = g) us
      in \<lparr> ur_Day = fst g, ur_Action = snd g, ur_Count = length xs, ur_AvgMs = avg_ms xs, ur_Ok = length (filter usage_ok xs) \<rparr>)"

definition usage_daily ::
  "(int \<Rightarrow> int) \<Rightarrow> ((int \<times> string) list \<Rightarrow> (int \<times> string) list) \<Rightarrow> usage_row list \<Rightarrow> UsageRow list" where
  "usage_daily day order us = map (usage_line day us) (order (remdups (map (usage_group day) us)))"

definition usage_item :: "(int \<Rightarrow> string) \<Rightarrow> UsageRow \<Rightarrow> gval" where
  "usage_item show_time x = VMap [(''day'', VStr (show_time (ur_Day x))), (''action'', VStr (ur_Action x)),
     (''Count'', VInt (int (ur_Count x))), (''AvgMs'', VInt (ur_AvgMs x)), (''Ok'', VInt (int (ur_Ok x)))]"

definition tenant_usage :: "db \<Rightarrow> string \<Rightarrow> usage_row list" where
  "tenant_usage d tid = filter (\<lambda>u. us_tenant u = tid) (usage_events d)"

text \<open>The totals come from a second statement whose error is dropped; over no rows the sum is NULL, which is an
  error of the scan, after the count.\<close>

definition usage_totals :: "db \<Rightarrow> string \<Rightarrow> nat \<times> nat \<times> int" where
  "usage_totals d tid =
     (let us = tenant_usage d tid in
      if faults d UsageTotals \<or> us = [] then (0, 0, 0) else (length us, length (filter usage_ok us), avg_ms us))"

definition getUsageSummary ::
  "(int \<Rightarrow> string) \<Rightarrow> (int \<Rightarrow> int) \<Rightarrow> ((int \<times> string) list \<Rightarrow> (int \<times> string) list) \<Rightarrow> db \<Rightarrow> string \<Rightarrow> admin_response" where
  "getUsageSummary show_time day order d tid =
     (if faults d UsageDaily then AErr 500 ''db error''
      else (case usage_totals d tid of (cnt, okcnt, avgms) \<Rightarrow>
        AJson 200 [(''totals'', VMap [(''count'', VInt (int cnt)), (''ok'', VInt (int okcnt)), (''avg_ms'', VInt avgms)]),
          (''daily'', VArr (map (usage_item show_time) (usage_daily day order (tenant_usage d tid))))]))"

section \<open>Coverage of actions\<close>

text \<open>The rows of the two left joins for one action: every enabled resolver with every mapping, with a NULL on a
  side that has none.\<close>

definition outer :: "'a list \<Rightarrow> 'a option list" where
  "outer xs = (if xs = [] then [None] else map Some xs)"

definition coverage_join ::
  "resolver_row list \<Rightarrow> mapping_row list \<Rightarrow> action_row \<Rightarrow> (resolver_row option \<times> mapping_row option) list" where
  "coverage_join rs ms a =
     List.product (outer (filter (\<lambda>r. rv_tenant r = an_tenant a \<and> rv_action r = an_key a \<and> rv_enabled r) rs))
       (outer (filter (\<lambda>m. mp_tenant m = an_tenant a \<and> mp_action m = an_key a) ms))"

record CoverageRow =
  cv_Key :: string
  cv_DisplayName :: string
  cv_Resolvers :: nat
  cv_Mappings :: nat
  cv_RequiredMappings :: nat
  cv_GuardrailOK :: bool

definition coverage_line ::
  "action_row list \<Rightarrow> resolver_row list \<Rightarrow> mapping_row list \<Rightarrow> string \<times> string option \<Rightarrow> CoverageRow" where
  "coverage_line as rs ms g =
     (let rows = concat (map (coverage_join rs ms) (filter (\<lambda>a. (an_key a, an_display a) = g) as));
          req = length (filter (\<lambda>(r, m). case m of None \<Rightarrow> False | Some m \<Rightarrow> mp_required m) rows)
      in \<lparr> cv_Key = fst g, cv_DisplayName = or_blank (snd g),
           cv_Resolvers = length (remdups (List.map_filter (map_option rv_id \<circ> fst) rows)),
           cv_Mappings = length (remdups (List.map_filter (map_option mp_id \<circ> snd) rows)),
           cv_RequiredMappings = req, cv_GuardrailOK = req > 0 \<rparr>)"

definition coverage_rows ::
  "((string \<times> string option) list \<Rightarrow> (string \<times> string option) list) \<Rightarrow> db \<Rightarrow> string \<Rightarrow> CoverageRow list" where
  "coverage_rows order d tid =
     (case (rls_rows d (ViaCte tid) an_tenant (actions d), rls_rows d (ViaCte tid) rv_tenant (resolvers d),
            rls_rows d (ViaCte tid) mp_tenant (mappings d)) of
        (Some as, Some rs, Some ms) \<Rightarrow>
          map (coverage_line as rs ms) (order (remdups (map (\<lambda>a. (an_key a, an_display a)) as)))
      | _ \<Rightarrow> [])"

definition coverage_item :: "CoverageRow \<Rightarrow> gval" where
  "coverage_item v = VMap [(''Key'', VStr (cv_Key v)), (''DisplayName'', VStr (cv_DisplayName v)),
     (''Resolvers'', VInt (int (cv_Resolvers v))), (''Mappings'', VInt (int (cv_Mappings v))),
     (''RequiredMappings'', VInt (int (cv_RequiredMappings v))), (''GuardrailOK'', VBool (cv_GuardrailOK v))]"

definition getActionsCoverage ::
  "((string \<times> string option) list \<Rightarrow> (string \<times> string option) list) \<Rightarrow> db \<Rightarrow> string \<Rightarrow> admin_response" where
  "getActionsCoverage order d tid =
     (if faults d CoverageQuery then AErr 500 ''db error''
      else AJson 200 [(''items'', VArr (map coverage_item (coverage_rows order d tid)))])"

section \<open>Summary of decisions\<close>

definition week_ns :: int where "week_ns = 7 * 24 * 3600 * second_ns"

definition recent_decisions :: "(decision_row \<Rightarrow> int) \<Rightarrow> int \<Rightarrow> decision_row list \<Rightarrow> decision_row list" where
  "recent_decisions created now ds = filter (\<lambda>r. created r > now - week_ns) ds"

definition status_counts :: "(string list \<Rightarrow> string list) \<Rightarrow> decision_row list \<Rightarrow> (string \<times> nat) list" where
  "status_counts order ds = map (\<lambda>s. (s, length (filter (\<lambda>r. dc_status r = s) ds))) (order (remdups (map dc_status ds)))"

text \<open>The loop over the groups adds up all counts and those of the two allowing statuses.\<close>

definition add_status :: "nat \<times> nat \<Rightarrow> string \<times> nat \<Rightarrow> nat \<times> nat" where
  "add_status acc x = (case (acc, x) of ((cnt, allowed), (s, c)) \<Rightarrow>
     (cnt + c, if s = ''ALLOW'' \<or> s = ''ALLOW_WITH_CONDITIONS'' then allowed + c else allowed))"

definition summary_totals :: "(string \<times> nat) list \<Rightarrow> nat \<times> nat" where
  "summary_totals cs = foldl add_status (0, 0) cs"

definition allowed_rate :: "nat \<Rightarrow> nat \<Rightarrow> float64" where
  "allowed_rate allowed cnt =
     (if cnt > 0 then f64_div (f64_of_int (int allowed)) (f64_of_int (int cnt)) else f64_of_int 0)"

definition getActionsSummary ::
  "(decision_row \<Rightarrow> int) \<Rightarrow> int \<Rightarrow> (string list \<Rightarrow> string list) \<Rightarrow> db \<Rightarrow> string \<Rightarrow> admin_response" where
  "getActionsSummary created now order d tid =
     (case query_rows d DecisionSummary (ViaCte tid) dc_tenant (decisions d) of
        None \<Rightarrow> AErr 500 ''db error''
      | Some ds \<Rightarrow>
         let cs = status_counts order (recent_decisions created now ds); (cnt, allowed) = summary_totals cs
         in AJson 200 [(''items'', VArr (map (\<lambda>(s, c). VMap [(''status'', VStr s), (''count'', VInt (int c))]) cs)),
              (''allowed_rate'', VFloat (allowed_rate allowed cnt)), (''total'', VInt (int cnt))])"

section \<open>The list of decisions\<close>

definition list_limit :: "string \<Rightarrow> nat" where
  "list_limit v = (case atoi v of Some n \<Rightarrow> if n > 0 \<and> n \<le> 500 then nat n else 100 | None \<Rightarrow> 100)"

text \<open>The cursor: a time the parameter parses to, or none; then the list starts at the newest decision.\<close>

definition list_cursor :: "runtime \<Rightarrow> string \<Rightarrow> int option" where
  "list_cursor rt after = (if after = [] then None else parse_time rt ''2006-01-02T15:04:05Z07:00'' after)"

definition newest_first :: "(decision_row \<Rightarrow> int) \<Rightarrow> decision_row list \<Rightarrow> decision_row list" where
  "newest_first created rows = rev (sort_key (\<lambda>r. (created r, dc_id r)) rows)"

definition decision_page :: "(decision_row \<Rightarrow> int) \<Rightarrow> nat \<Rightarrow> int option \<Rightarrow> decision_row list \<Rightarrow> decision_row list" where
  "decision_page created limit cursor rows =
     take limit (newest_first created (filter (\<lambda>r. case cursor of None \<Rightarrow> True | Some ts \<Rightarrow> created r < ts) rows))"

text \<open>The loop remembers the earliest time it has seen.\<close>

definition earliest :: "(decision_row \<Rightarrow> int) \<Rightarrow> decision_row list \<Rightarrow> int option" where
  "earliest created rows = foldl (\<lambda>acc r. case acc of None \<Rightarrow> Some (created r)
     | Some t \<Rightarrow> if created r < t then Some (created r) else Some t) None rows"

definition decision_item :: "(int \<Rightarrow> string) \<Rightarrow> (decision_row \<Rightarrow> int) \<Rightarrow> decision_row \<Rightarrow> gval" where
  "decision_item show_time created r = VMap [(''id'', VStr (dc_id r)), (''action_key'', VStr (dc_action r)),
     (''status'', VStr (dc_status r)), (''policy_version'', VInt (dc_version r)),
     (''expires_at'', case dc_expires r of None \<Rightarrow> VNil | Some t \<Rightarrow> VStr (show_time t)),
     (''created_at'', VStr (show_time (created r)))]"

definition listDecisions ::
  "runtime \<Rightarrow> (int \<Rightarrow> string) \<Rightarrow> (decision_row \<Rightarrow> int) \<Rightarrow> db \<Rightarrow> string \<Rightarrow> string \<Rightarrow> string \<Rightarrow> admin_response" where
  "listDecisions rt show_time created d tid limit after =
     (case query_rows d ListDecisions (ViaCte tid) dc_tenant (decisions d) of
        None \<Rightarrow> AErr 500 ''db error''
      | Some rows \<Rightarrow>
         let page = decision_page created (list_limit limit) (list_cursor rt after) rows
         in AJson 200 [(''items'', VArr (map (decision_item show_time created) page)),
              (''next_after'', VStr (case earliest created page of None \<Rightarrow> [] | Some t \<Rightarrow> format_rfc3339 rt t))])"

text \<open>The cursor of an answer is the time of its last decision, cut to whole seconds by the format.\<close>

definition cursor_text_ok :: "runtime \<Rightarrow> (decision_row \<Rightarrow> int) \<Rightarrow> decision_row list \<Rightarrow> bool" where
  "cursor_text_ok rt created rows \<longleftrightarrow> (\<forall>r \<in> set rows. format_rfc3339 rt (created r) \<noteq> []
     \<and> parse_time rt ''2006-01-02T15:04:05Z07:00'' (format_rfc3339 rt (created r)) = Some (created r div second_ns * second_ns))"

section \<open>A small instance\<close>

text \<open>A tenant with two usage events, an action with one resolver and a required mapping, and two decisions; times are
  written in whole seconds.\<close>

definition report_usage :: "string \<Rightarrow> int \<Rightarrow> int \<Rightarrow> usage_row" where
  "report_usage a st ms = \<lparr> us_tenant = ''t1'', us_action = a, us_method = ''GET'', us_path = ''/v1/orders'', us_mode = [],
     us_actor = [], us_request = [], us_status = st, us_duration = ms, us_started = 0 \<rparr>"

definition report_decision :: "string \<Rightarrow> string \<Rightarrow> decision_row" where
  "report_decision i st = \<lparr> dc_id = i, dc_tenant = ''t1'', dc_action = ''shop.cancel'', dc_inputs = ''{}'', dc_facts = ''{}'',
     dc_version = 1, dc_status = st, dc_reasons = ''null'', dc_needs = ''null'', dc_alternatives = ''null'', dc_hash = None,
     dc_expires = None \<rparr>"

definition report_resolver :: resolver_row where
  "report_resolver = \<lparr> rv_id = ''r1'', rv_tenant = ''t1'', rv_action = ''shop.cancel'', rv_name = ''order'', rv_connector_key = Some ''shop'',
     rv_request_template = None, rv_response_sample = None, rv_needs = None, rv_enabled = True \<rparr>"

definition report_action :: action_row where
  "report_action = \<lparr> an_tenant = ''t1'', an_key = ''shop.cancel'', an_display = Some ''Cancel'', an_schema = None \<rparr>"

definition report_db :: db where
  "report_db = empty_db\<lparr> cte_runs := True, usage_events := [report_usage ''orders.locate'' 200 12, report_usage [] 502 15],
     actions := [report_action], resolvers := [report_resolver], mappings := [demo_mapping ''t1'' ''inputs'' True],
     decisions := [report_decision ''d1'' ''ALLOW'', report_decision ''d2'' ''BLOCKED''] \<rparr>"

definition report_rt :: runtime where
  "report_rt = demo_rt\<lparr> parse_time := (\<lambda>_ s. map_option (\<lambda>n. n * second_ns) (atoi s)), format_rfc3339 := (\<lambda>t. show_int (t div second_ns)) \<rparr>"

text \<open>Two sets of times: in different seconds, and within one second.\<close>

definition apart :: "decision_row \<Rightarrow> int" where
  "apart r = (if dc_id r = ''d1'' then 7 * second_ns else 5 * second_ns)"

definition together :: "decision_row \<Rightarrow> int" where
  "together r = (if dc_id r = ''d1'' then 5 * second_ns + 900 else 5 * second_ns + 100)"

lemma report_db_fields [simp]:
  "rls_applies report_db" "cte_runs report_db" "faults report_db st = False" "actions report_db = [report_action]"
  "resolvers report_db = [report_resolver]" "mappings report_db = [demo_mapping ''t1'' ''inputs'' True]"
  by (simp_all add: report_db_def empty_db_def)

lemma report_rows: "query_rows report_db ListDecisions (ViaCte ''t1'') dc_tenant (decisions report_db)
    = Some [report_decision ''d1'' ''ALLOW'', report_decision ''d2'' ''BLOCKED'']"
  by (simp add: query_rows_def rls_rows_cte) (simp add: report_db_def report_decision_def)

lemma report_clock:
  "cursor_text_ok report_rt apart [report_decision ''d1'' ''ALLOW'', report_decision ''d2'' ''BLOCKED'']"
  "cursor_text_ok report_rt together [report_decision ''d1'' ''ALLOW'', report_decision ''d2'' ''BLOCKED'']"
  by code_simp+

section \<open>What the figures mean\<close>

text \<open>Grouping loses nothing: the sizes of the groups add up, whatever the order of the groups.\<close>

lemma group_lengths:
  assumes "distinct gs" "f ` set xs \<subseteq> set gs"
  shows "(\<Sum>g\<leftarrow>gs. length (filter (\<lambda>x. f x = g) xs)) = length xs"
  using assms(2)
proof (induction xs)
  case (Cons x xs)
  have "(\<Sum>g\<leftarrow>gs. length (filter (\<lambda>y. f y = g) (x # xs)))
      = (\<Sum>g\<leftarrow>gs. (if f x = g then 1 else 0)) + (\<Sum>g\<leftarrow>gs. length (filter (\<lambda>y. f y = g) xs))"
    unfolding sum_list_addf [symmetric] by (intro arg_cong [where f = sum_list] map_cong) auto
  also have "(\<Sum>g\<leftarrow>gs. (if f x = g then 1 else 0)) = (1 :: nat)"
    using Cons.prems assms(1) by (simp add: sum_list_distinct_conv_sum_set)
  finally show ?case using Cons by simp
qed simp

lemma group_lengths_order:
  assumes "\<And>gs. mset (order gs) = mset gs" "set ys \<subseteq> set xs"
  shows "(\<Sum>g\<leftarrow>order (remdups (map f xs)). length (filter (\<lambda>x. f x = g) ys)) = length ys"
proof (rule group_lengths)
  show "distinct (order (remdups (map f xs)))"
    by (metis assms(1) distinct_remdups mset_eq_imp_distinct_iff)
  have "set (order (remdups (map f xs))) = f ` set xs"
    by (metis assms(1) mset_eq_setD set_map set_remdups)
  then show "f ` set ys \<subseteq> set (order (remdups (map f xs)))" using assms(2) by auto
qed

lemma usage_daily_counts:
  assumes "\<And>gs. mset (order gs) = mset gs"
  shows "sum_list (map ur_Count (usage_daily day order us)) = length us"
    and "sum_list (map ur_Ok (usage_daily day order us)) = length (filter usage_ok us)"
proof -
  have "filter usage_ok (filter P us) = filter P (filter usage_ok us)" for P by (simp add: conj_commute)
  then show "sum_list (map ur_Count (usage_daily day order us)) = length us"
    "sum_list (map ur_Ok (usage_daily day order us)) = length (filter usage_ok us)"
    using group_lengths_order [OF assms filter_is_subset, where f = "usage_group day" and P1 = usage_ok]
      group_lengths_order [OF assms subset_refl, where f = "usage_group day"]
    by (simp_all only: usage_daily_def usage_line_def Let_def map_map comp_def UsageRow.select_convs)
qed

text \<open>The usage report adds up.  The daily lines partition the tenant's events: their counts and the counts of
  their successes sum to the totals of the same report, and no group has more successes than events.\<close>

theorem usage_report_adds_up:
  assumes "\<not> faults d UsageDaily" "\<not> faults d UsageTotals" "\<And>gs. mset (order gs) = mset gs"
  shows "\<exists>lines avg. getUsageSummary show_time day order d tid =
      AJson 200 [(''totals'', VMap [(''count'', VInt (int (sum_list (map ur_Count lines)))),
          (''ok'', VInt (int (sum_list (map ur_Ok lines)))), (''avg_ms'', VInt avg)]),
        (''daily'', VArr (map (usage_item show_time) lines))]
    \<and> (\<forall>l \<in> set lines. ur_Ok l \<le> ur_Count l)"
proof (intro exI conjI)
  let ?lines = "usage_daily day order (tenant_usage d tid)"
  show "getUsageSummary show_time day order d tid =
      AJson 200 [(''totals'', VMap [(''count'', VInt (int (sum_list (map ur_Count ?lines)))),
          (''ok'', VInt (int (sum_list (map ur_Ok ?lines)))), (''avg_ms'', VInt (snd (snd (usage_totals d tid))))]),
        (''daily'', VArr (map (usage_item show_time) ?lines))]"
    using assms(1,2) by (simp add: getUsageSummary_def usage_daily_counts [OF assms(3)] usage_totals_def Let_def)
  show "\<forall>l \<in> set ?lines. ur_Ok l \<le> ur_Count l"
    by (auto simp: usage_daily_def usage_line_def Let_def filter_filter [symmetric] simp del: filter_filter
        intro: length_filter_le)
qed

theorem usage_report_adds_up_witness:
  "\<exists>lines avg. getUsageSummary show_int (\<lambda>t. t div 86400) (\<lambda>gs. gs) report_db ''t1'' =
      AJson 200 [(''totals'', VMap [(''count'', VInt (int (sum_list (map ur_Count lines)))),
          (''ok'', VInt (int (sum_list (map ur_Ok lines)))), (''avg_ms'', VInt avg)]),
        (''daily'', VArr (map (usage_item show_int) lines))]
    \<and> (\<forall>l \<in> set lines. ur_Ok l \<le> ur_Count l)"
  by (rule usage_report_adds_up) simp_all

lemma summary_totals_sum:
  "foldl add_status acc cs = (fst acc + sum_list (map snd cs),
     snd acc + sum_list (map snd (filter (\<lambda>c. allowed_status (fst c)) cs)))"
  by (induction cs arbitrary: acc) (auto simp: add_status_def allowed_status_def split: prod.splits)

lemma sum_list_filter_if: "sum_list (map g (filter P xs)) = (\<Sum>x\<leftarrow>xs. if P x then g x else (0::nat))"
  by (induction xs) auto

lemma summary_totals_status:
  assumes "\<And>gs. mset (order gs) = mset gs"
  shows "summary_totals (status_counts order ds) = (length ds, length (filter (allowed_status \<circ> dc_status) ds))"
proof -
  let ?A = "filter (allowed_status \<circ> dc_status) ds" and ?gs = "order (remdups (map dc_status ds))"
  have "length (filter (\<lambda>r. dc_status r = g) ?A) = (if allowed_status g then length (filter (\<lambda>r. dc_status r = g) ds) else 0)" for g
    by (induction ds) auto
  then have "(\<Sum>g\<leftarrow>?gs. if allowed_status g then length (filter (\<lambda>r. dc_status r = g) ds) else 0) = length ?A"
    using group_lengths_order [OF assms, where f = dc_status and xs = ds and ys = ?A] by simp
  moreover have "(\<Sum>g\<leftarrow>?gs. length (filter (\<lambda>r. dc_status r = g) ds)) = length ds"
    by (rule group_lengths_order [OF assms]) simp
  ultimately show ?thesis
    by (simp add: summary_totals_def summary_totals_sum status_counts_def filter_map comp_def sum_list_filter_if)
qed

text \<open>The summary counts the decisions of the last seven days, and as allowed those whose status lets them be executed.\<close>

lemma decision_summary_counts:
  assumes "query_rows d DecisionSummary (ViaCte tid) dc_tenant (decisions d) = Some ds" "\<And>gs. mset (order gs) = mset gs"
  shows "\<exists>items. getActionsSummary created now order d tid = AJson 200 [(''items'', items),
    (''allowed_rate'', VFloat (allowed_rate (length (filter (allowed_status \<circ> dc_status) (recent_decisions created now ds)))
       (length (recent_decisions created now ds)))),
    (''total'', VInt (int (length (recent_decisions created now ds))))]"
  using assms(1) by (simp add: getActionsSummary_def summary_totals_status [OF assms(2)] comp_def)

section \<open>Coverage\<close>

lemma length_outer: "length (outer xs) = max 1 (length xs)"
  by (cases xs) (simp_all add: outer_def)

lemma set_outer: "set (outer xs) = (if xs = [] then {None} else Some ` set xs)"
  by (simp add: outer_def)

lemma outer_nonempty: "set (outer xs) \<noteq> {}"
  by (simp add: set_outer)

lemma length_filter_outer:
  "length (filter (\<lambda>m. case m of None \<Rightarrow> False | Some x \<Rightarrow> P x) (outer xs)) = length (filter P xs)"
  by (simp add: outer_def filter_map comp_def)

lemma length_filter_product: "length (filter (\<lambda>(r, m). Q m) (List.product xs ys)) = length xs * length (filter Q ys)"
  by (induction xs) (simp_all add: filter_map comp_def)

lemma map_filter_set: "set (List.map_filter f xs) = {y. \<exists>x \<in> set xs. f x = Some y}"
  by (force simp: List.map_filter_def)

lemma remdups_ids:
  assumes "distinct (map f xs)" "set ids = f ` set xs"
  shows "length (remdups ids) = length xs"
  using assms by (metis distinct_card length_map length_remdups_card_conv list.set_map)

lemma coverage_single:
  fixes a :: action_row
  defines "R rs \<equiv> filter (\<lambda>r. rv_tenant r = an_tenant a \<and> rv_action r = an_key a \<and> rv_enabled r) rs"
    and "M ms \<equiv> filter (\<lambda>m. mp_tenant m = an_tenant a \<and> mp_action m = an_key a) ms"
  assumes "filter (\<lambda>b. (an_key b, an_display b) = g) as = [a]"
    and ids: "distinct (map rv_id rs)" "distinct (map mp_id ms)"
  shows "cv_Resolvers (coverage_line as rs ms g) = length (R rs)"
    and "cv_Mappings (coverage_line as rs ms g) = length (M ms)"
    and "cv_RequiredMappings (coverage_line as rs ms g) = max 1 (length (R rs)) * length (filter mp_required (M ms))"
proof -
  have rows: "concat (map (coverage_join rs ms) (filter (\<lambda>b. (an_key b, an_display b) = g) as)) = List.product (outer (R rs)) (outer (M ms))"
    unfolding assms(3) by (simp add: coverage_join_def R_def M_def)
  have "distinct (map rv_id (R rs))" "distinct (map mp_id (M ms))"
    using ids by (simp_all add: R_def M_def distinct_map_filter)
  moreover have "set (List.map_filter (map_option rv_id \<circ> fst) (List.product (outer (R rs)) (outer (M ms)))) = rv_id ` set (R rs)"
    using outer_nonempty [of "M ms"] by (auto simp: map_filter_set set_outer split: if_splits)
  moreover have "set (List.map_filter (map_option mp_id \<circ> snd) (List.product (outer (R rs)) (outer (M ms)))) = mp_id ` set (M ms)"
    using outer_nonempty [of "R rs"] by (auto simp: map_filter_set set_outer split: if_splits)
  ultimately show "cv_Resolvers (coverage_line as rs ms g) = length (R rs)" "cv_Mappings (coverage_line as rs ms g) = length (M ms)"
    by (simp_all add: coverage_line_def Let_def rows remdups_ids)
  show "cv_RequiredMappings (coverage_line as rs ms g) = max 1 (length (R rs)) * length (filter mp_required (M ms))"
    by (simp add: coverage_line_def Let_def rows length_filter_product length_filter_outer length_outer)
qed

text \<open>A line of the report belongs to one action of the tenant.\<close>

lemma coverage_row_action:
  assumes "rls_applies d" "cte_runs d" "\<And>gs. mset (order gs) = mset gs"
    and keys: "distinct (map (\<lambda>a. (an_tenant a, an_key a)) (actions d))"
    and row: "row \<in> set (coverage_rows order d tid)"
  obtains a where "an_tenant a = tid"
    "row = coverage_line (filter (\<lambda>r. an_tenant r = tid) (actions d)) (filter (\<lambda>r. rv_tenant r = tid) (resolvers d))
       (filter (\<lambda>r. mp_tenant r = tid) (mappings d)) (an_key a, an_display a)"
    "filter (\<lambda>b. (an_key b, an_display b) = (an_key a, an_display a)) (filter (\<lambda>r. an_tenant r = tid) (actions d)) = [a]"
proof -
  let ?as = "filter (\<lambda>r. an_tenant r = tid) (actions d)"
  have "set (order (remdups (map (\<lambda>a. (an_key a, an_display a)) ?as))) = set (map (\<lambda>a. (an_key a, an_display a)) ?as)"
    using mset_eq_setD [OF assms(3)] by simp
  moreover have "row \<in> coverage_line ?as (filter (\<lambda>r. rv_tenant r = tid) (resolvers d)) (filter (\<lambda>r. mp_tenant r = tid) (mappings d))
      ` set (order (remdups (map (\<lambda>a. (an_key a, an_display a)) ?as)))"
    using row assms(1,2) by (simp add: coverage_rows_def rls_rows_cte)
  ultimately obtain a where a: "a \<in> set ?as" and eq: "row = coverage_line ?as (filter (\<lambda>r. rv_tenant r = tid) (resolvers d))
       (filter (\<lambda>r. mp_tenant r = tid) (mappings d)) (an_key a, an_display a)"
    by (elim imageE) (simp only: set_map, elim imageE, blast)
  have "filter (\<lambda>b. (an_key b, an_display b) = (an_key a, an_display a)) ?as = [a]"
    by (rule filter_unique [OF distinct_map_filter [OF keys]]) (use a in auto)
  then show ?thesis using that [OF _ eq] a by simp
qed

lemma coverage_line_key [simp]: "cv_Key (coverage_line as rs ms g) = fst g"
  by (simp add: coverage_line_def Let_def)

lemma coverage_line_guardrail: "cv_GuardrailOK (coverage_line as rs ms g) = (cv_RequiredMappings (coverage_line as rs ms g) > 0)"
  by (simp add: coverage_line_def Let_def)


lemma report_coverage: "coverage_rows (\<lambda>gs. gs) report_db ''t1'' = [\<lparr> cv_Key = ''shop.cancel'', cv_DisplayName = ''Cancel'',
    cv_Resolvers = 1, cv_Mappings = 1, cv_RequiredMappings = 1, cv_GuardrailOK = True \<rparr>]"
  by code_simp


section \<open>Following the cursor\<close>

text \<open>A client that starts without a cursor, asks again with the cursor of each answer, and stops when there is none.
  It gives up after a number of requests.\<close>

fun fetch_all :: "nat \<Rightarrow> (string \<Rightarrow> admin_response) \<Rightarrow> string \<Rightarrow> gval list option" where
  "fetch_all 0 serve after = None"
| "fetch_all (Suc n) serve after =
     (case serve after of
        AJson _ kv \<Rightarrow>
          (case (mget kv ''items'', mget kv ''next_after'') of
             (VArr vs, VStr nxt) \<Rightarrow> if nxt = [] then Some vs else map_option ((@) vs) (fetch_all n serve nxt)
           | _ \<Rightarrow> None)
      | _ \<Rightarrow> None)"

definition before :: "(decision_row \<Rightarrow> int) \<Rightarrow> int option \<Rightarrow> decision_row \<Rightarrow> bool" where
  "before created cursor r \<longleftrightarrow> (case cursor of None \<Rightarrow> True | Some ts \<Rightarrow> created r < ts)"

lemma newest_first_filter: "newest_first created (filter P rows) = filter P (newest_first created rows)"
  by (simp add: newest_first_def filter_sort rev_filter [symmetric])

lemma set_newest_first [simp]: "set (newest_first created rows) = set rows"
  by (simp add: newest_first_def)

lemma decision_page_eq:
  "decision_page created limit cursor rows = take limit (filter (before created cursor) (newest_first created rows))"
proof -
  have "(\<lambda>r. case cursor of None \<Rightarrow> True | Some ts \<Rightarrow> created r < ts) = before created cursor"
    by (simp add: before_def fun_eq_iff)
  then show ?thesis by (simp add: decision_page_def newest_first_filter)
qed

lemma newest_first_desc: "sorted_wrt (\<lambda>r s. created r \<ge> created s) (newest_first created rows)"
proof -
  have "sorted (map (\<lambda>r. (created r, dc_id r)) (sort_key (\<lambda>r. (created r, dc_id r)) rows))" by simp
  then have "sorted_wrt (\<lambda>r s. (created r, dc_id r) \<le> (created s, dc_id s)) (sort_key (\<lambda>r. (created r, dc_id r)) rows)"
    by (simp add: sorted_wrt_map)
  then have "sorted_wrt (\<lambda>r s. created r \<le> created s) (sort_key (\<lambda>r. (created r, dc_id r)) rows)"
    by (rule sorted_wrt_mono_rel [rotated]) auto
  then show ?thesis by (simp add: newest_first_def sorted_wrt_rev)
qed

lemma earliest_desc:
  assumes "sorted_wrt (\<lambda>r s. created r \<ge> created s) rows"
  shows "earliest created rows = (if rows = [] then None else Some (created (last rows)))"
  using assms
proof (induction rows rule: rev_induct)
  case (snoc r rows)
  then have IH: "earliest created rows = (if rows = [] then None else Some (created (last rows)))"
    by (simp add: sorted_wrt_append)
  have "rows \<noteq> [] \<Longrightarrow> created r \<le> created (last rows)" using snoc.prems by (simp add: sorted_wrt_append)
  moreover have "earliest created (rows @ [r]) = (case earliest created rows of None \<Rightarrow> Some (created r)
      | Some t \<Rightarrow> if created r < t then Some (created r) else Some t)"
    by (simp add: earliest_def)
  ultimately show ?case using IH by (auto simp: antisym_conv2)
qed (simp add: earliest_def)

lemma list_limit_pos: "list_limit v > 0"
  by (simp add: list_limit_def split: option.split)

text \<open>One request in terms of the list of all decisions, newest first.\<close>

lemma listDecisions_page:
  assumes "query_rows d ListDecisions (ViaCte tid) dc_tenant (decisions d) = Some rows"
  shows "listDecisions rt show_time created d tid limit after =
    (let page = take (list_limit limit) (filter (before created (list_cursor rt after)) (newest_first created rows))
     in AJson 200 [(''items'', VArr (map (decision_item show_time created) page)),
          (''next_after'', VStr (if page = [] then [] else format_rfc3339 rt (created (last page))))])"
proof -
  let ?page = "take (list_limit limit) (filter (before created (list_cursor rt after)) (newest_first created rows))"
  have "sorted_wrt (\<lambda>r s. created r \<ge> created s) ?page"
    by (intro sorted_wrt_take sorted_wrt_filter newest_first_desc)
  then show ?thesis using assms by (simp add: listDecisions_def decision_page_eq earliest_desc Let_def)
qed

lemma list_cursor_format:
  assumes "cursor_text_ok rt created rows" "r \<in> set rows"
  shows "list_cursor rt (format_rfc3339 rt (created r)) = Some (created r div second_ns * second_ns)"
  using assms by (simp add: cursor_text_ok_def list_cursor_def)

lemma whole_seconds_le: "t div second_ns * second_ns \<le> t"
  using div_mult_mod_eq [of t second_ns] pos_mod_sign [of second_ns t] by (simp add: second_ns_def)

lemma fetch_all_step:
  assumes "query_rows d ListDecisions (ViaCte tid) dc_tenant (decisions d) = Some rows" "cursor_text_ok rt created rows"
  defines "page limit after \<equiv> take (list_limit limit) (filter (before created (list_cursor rt after)) (newest_first created rows))"
  shows "fetch_all (Suc n) (listDecisions rt show_time created d tid limit) after =
    (if page limit after = [] then Some []
     else map_option ((@) (map (decision_item show_time created) (page limit after)))
       (fetch_all n (listDecisions rt show_time created d tid limit) (format_rfc3339 rt (created (last (page limit after))))))"
proof -
  have "last (page limit after) \<in> set rows" if "page limit after \<noteq> []"
    using last_in_set [OF that] unfolding page_def by (auto dest!: in_set_takeD)
  then show ?thesis
    using assms(2) by (simp add: listDecisions_page [OF assms(1)] Let_def mget_def cursor_text_ok_def page_def [symmetric])
qed

lemma filter_before_shrinks:
  assumes "ys = filter (before created c) S" "r \<in> set ys" "t \<le> created r"
  shows "filter (before created (Some t)) S = filter (before created (Some t)) ys"
    and "length (filter (before created (Some t)) S) < length ys"
proof -
  have "before created c r" using assms(1,2) by simp
  then have "before created c s" if "before created (Some t) s" for s
    using that assms(3) by (auto simp: before_def split: option.splits)
  then show eq: "filter (before created (Some t)) S = filter (before created (Some t)) ys"
    unfolding assms(1) filter_filter by (intro filter_cong) auto
  show "length (filter (before created (Some t)) S) < length ys"
    unfolding eq by (rule length_filter_less [OF assms(2)]) (use assms(3) in \<open>simp add: before_def\<close>)
qed

lemma fetch_all_returns:
  assumes "query_rows d ListDecisions (ViaCte tid) dc_tenant (decisions d) = Some rows" "cursor_text_ok rt created rows"
    and "length (filter (before created (list_cursor rt after)) (newest_first created rows)) \<le> n"
  shows "\<exists>items. fetch_all (Suc n) (listDecisions rt show_time created d tid limit) after = Some items"
  using assms(3)
proof (induction n arbitrary: after)
  case 0
  then show ?case by (simp only: fetch_all_step [OF assms(1,2)]) simp
next
  case (Suc n)
  let ?vis = "\<lambda>c. filter (before created c) (newest_first created rows)"
  let ?page = "take (list_limit limit) (?vis (list_cursor rt after))"
  show ?case
  proof (cases "?page = []")
    case False
    let ?r = "last ?page"
    have r: "?r \<in> set (?vis (list_cursor rt after))" by (rule in_set_takeD [OF last_in_set [OF False]])
    then have "?r \<in> set rows" by simp
    then have c: "list_cursor rt (format_rfc3339 rt (created ?r)) = Some (created ?r div second_ns * second_ns)"
      by (rule list_cursor_format [OF assms(2)])
    have "length (?vis (list_cursor rt (format_rfc3339 rt (created ?r)))) < length (?vis (list_cursor rt after))"
      unfolding c by (rule filter_before_shrinks(2) [OF refl r whole_seconds_le])
    then obtain items where "fetch_all (Suc n) (listDecisions rt show_time created d tid limit) (format_rfc3339 rt (created ?r)) = Some items"
      using Suc.IH [of "format_rfc3339 rt (created ?r)"] Suc.prems by fastforce
    then show ?thesis using False by (simp only: fetch_all_step [OF assms(1,2), of "Suc n"]) simp
  qed (simp only: fetch_all_step [OF assms(1,2)], simp)
qed

text \<open>C32: Following the cursor ends.  Whatever limit the client asks for and however the decisions are distributed
  over time, asking again with the cursor of each answer reaches an answer without a cursor after at most
  one request more than there are decisions, provided that the client's text of a time is read back as
  that time in whole seconds.\<close>

theorem decision_list_ends:
  assumes "query_rows d ListDecisions (ViaCte tid) dc_tenant (decisions d) = Some rows" "cursor_text_ok rt created rows"
  shows "\<exists>items. fetch_all (Suc (length rows)) (listDecisions rt show_time created d tid limit) [] = Some items"
proof (rule fetch_all_returns [OF assms])
  show "length (filter (before created (list_cursor rt [])) (newest_first created rows)) \<le> length rows"
    by (rule order_trans [OF length_filter_le]) (simp add: newest_first_def)
qed

theorem decision_list_ends_witness:
  "\<exists>items. fetch_all 3 (listDecisions report_rt show_int together report_db ''t1'' ''1'') [] = Some items"
  using decision_list_ends [OF report_rows report_clock(2), of show_int "''1''"] by (simp add: numeral_3_eq_3)

lemma filter_before_drop:
  assumes "sorted_wrt (\<lambda>r s. created r > created s) ys" "take l ys \<noteq> []"
  shows "filter (before created (Some (created (last (take l ys))))) ys = drop l ys"
proof -
  let ?t = "take l ys" and ?u = "drop l ys"
  have "sorted_wrt (\<lambda>r s. created r > created s) (?t @ ?u)" using assms(1) by simp
  then have u: "\<And>r s. r \<in> set ?t \<Longrightarrow> s \<in> set ?u \<Longrightarrow> created r > created s"
    unfolding sorted_wrt_append by blast
  have t: "sorted_wrt (\<lambda>r s. created r > created s) (butlast ?t @ [last ?t])"
    unfolding append_butlast_last_id [OF assms(2)] by (rule sorted_wrt_take [OF assms(1)])
  have "created r \<ge> created (last ?t)" if "r \<in> set ?t" for r
  proof -
    have "r \<in> set (butlast ?t @ [last ?t])" using that assms(2) by simp
    then show ?thesis using t unfolding sorted_wrt_append by force
  qed
  then have "filter (before created (Some (created (last ?t)))) ?t = []" by (force simp: filter_empty_conv before_def)
  moreover have "filter (before created (Some (created (last ?t)))) ?u = ?u"
    using u last_in_set [OF assms(2)] by (simp add: filter_id_conv before_def)
  ultimately have "filter (before created (Some (created (last ?t)))) (?t @ ?u) = ?u" by (simp only: filter_append append_Nil)
  then show ?thesis by simp
qed

lemma newest_first_strict:
  assumes "distinct (map created rows)"
  shows "sorted_wrt (\<lambda>r s. created r > created s) (newest_first created rows)"
proof -
  have "mset (newest_first created rows) = mset rows" by (simp add: newest_first_def)
  then have "distinct (map created (newest_first created rows))" by (metis assms mset_eq_imp_distinct_iff mset_map)
  with newest_first_desc [of created rows] show ?thesis
    by (force simp: sorted_wrt_iff_nth_less distinct_conv_nth less_le)
qed

lemma fetch_all_complete:
  assumes "query_rows d ListDecisions (ViaCte tid) dc_tenant (decisions d) = Some rows" "cursor_text_ok rt created rows"
    and "distinct (map created rows)" "\<And>r. r \<in> set rows \<Longrightarrow> created r mod second_ns = 0"
    and "length (filter (before created (list_cursor rt after)) (newest_first created rows)) \<le> n"
  shows "fetch_all (Suc n) (listDecisions rt show_time created d tid limit) after =
    Some (map (decision_item show_time created) (filter (before created (list_cursor rt after)) (newest_first created rows)))"
  using assms(5)
proof (induction n arbitrary: after)
  case 0
  then show ?case by (simp only: fetch_all_step [OF assms(1,2)]) simp
next
  case (Suc n)
  let ?vis = "\<lambda>c. filter (before created c) (newest_first created rows)"
  define ys where "ys = ?vis (list_cursor rt after)"
  let ?page = "take (list_limit limit) ys"
  show ?case
  proof (cases "?page = []")
    case False
    let ?r = "last ?page" and ?after = "format_rfc3339 rt (created (last ?page))"
    have r: "?r \<in> set ys" by (rule in_set_takeD [OF last_in_set [OF False]])
    then have mem: "?r \<in> set rows" by (simp add: ys_def)
    have "created ?r div second_ns * second_ns = created ?r"
      using div_mult_mod_eq [of "created ?r" second_ns] assms(4) [OF mem] by simp
    then have c: "list_cursor rt ?after = Some (created ?r)"
      using list_cursor_format [OF assms(2) mem] by simp
    have "sorted_wrt (\<lambda>r s. created r > created s) ys"
      unfolding ys_def by (intro sorted_wrt_filter newest_first_strict assms(3))
    then have rest: "?vis (list_cursor rt ?after) = drop (list_limit limit) ys"
      unfolding c filter_before_shrinks(1) [OF ys_def r order_refl] by (rule filter_before_drop [OF _ False])
    have "length (drop (list_limit limit) ys) \<le> n"
      using Suc.prems list_limit_pos [of limit] by (simp add: ys_def)
    then have "fetch_all (Suc n) (listDecisions rt show_time created d tid limit) ?after
        = Some (map (decision_item show_time created) (drop (list_limit limit) ys))"
      using Suc.IH [of ?after] unfolding rest by blast
    then show ?thesis
      using False by (simp only: fetch_all_step [OF assms(1,2), of "Suc n"] ys_def [symmetric])
        (simp add: map_append [symmetric] del: map_append)
  next
    case True
    then have "ys = []" using list_limit_pos [of limit] by simp
    then show ?thesis by (simp only: fetch_all_step [OF assms(1,2)] ys_def [symmetric]) simp
  qed
qed



text \<open>Decisions of the same second get lost.  The cursor is cut to whole seconds, and the next request asks for
  earlier decisions only.  With two decisions in one second and one decision per page, a client that
  follows the cursor to the end never sees the older one.\<close>

theorem decision_list_skips:
  assumes "query_rows d ListDecisions (ViaCte tid) dc_tenant (decisions d) = Some [r1, r2]" "cursor_text_ok rt created [r1, r2]"
    and "created r2 < created r1" "created r2 div second_ns = created r1 div second_ns"
  shows "fetch_all (Suc (Suc n)) (listDecisions rt show_time created d tid ''1'') [] = Some [decision_item show_time created r1]"
proof -
  have lim: "list_limit ''1'' = 1" by code_simp
  have S: "newest_first created [r1, r2] = [r1, r2]" using assms(3) by (simp add: newest_first_def)
  let ?t = "created r1 div second_ns * second_ns"
  have c: "list_cursor rt (format_rfc3339 rt (created r1)) = Some ?t"
    by (rule list_cursor_format [OF assms(2)]) simp
  have "?t \<le> created r1" "?t \<le> created r2" using whole_seconds_le [of "created r2"] by (simp_all add: assms(4) whole_seconds_le)
  then have none: "filter (before created (Some ?t)) [r1, r2] = []" by (simp add: before_def)
  have all: "filter (before created (list_cursor rt [])) [r1, r2] = [r1, r2]" by (simp add: list_cursor_def before_def)
  have one: "take 1 [r1, r2] = [r1]" by simp
  show ?thesis
    by (simp only: fetch_all_step [OF assms(1,2)] S all lim one last.simps c none take_Nil simp_thms if_True if_False not_Cons_self2) simp
qed

theorem decision_list_skips_witness:
  "fetch_all 9 (listDecisions report_rt show_int together report_db ''t1'' ''1'') []
    = Some [decision_item show_int together (report_decision ''d1'' ''ALLOW'')]"
proof -
  have "together (report_decision ''d2'' ''BLOCKED'') < together (report_decision ''d1'' ''ALLOW'')"
    "together (report_decision ''d2'' ''BLOCKED'') div second_ns = together (report_decision ''d1'' ''ALLOW'') div second_ns"
    by (simp_all add: together_def report_decision_def second_ns_def)
  from decision_list_skips [OF report_rows report_clock(2) this, of 7 show_int] show ?thesis by (simp add: numeral_eq_Suc)
qed

end
