(* ===== verification/Admin.thy ===== *)
theory Admin
  imports Admin_Auth Admin_Registry Admin_Analytics
begin

text \<open>
  The admin API as a whole: every handler that changes the database, as one relation, and what all of
  them leave alone.  Test executions are not part of it; they are not edits but executions.
\<close>

inductive admin_edit :: "db \<Rightarrow> db \<Rightarrow> bool" where
  policies: "putPolicies d tid pb = (resp, d') \<Longrightarrow> admin_edit d d'"
| versions: "policy_edit d d' \<Longrightarrow> admin_edit d d'"
| action: "upsertAction d tid key ab = (resp, d') \<Longrightarrow> admin_edit d d'"
| resolver: "upsertResolver fresh d tid key name rb = (resp, d') \<Longrightarrow> admin_edit d d'"
| no_resolver: "deleteResolver d tid key name = (resp, d') \<Longrightarrow> admin_edit d d'"
| mapping: "upsertMapping fresh d tid key name mb = (resp, d') \<Longrightarrow> admin_edit d d'"
| no_mapping: "deleteMapping d tid key name = (resp, d') \<Longrightarrow> admin_edit d d'"
| oidc: "putTenantOIDC d tid ob = (resp, d') \<Longrightarrow> admin_edit d d'"
| auth: "createAuth va fresh d tid ub = (resp, d') \<Longrightarrow> admin_edit d d'"
| auth_update: "updateAuth va d tid i ub = (resp, d') \<Longrightarrow> admin_edit d d'"
| no_auth: "deleteAuth d tid i = (resp, d') \<Longrightarrow> admin_edit d d'"
| toggle: "putTenantConnector va d tid cid cb = (resp, d') \<Longrightarrow> admin_edit d d'"
| custom: "createCustomConnector is_uuid freshs d tid cc = (resp, d') \<Longrightarrow> admin_edit d d'"
| custom_update: "updateCustomConnector is_uuid freshs d tid cid cc = (resp, d') \<Longrightarrow> admin_edit d d'"
| operation: "putConnectorAction d tid cid opid e = (resp, d') \<Longrightarrow> admin_edit d d'"
| catalogue_entry: "upsertConnector d i cs = (resp, d') \<Longrightarrow> admin_edit d d'"

lemma reconfigured_refl [simp]: "reconfigured d d"
  by (simp add: reconfigured_def)

lemma reconfigured_trans: "reconfigured a b \<Longrightarrow> reconfigured b c \<Longrightarrow> reconfigured a c"
  by (simp add: reconfigured_def)

lemma reconfigured_updates [simp]:
  "reconfigured d (d\<lparr> policy_versions := a \<rparr>)" "reconfigured d (d\<lparr> tenant_policies := b \<rparr>)" "reconfigured d (d\<lparr> actions := c \<rparr>)"
  "reconfigured d (d\<lparr> resolvers := e \<rparr>)" "reconfigured d (d\<lparr> mappings := f \<rparr>)" "reconfigured d (d\<lparr> tenants := g \<rparr>)"
  "reconfigured d (d\<lparr> auth_configs := h \<rparr>)" "reconfigured d (d\<lparr> tenant_connectors := i \<rparr>)" "reconfigured d (d\<lparr> definitions := j \<rparr>)"
  "reconfigured d (d\<lparr> operations := k \<rparr>)" "reconfigured d (d\<lparr> connectors := l \<rparr>)"
  by (simp_all add: reconfigured_def)

lemma reconfigured_versions: "policy_edit d d' \<Longrightarrow> reconfigured d d'"
proof (induction rule: policy_edit.induct)
  case (draft rc d tid body resp d')
  then show ?case by (auto simp: createPolicyVersion_def upsert_draft_def Let_def split: option.splits if_splits)
next
  case (publish d tid keyParam verStr resp d')
  then show ?case by (auto simp: publishPolicyVersion_def split: sum.splits if_splits)
qed

lemma reconfigured_insert_action [simp]: "reconfigured d (insert_action d tid disp)"
  by (simp add: insert_action_def)

lemma reconfigured_store_tc: "store_tc d tid cid e enc = Some d' \<Longrightarrow> reconfigured d d'"
  by (auto simp: store_tc_def split: if_splits)

lemma reconfigured_enable [simp]: "reconfigured d (enable_quietly d tid cid e)"
  by (auto simp: enable_quietly_def split: option.split intro: reconfigured_store_tc)

lemma reconfigured_toggle: "toggle_connector d tid cid e enc = (resp, d') \<Longrightarrow> reconfigured d d'"
  by (auto simp: toggle_connector_def Let_def split: option.splits if_splits
      intro: reconfigured_store_tc reconfigured_trans [OF reconfigured_store_tc reconfigured_insert_action])

lemma reconfigured_insert_op [simp]: "reconfigured d (insert_op d q)"
  by (simp add: insert_op_def add_operation_def)

lemma reconfigured_insert_ops [simp]: "reconfigured d (insert_ops freshs cid obs d)"
proof -
  have "reconfigured d (foldl (\<lambda>d (i, ob). insert_op d (op_row_of (freshs (Suc i)) cid ob)) d xs)" for xs
  proof (induction xs arbitrary: d)
    case (Cons x xs)
    show ?case using reconfigured_trans [OF reconfigured_insert_op Cons.IH] by (simp add: split_def)
  qed simp
  then show ?thesis by (simp add: insert_ops_def)
qed

lemma reconfigured_body [simp]: "reconfigured d (enable_from_body d tid cid b)"
  by (auto simp: enable_from_body_def Let_def split: option.split intro: reconfigured_trans [OF reconfigured_enable reconfigured_insert_action])

lemma reconfigured_delete_ops [simp]: "reconfigured d (delete_ops d cid)"
  by (simp add: delete_ops_def)

lemma reconfigured_custom:
  assumes "createCustomConnector is_uuid freshs d tid cc = (resp, d')"
  shows "reconfigured d d'"
proof (cases "d' = d")
  case False
  then obtain b where b: "cc = Some b" using assms by (auto simp: createCustomConnector_def split: option.splits)
  define d2 where "d2 = insert_ops freshs (freshs 0) (op_list b) (d\<lparr> definitions := definitions d @ [custom_definition (freshs 0) tid b] \<rparr>)"
  have d2: "reconfigured d d2" unfolding d2_def by (rule reconfigured_trans [OF reconfigured_updates(9) reconfigured_insert_ops])
  have "d' = d2 \<or> d' = enable_quietly d2 tid (freshs 0) True \<or> d' = insert_action (enable_quietly d2 tid (freshs 0) True) tid (body_label b)"
    using assms False by (auto simp: createCustomConnector_def b Let_def d2_def split: if_splits)
  then show ?thesis using d2 by (meson reconfigured_trans reconfigured_enable reconfigured_insert_action)
qed simp

lemma reconfigured_custom_update:
  assumes "updateCustomConnector is_uuid freshs d tid cid cc = (resp, d')"
  shows "reconfigured d d'"
proof (cases "d' = d")
  case False
  then obtain b where b: "cc = Some b" using assms by (auto simp: updateCustomConnector_def split: option.splits)
  define d2 where "d2 = enable_from_body (d\<lparr> definitions := map (\<lambda>f. if df_id f = cid \<and> df_tenant f = tid then updated_definition b f else f) (definitions d) \<rparr>) tid cid b"
  have d2: "reconfigured d d2" unfolding d2_def by (rule reconfigured_trans [OF reconfigured_updates(9) reconfigured_body])
  have "d' = d2 \<or> d' = insert_ops freshs cid (op_list b) (delete_ops d2 cid)"
    using assms False by (auto simp: updateCustomConnector_def b Let_def d2_def split: if_splits)
  then show ?thesis using d2 by (meson reconfigured_trans reconfigured_delete_ops reconfigured_insert_ops)
qed simp

lemma reconfigured_auth_update: "updateAuth va d tid i ub = (resp, d') \<Longrightarrow> reconfigured d d'"
  by (auto simp: updateAuth_def store_auth_def split: option.splits if_splits)

lemma reconfigured_connector: "putTenantConnector va d tid cid cb = (resp, d') \<Longrightarrow> reconfigured d d'"
  by (auto simp: putTenantConnector_def split: option.splits if_splits intro: reconfigured_toggle)

lemma admin_edit_reconfigures: "admin_edit d d' \<Longrightarrow> reconfigured d d'"
proof (induction rule: admin_edit.induct)
  case (policies d tid pb resp d')
  then show ?case by (auto simp: putPolicies_def split: option.splits if_splits)
next
  case (action d tid key ab resp d')
  then show ?case by (auto simp: upsertAction_def split: option.splits if_splits)
next
  case (resolver fresh d tid key name rb resp d')
  then show ?case by (auto simp: upsertResolver_def split: option.splits if_splits)
next
  case (no_resolver d tid key name resp d')
  then show ?case by (auto simp: deleteResolver_def split: if_splits)
next
  case (mapping fresh d tid key name mb resp d')
  then show ?case by (auto simp: upsertMapping_def split: option.splits if_splits)
next
  case (no_mapping d tid key name resp d')
  then show ?case by (auto simp: deleteMapping_def split: if_splits)
next
  case (oidc d tid ob resp d')
  then show ?case by (auto simp: putTenantOIDC_def split: option.splits if_splits)
next
  case (auth va fresh d tid ub resp d')
  then show ?case by (auto simp: createAuth_def split: option.splits if_splits)
next
  case (no_auth d tid i resp d')
  then show ?case by (auto simp: deleteAuth_def split: if_splits)
next
  case (operation d tid cid opid e resp d')
  then show ?case by (auto simp: putConnectorAction_def split: option.splits if_splits)
next
  case (catalogue_entry d i cs resp d')
  then show ?case by (auto simp: upsertConnector_def Let_def split: option.splits if_splits)
qed (auto intro: reconfigured_versions reconfigured_auth_update reconfigured_connector reconfigured_custom reconfigured_custom_update)

end
