(* ===== verification/Services.thy ===== *)
theory Services
  imports Policy_HTTP Connector Manifest
begin

text \<open>
  The processes: how \<^verbatim>\<open>cmd/policy-service\<close>, \<^verbatim>\<open>cmd/connector-service\<close> and \<^verbatim>\<open>cmd/manifest-service\<close> put the middlewares,
  the routes and the handlers together.  One function per process maps a request to its answer, the new
  database, the new caches and the requests sent to other systems.  Tracing and the debugging writer do
  not change an answer and are left out, as are the metrics page and the life of the process.
\<close>

section \<open>Connections\<close>

text \<open>\<^verbatim>\<open>pkg/db/db.go\<close>: without an address there is no connection; a connection that cannot be opened or does not answer
  ends the process.  What is logged of the address is what follows the first at sign.\<close>

datatype 'c connection = Absent | Dead | Alive 'c

definition MustConnect :: "(string \<Rightarrow> 'c option) \<Rightarrow> ('c \<Rightarrow> bool) \<Rightarrow> Config \<Rightarrow> 'c connection" where
  "MustConnect new ping cfg =
     (if DatabaseURL cfg = [] then Absent
      else (case new (DatabaseURL cfg) of None \<Rightarrow> Dead | Some c \<Rightarrow> if ping c then Alive c else Dead))"

definition MustRedis :: "(string \<Rightarrow> 'o option) \<Rightarrow> ('o \<Rightarrow> 'c) \<Rightarrow> ('c \<Rightarrow> bool) \<Rightarrow> Config \<Rightarrow> 'c connection" where
  "MustRedis parse new ping cfg =
     (if RedisURL cfg = [] then Absent
      else (case parse (RedisURL cfg) of None \<Rightarrow> Dead | Some opts \<Rightarrow> if ping (new opts) then Alive (new opts) else Dead))"

definition redactDSN :: "string \<Rightarrow> string" where
  "redactDSN dsn = (case str_index dsn ''@'' of
     Some i \<Rightarrow> if i > 0 then ''***@'' @ drop (i + 1) dsn else dsn
   | None \<Rightarrow> dsn)"

lemma str_cut_char: "c \<notin> set a \<Longrightarrow> str_cut [c] (a @ c # b) = Some (a, b)"
  by (induction a) (auto simp: has_prefix_def)

text \<open>The user part is hidden up to its first at sign.  A password that contains one is logged from there on.\<close>

lemma redactDSN_prefix: "CHR ''@'' \<notin> set u \<Longrightarrow> u \<noteq> [] \<Longrightarrow> redactDSN (u @ ''@'' @ rest) = ''***@'' @ rest"
  by (simp add: redactDSN_def str_index_def str_cut_char)

lemma redactDSN_leaks:
  assumes "CHR ''@'' \<notin> set u" "u \<noteq> []"
  shows "redactDSN (u @ ''@'' @ secret @ ''@'' @ host) = ''***@'' @ secret @ ''@'' @ host"
  using redactDSN_prefix [OF assms, of "secret @ ''@'' @ host"] by simp

section \<open>Surroundings\<close>

text \<open>Configuration, environment, the sources of key sets over time, the token library, the router library with the
  parameters of a matched pattern, the decoder of the tenant seed, and the decoder of request bodies (the
  inputs and the decision id; members that are missing or of another type keep their zero values).\<close>

record 'k site =
  st_cfg :: Config
  st_env :: environ
  st_keys :: "int \<Rightarrow> string \<Rightarrow> 'k option"
  st_parse :: "'k token_parser"
  st_chi :: chi
  st_param :: "string \<Rightarrow> string \<Rightarrow> string \<Rightarrow> string"
  st_seed :: "string \<Rightarrow> kvs list"
  st_body :: "string \<Rightarrow> gomap \<times> string"

definition provider :: "'k site \<Rightarrow> db option \<Rightarrow> string \<Rightarrow> string + Tenant" where
  "provider s pool =
     (case pool of Some d \<Rightarrow> pg_by_host d | None \<Rightarrow> mem_by_host (NewMemoryProviderFromEnv (st_seed s) (st_env s)))"

definition public_cors_headers :: "http_in \<Rightarrow> (string \<times> string) list" where
  "public_cors_headers r =
     (let origin = header_get (hi_headers r) ''Origin''
      in (if origin \<noteq> [] then [(''Access-Control-Allow-Origin'', origin), (''Vary'', ''Origin'')]
          else [(''Access-Control-Allow-Origin'', ''*'')])
         @ [(''Access-Control-Allow-Methods'', ''GET,POST,PUT,PATCH,DELETE,OPTIONS''),
            (''Access-Control-Allow-Headers'', ''Authorization, Content-Type, X-Tenant-ID''), (''Access-Control-Max-Age'', ''86400'')])"

definition public_cors :: "http_in \<Rightarrow> ctx \<Rightarrow> outcome" where
  "public_cors r c = (if hi_method r = ''OPTIONS'' then Halt 204 [] else Pass c)"

text \<open>The middlewares in front of every route of a public service; \<open>cors\<close> tells whether the service answers
  cross-origin requests.\<close>

definition guarded ::
  "'k site \<Rightarrow> bool \<Rightarrow> int \<Rightarrow> string \<Rightarrow> db option \<Rightarrow> 'k jwksCache \<Rightarrow> http_in \<Rightarrow> outcome \<times> 'k jwksCache" where
  "guarded s cors now rid pool cache r =
     (case mw_then (mw_then (snd (RequestID rid r no_ctx)) (\<lambda>c. if cors then public_cors r c else Pass c))
             (WithTenant (provider s pool) r) of
        Pass c \<Rightarrow> JWTAuth (st_cfg s) (st_keys s now) now (st_parse s) cache r c
      | o1 \<Rightarrow> (o1, cache))"

datatype reply =
    Plain int string
  | Preflighted preflight_response
  | Executed execute_response
  | Connected conn_response
  | Document kvs
  | Published Manifest
  | Down

text \<open>A request a middleware ended: its answer, or the answer of the recovery from a panic.\<close>

definition ended :: "outcome \<Rightarrow> reply" where
  "ended a = (case Recover a of Halt st m \<Rightarrow> Plain st m | Panic _ \<Rightarrow> Plain 500 [] | Pass _ \<Rightarrow> Plain 200 [])"

section \<open>The action endpoints\<close>

definition preflight_pattern :: string where "preflight_pattern = ''/v1/actions/{key}/preflight''"
definition execute_pattern :: string where "execute_pattern = ''/v1/actions/{key}/execute''"

definition serve_preflight ::
  "'k site \<Rightarrow> services \<Rightarrow> clock \<Rightarrow> int \<Rightarrow> string \<Rightarrow> db option \<Rightarrow> http_in \<Rightarrow> string \<Rightarrow> ctx \<Rightarrow> reply \<times> db option" where
  "serve_preflight s sv clk now fresh pool r body c =
     (case preflight (sv_rt sv) (sv_search sv) (sv_rego sv) clk now fresh pool (tID (TenantFrom c))
             (st_param s preflight_pattern (hi_path r) ''key'') (fst (st_body s body)) of
        (resp, pool') \<Rightarrow> (Preflighted resp, pool'))"

definition serve_execute ::
  "'k site \<Rightarrow> services \<Rightarrow> clock \<Rightarrow> int \<Rightarrow> db option \<Rightarrow> http_in \<Rightarrow> string \<Rightarrow> ctx \<Rightarrow> reply \<times> db option \<times> http_request list" where
  "serve_execute s sv clk now pool r body c =
     (case execute (sv_env sv) (sv_rt sv) (sv_search sv) (sv_net sv) clk now pool (tID (TenantFrom c))
             (st_param s execute_pattern (hi_path r) ''key'') (snd (st_body s body)) (fst (st_body s body)) of
        (resp, pool', sent) \<Rightarrow> (Executed resp, pool', sent))"

section \<open>The policy service\<close>

definition policy_routes :: "(string \<times> string) list" where
  "policy_routes = [(''GET'', ''/healthz''), (''POST'', preflight_pattern), (''POST'', execute_pattern), (''GET'', ''/metrics'')]"

definition policy_service ::
  "'k site \<Rightarrow> services \<Rightarrow> clock \<Rightarrow> int \<Rightarrow> string \<Rightarrow> string \<Rightarrow> db option \<Rightarrow> 'k jwksCache \<Rightarrow> http_in \<Rightarrow> string
     \<Rightarrow> reply \<times> db option \<times> 'k jwksCache \<times> http_request list" where
  "policy_service s sv clk now rid fresh pool cache r body =
     (case guarded s False now rid pool cache r of
        (Pass c, cache') \<Rightarrow>
          (case st_chi s policy_routes (hi_method r) (hi_path r) of
             RoutePanic \<Rightarrow> (Down, pool, cache', [])
           | NoRoute st \<Rightarrow> (Plain st [], pool, cache', [])
           | Route i \<Rightarrow>
               if i = 0 then (Plain 200 ''ok'', pool, cache', [])
               else if i = 1 then (case serve_preflight s sv clk now fresh pool r body c of (resp, pool') \<Rightarrow> (resp, pool', cache', []))
               else if i = 2 then (case serve_execute s sv clk now pool r body c of (resp, pool', sent) \<Rightarrow> (resp, pool', cache', sent))
               else (Plain 200 ''metrics'', pool, cache', []))
      | (o1, cache') \<Rightarrow> (ended o1, pool, cache', []))"

section \<open>The connector service\<close>

text \<open>The routes before the mounted operations; what none of them takes goes to the operations of the tenant.
  \<^verbatim>\<open>DynamicRouter\<close> registers the health check again, which replaces the first.\<close>

definition connector_routes :: "(string \<times> string) list" where
  "connector_routes = [(''GET'', ''/healthz''), (''GET'', ''/ping''), (''OPTIONS'', ''/.well-known/openapi.json''),
     (''GET'', ''/.well-known/openapi.json''), (''GET'', ''/metrics''), (''POST'', preflight_pattern), (''POST'', execute_pattern)]
     @ map (\<lambda>co. (co_Method co, co_Path co)) canonicalOps"

text \<open>The protected group authenticates once more.\<close>

definition protected ::
  "'k site \<Rightarrow> conn_env \<Rightarrow> services \<Rightarrow> clock \<Rightarrow> int \<Rightarrow> int \<Rightarrow> string \<Rightarrow> db option \<Rightarrow> byTenant \<Rightarrow> http_in \<Rightarrow> string \<Rightarrow> nat option \<Rightarrow> ctx
     \<Rightarrow> reply \<times> db option \<times> byTenant \<times> http_request list" where
  "protected s ce sv clk now dur fresh pool ops r body route c =
     (case route of
        None \<Rightarrow> (case dynamicOperationsRouter ce (st_chi s) now dur pool ops r body c of
                   (resp, pool', ops', sent) \<Rightarrow> (Connected resp, pool', ops', sent))
      | Some i \<Rightarrow>
          if i = 5 then (case serve_preflight s sv clk now fresh pool r body c of (resp, pool') \<Rightarrow> (resp, pool', ops, []))
          else if i = 6 then (case serve_execute s sv clk now pool r body c of (resp, pool', sent) \<Rightarrow> (resp, pool', ops, sent))
          else (case canonicalHandler ce now dur (canonicalOps ! (i - 7)) pool c of (resp, pool') \<Rightarrow> (Connected resp, pool', ops, [])))"

definition connector_open ::
  "int \<Rightarrow> db option \<Rightarrow> byTenant \<Rightarrow> nat \<Rightarrow> ctx \<Rightarrow> reply \<times> byTenant" where
  "connector_open now pool ops i c =
     (if i = 0 then (Plain 200 ''{\"ok\":true}'', ops)
      else if i = 1 then (Plain 200 ''pong'', ops)
      else if i = 2 then (Plain 204 [], ops)
      else if i = 3 then (case serveOpenAPI now pool ops c of (doc, ops') \<Rightarrow> (Document doc, ops'))
      else (Plain 200 ''metrics'', ops))"

definition connector_service ::
  "'k site \<Rightarrow> conn_env \<Rightarrow> services \<Rightarrow> clock \<Rightarrow> int \<Rightarrow> int \<Rightarrow> string \<Rightarrow> string \<Rightarrow> db option \<Rightarrow> 'k jwksCache \<Rightarrow> 'k jwksCache \<Rightarrow> byTenant
     \<Rightarrow> http_in \<Rightarrow> string \<Rightarrow> reply \<times> db option \<times> ('k jwksCache \<times> 'k jwksCache) \<times> byTenant \<times> http_request list" where
  "connector_service s ce sv clk now dur rid fresh pool cache gcache ops r body =
     (case guarded s True now rid pool cache r of
        (Pass c, cache') \<Rightarrow>
          (case st_chi s connector_routes (hi_method r) (hi_path r) of
             RoutePanic \<Rightarrow> (Down, pool, (cache', gcache), ops, [])
           | rt \<Rightarrow>
              let route = (case rt of Route i \<Rightarrow> Some i | _ \<Rightarrow> None) in
              if route \<noteq> None \<and> the route < 5
              then (case connector_open now pool ops (the route) c of (resp, ops') \<Rightarrow> (resp, pool, (cache', gcache), ops', []))
              else (case JWTAuth (st_cfg s) (st_keys s now) now (st_parse s) gcache r c of
                      (Pass c', gcache') \<Rightarrow>
                        (case protected s ce sv clk now dur fresh pool ops r body route c' of
                           (resp, pool', ops', sent) \<Rightarrow> (resp, pool', (cache', gcache'), ops', sent))
                    | (o1, gcache') \<Rightarrow> (ended o1, pool, (cache', gcache'), ops, [])))
      | (o1, cache') \<Rightarrow> (ended o1, pool, (cache', gcache), ops, []))"

section \<open>The manifest service\<close>

definition manifest_routes :: "(string \<times> string) list" where
  "manifest_routes = [(''GET'', ''/healthz''), (''GET'', ''/ping''), (''GET'', ''/metrics''),
     (''OPTIONS'', ''/.well-known/ai-actions''), (''GET'', ''/.well-known/ai-actions'')]"

definition manifest_service ::
  "'k site \<Rightarrow> int \<Rightarrow> string \<Rightarrow> db option \<Rightarrow> 'k jwksCache \<Rightarrow> byTenant \<Rightarrow> http_in
     \<Rightarrow> reply \<times> 'k jwksCache \<times> byTenant" where
  "manifest_service s now rid pool cache ops r =
     (case guarded s True now rid pool cache r of
        (Pass c, cache') \<Rightarrow>
          (case st_chi s manifest_routes (hi_method r) (hi_path r) of
             RoutePanic \<Rightarrow> (Down, cache', ops)
           | NoRoute st \<Rightarrow> (Plain st [], cache', ops)
           | Route i \<Rightarrow>
               if i = 0 then (Plain 200 ''ok'', cache', ops)
               else if i = 1 then (Plain 200 ''pong'', cache', ops)
               else if i = 2 then (Plain 200 ''metrics'', cache', ops)
               else if i = 3 then (Plain 204 [], cache', ops)
               else (case BuildManifest (st_env s) (st_cfg s) now (TenantFrom c) (Some (pool, ops)) of
                       (m, reg) \<Rightarrow> (Published m, cache', case reg of None \<Rightarrow> ops | Some (_, ops') \<Rightarrow> ops')))
      | (o1, cache') \<Rightarrow> (ended o1, cache', ops))"

section \<open>Callers\<close>

text \<open>What holds of the caller of a protected handler: the tenant is that of the host, and the token was verified against
  a key set its source served within the last six hours and is acceptable to the tenant.\<close>

definition caller_verified :: "'k site \<Rightarrow> int \<Rightarrow> http_in \<Rightarrow> ctx \<Rightarrow> bool" where
  "caller_verified s now r c \<longleftrightarrow> (\<exists>t raw ks jt scopes. cx_tenant c = Some t \<and> host_matches r t \<and> bearer r = Some raw
     \<and> fresh_value (st_keys s) jwksTTL now (jwks_of (st_cfg s) t) ks
     \<and> st_parse s (query_for (st_cfg s) t ks) raw = Some jt \<and> acceptable (st_cfg s) t jt scopes
     \<and> cx_scopes c = Some scopes \<and> cx_token c = Some jt)"

text \<open>What the code relies on of the token library: the issuer and the audience it asked for are those of the token.\<close>

definition parser_checks :: "'k token_parser \<Rightarrow> bool" where
  "parser_checks parse \<longleftrightarrow> (\<forall>q raw jt. parse q raw = Some jt \<longrightarrow> claim_str jt ''iss'' = tq_issuer q
     \<and> (\<forall>a. tq_audience q = Some a \<longrightarrow> a \<in> set (token_audience jt)))"

lemma provider_host:
  assumes "WithTenant (provider s pool) r c = Pass c'" "\<not> open_path (hi_path r)"
  shows "\<exists>t. cx_tenant c' = Some t \<and> host_matches r t"
proof (cases pool)
  case None
  then show ?thesis
    using mem.with_tenant_host [OF mem_ok_new _ assms(2)] assms(1) by (simp add: provider_def)
next
  case (Some d)
  then show ?thesis using pg.with_tenant_host [OF TrueI _ assms(2)] assms(1) by (simp add: provider_def)
qed

lemma JWTAuth_caller:
  assumes "fst (JWTAuth (st_cfg s) (st_keys s now) now (st_parse s) cache r c) = Pass c'"
    and "cx_tenant c = Some t" "host_matches r t" "Env (st_cfg s) \<noteq> ''dev''" "\<not> open_path (hi_path r)"
    and "\<not> has_prefix ''/.well-known/'' (hi_path r)" "tracks (st_keys s) (jwks_entry cache) now" "parser_checks (st_parse s)"
  shows "caller_verified s now r c'"
proof -
  have "TenantFrom c = t" using assms(2) by (simp add: TenantFrom_def)
  then show ?thesis
    using JWTAuth_token [OF assms(1,4-7)] assms(2,3,8) unfolding caller_verified_def parser_checks_def by auto
qed

text \<open>The middlewares pass a request only in one way.\<close>

lemma guarded_cases:
  assumes "guarded s cors now rid pool cache r = (Pass c, cache')"
  obtains c1 c2 where "WithTenant (provider s pool) r c1 = Pass c2"
    and "JWTAuth (st_cfg s) (st_keys s now) now (st_parse s) cache r c2 = (Pass c, cache')"
    and "cors \<Longrightarrow> hi_method r \<noteq> ''OPTIONS''"
  using assms
  by (auto simp: guarded_def mw_then_def RequestID_def public_cors_def Let_def split: outcome.splits if_splits)

lemma guarded_caller:
  assumes "guarded s cors now rid pool cache r = (Pass c, cache')"
    and "Env (st_cfg s) \<noteq> ''dev''" "\<not> open_path (hi_path r)" "\<not> has_prefix ''/.well-known/'' (hi_path r)"
    and "tracks (st_keys s) (jwks_entry cache) now" "parser_checks (st_parse s)"
  shows "caller_verified s now r c"
  using assms(1)
proof (rule guarded_cases)
  fix c1 c2
  assume w: "WithTenant (provider s pool) r c1 = Pass c2"
    and j: "JWTAuth (st_cfg s) (st_keys s now) now (st_parse s) cache r c2 = (Pass c, cache')"
  from provider_host [OF w assms(3)] obtain t where "cx_tenant c2 = Some t" "host_matches r t" by blast
  then show ?thesis using j by (intro JWTAuth_caller [OF _ _ _ assms(2-6)]) auto
qed

section \<open>The public services act for verified callers only\<close>

text \<open>The decision under which the service executes: stored for the caller's tenant, and authorising the action of the
  path with the inputs of the body and the facts at this moment.\<close>

definition decided ::
  "'k site \<Rightarrow> services \<Rightarrow> clock \<Rightarrow> int \<Rightarrow> db \<Rightarrow> http_in \<Rightarrow> string \<Rightarrow> string \<Rightarrow> bool" where
  "decided s sv clk now d r body tid \<longleftrightarrow>
     (let key = st_param s execute_pattern (hi_path r) ''key''; (inputs, did) = st_body s body
      in \<exists>row. select_decision d SelectDecisionBind tid did = Some row
         \<and> authorises (sv_rt sv) now row key inputs (fst (ResolveFacts (sv_rt sv) (sv_search sv) clk (Some d) tid key inputs)))"

lemma serve_execute_sent:
  assumes "serve_execute s sv clk now pool r body c = (resp, pool', sent)" "sent \<noteq> []"
  shows "\<exists>d. pool = Some d \<and> decided s sv clk now d r body (tID (TenantFrom c))"
proof -
  obtain resp1 where e: "execute (sv_env sv) (sv_rt sv) (sv_search sv) (sv_net sv) clk now pool (tID (TenantFrom c))
      (st_param s execute_pattern (hi_path r) ''key'') (snd (st_body s body)) (fst (st_body s body)) = (resp1, pool', sent)"
    using assms(1) by (auto simp: serve_execute_def split: prod.splits)
  show ?thesis
  proof (cases pool)
    case None
    then show ?thesis using e execute_no_db assms(2) by blast
  next
    case (Some d)
    then show ?thesis
      using execute_db [OF e [unfolded Some]] assms(2) by (auto simp: decided_def Let_def split: prod.splits)
  qed
qed

text \<open>What the code relies on of the router: a matched pattern is registered for the method, and its text up to the first
  parameter begins the path.\<close>

definition literal_part :: "string \<Rightarrow> string" where
  "literal_part p = takeWhile (\<lambda>c. c \<noteq> CHR ''{'' \<and> c \<noteq> CHR ''*'') p"

definition router_literal :: "chi \<Rightarrow> bool" where
  "router_literal chi \<longleftrightarrow> (\<forall>rs m p i. chi rs m p = Route i \<longrightarrow> i < length rs \<and> has_prefix (literal_part (snd (rs ! i))) p)"

lemma action_path_protected:
  assumes "has_prefix (literal_part execute_pattern) p"
  shows "\<not> open_path p" "\<not> has_prefix ''/.well-known/'' p"
proof -
  have "literal_part execute_pattern = ''/v1/actions/''" by code_simp
  with assms obtain q where p: "p = ''/v1/actions/'' @ q" unfolding has_prefix_def by (metis append_take_drop_id)
  show "\<not> open_path p" "\<not> has_prefix ''/.well-known/'' p" by (simp_all add: p open_path_def has_prefix_def)
qed


text \<open>The operation behind a request of the connector service: listed for the caller's tenant, with the method of the
  request and scopes the caller meets.\<close>

definition listed_operation ::
  "int \<Rightarrow> db option \<Rightarrow> byTenant \<Rightarrow> http_in \<Rightarrow> ctx \<Rightarrow> http_request \<Rightarrow> bool" where
  "listed_operation now pool ops r c rq \<longleftrightarrow> (\<exists>xs q b. fst (LoadOperations pool now ops (tID (TenantFrom c))) = Some xs \<and> q \<in> set xs
     \<and> HasAnyScope c (or_Scopes q) \<and> or_BaseURL q = Some b \<and> rq_url rq = trim_right ''/'' b @ or_Path q
     \<and> to_upper (or_Method q) = hi_method r \<and> rq_method rq = hi_method r)"

lemma protected_sent:
  assumes "protected s ce sv clk now dur fresh pool ops r body route c = (resp, pool', ops', sent)" "rq \<in> set sent"
    and "routes_registered (st_chi s)"
  shows "(\<exists>d. pool = Some d \<and> decided s sv clk now d r body (tID (TenantFrom c))) \<or> listed_operation now pool ops r c rq"
proof (cases route)
  case None
  then obtain resp1 where "dynamicOperationsRouter ce (st_chi s) now dur pool ops r body c = (resp1, pool', ops', sent)"
    using assms(1) by (auto simp: protected_def split: prod.splits)
  then show ?thesis using dynamic_sent [OF assms(3) _ assms(2)] by (simp add: listed_operation_def)
next
  case (Some i)
  have "sent \<noteq> []" using assms(2) by auto
  moreover have "\<exists>resp1 p. serve_execute s sv clk now pool r body c = (resp1, p, sent)"
    using assms(1,2) Some by (auto simp: protected_def split: prod.splits if_splits)
  ultimately show ?thesis using serve_execute_sent by blast
qed

lemma connector_service_protected:
  assumes "connector_service s ce sv clk now dur rid fresh pool cache gcache ops r body = (resp, pool', caches, ops', sent)" "sent \<noteq> []"
  obtains c c' cache' gcache' route resp1 p o1 where "guarded s True now rid pool cache r = (Pass c, cache')"
    and "JWTAuth (st_cfg s) (st_keys s now) now (st_parse s) gcache r c = (Pass c', gcache')"
    and "protected s ce sv clk now dur fresh pool ops r body route c' = (resp1, p, o1, sent)"
  using assms
  by (auto simp: connector_service_def Let_def split: prod.splits outcome.splits route.splits if_splits)


text \<open>C37: Operations below the well-known path need no token.  For a request to a path that begins with \<^verbatim>\<open>/.well-known/\<close> and
  that no route of the service takes, the operations of the tenant are served to a caller without any
  token: both authentications let the path pass.\<close>

theorem well_known_operations_unauthenticated:
  assumes "has_prefix ''/.well-known/'' (hi_path r)" "hi_method r \<noteq> ''OPTIONS''"
    and "first_tenant (provider s pool) (tryHosts (strip_port (hi_host r))) = Some t"
    and "st_chi s connector_routes (hi_method r) (hi_path r) = NoRoute st"
  shows "connector_service s ce sv clk now dur rid fresh pool cache gcache ops r body =
    (case dynamicOperationsRouter ce (st_chi s) now dur pool ops r body
            (no_ctx\<lparr> cx_reqid := fst (RequestID rid r no_ctx), cx_tenant := Some t \<rparr>) of
       (resp, pool', ops', sent) \<Rightarrow> (Connected resp, pool', (cache, gcache), ops', sent))"
proof -
  obtain q where q: "hi_path r = ''/.well-known/'' @ q" using assms(1) unfolding has_prefix_def by (metis append_take_drop_id)
  then have "\<not> open_path (hi_path r)" by (simp add: open_path_def)
  then show ?thesis
    using assms
    by (auto simp: connector_service_def guarded_def mw_then_def RequestID_def public_cors_def WithTenant_def JWTAuth_def protected_def Let_def
        split: prod.split)
qed

section \<open>A small instance\<close>

text \<open>A router that compares the text before the first and after the last parameter of a pattern, and the surroundings of
  a production site at which tenant \<open>t2\<close> executes the decision it was given.\<close>

definition literal_tail :: "string \<Rightarrow> string" where
  "literal_tail p = rev (takeWhile (\<lambda>c. c \<noteq> CHR ''}'') (rev p))"

definition site_matches :: "string \<Rightarrow> string \<Rightarrow> string \<times> string \<Rightarrow> bool" where
  "site_matches m p x \<longleftrightarrow> fst x = m \<and> has_prefix (literal_part (snd x)) p \<and> has_prefix (rev (literal_tail (snd x))) (rev p)"

definition site_router :: chi where
  "site_router rs m p = (let i = length (takeWhile (\<lambda>x. \<not> site_matches m p x) rs) in if i < length rs then Route i else NoRoute 404)"

definition demo_site :: "string site" where
  "demo_site = \<lparr> st_cfg = Load prod_env, st_env = prod_env, st_keys = demo_src, st_parse = demo_parse, st_chi = site_router,
     st_param = (\<lambda>_ _ _. ''shop.cancel''), st_seed = (\<lambda>_. []), st_body = (\<lambda>_. (demo_input, ''d1'')) \<rparr>"

definition execute_request :: http_in where
  "execute_request = demo_request\<lparr> hi_path := ''/v1/actions/shop.cancel/execute'' \<rparr>"

lemma site_router_route: "site_router rs m p = Route i \<Longrightarrow> i < length rs \<and> site_matches m p (rs ! i)"
  using nth_length_takeWhile [of "\<lambda>x. \<not> site_matches m p x" rs]
  by (auto simp: site_router_def Let_def split: if_splits)

lemma site_router_laws: "router_literal site_router" "routes_registered site_router"
  using site_router_route by (fastforce simp: router_literal_def routes_registered_def site_matches_def)+

lemma demo_parser_checks: "parser_checks demo_parse"
  by (auto simp: parser_checks_def demo_parse_def demo_claims_def claim_str_def token_audience_def split: if_splits)

definition site_tenant :: Tenant where
  "site_tenant = (case scan_tenant (demo_tenant_row\<lparr> tn_id := ''t2'' \<rparr>) of Inr t \<Rightarrow> t | Inl _ \<Rightarrow> zero_tenant)"

definition site_ctx :: ctx where
  "site_ctx = \<lparr> cx_tenant = Some site_tenant, cx_scopes = Some [''order:write''],
     cx_token = Some (demo_claims ''https://id.test''), cx_reqid = ''q1'' \<rparr>"

lemma site_auth: "JWTAuth (Load prod_env) (demo_src 0) 0 demo_parse [] execute_request
    (no_ctx\<lparr> cx_reqid := ''q1'', cx_tenant := Some site_tenant \<rparr>)
  = (Pass site_ctx, [(''https://id.test/jwks'', (''keys'', jwksTTL))])"
  by code_simp

lemma site_lookup: "pg_by_host approved_db ''acme.test'' = Inr site_tenant"
proof -
  have "tenants approved_db = [demo_tenant_row\<lparr> tn_id := ''t2'' \<rparr>]" "faults approved_db = (\<lambda>_. False)"
    by (simp_all add: approved_db_def add_decision_def)
  then show ?thesis by (simp add: pg_by_host_def pg_lookup_def site_tenant_def demo_tenant_row_def scan_tenant_def)
qed

lemma site_guarded: "guarded demo_site cors 0 ''q1'' (Some approved_db) [] execute_request
    = (Pass site_ctx, [(''https://id.test/jwks'', (''keys'', jwksTTL))])"
proof -
  have id: "header_get (hi_headers execute_request) ''X-Request-Id'' = []" by code_simp
  have host: "tryHosts (strip_port (hi_host execute_request)) = [''acme.test'']" by code_simp
  have path: "\<not> open_path (hi_path execute_request)" "hi_method execute_request \<noteq> ''OPTIONS''" by code_simp+
  have w: "WithTenant (pg_by_host approved_db) execute_request c = Pass (c\<lparr> cx_tenant := Some site_tenant \<rparr>)" for c
    using path by (simp add: WithTenant_def host site_lookup)
  show ?thesis
    using path by (simp add: guarded_def mw_then_def RequestID_def public_cors_def id demo_site_def provider_def w site_auth Let_def)
qed

lemma site_chi: "site_router policy_routes (hi_method execute_request) (hi_path execute_request) = Route 2"
  by code_simp

lemma site_serves:
  obtains resp d' where "serve_execute demo_site demo_sv clk0 0 (Some approved_db) execute_request body site_ctx
    = (Executed resp, Some d', [cancel_request])"
proof -
  have t: "tID (TenantFrom site_ctx) = ''t2''" by code_simp
  obtain resp d' where "execute (\<lambda>_. []) demo_rt demo_search demo_net clk0 0 (Some approved_db) ''t2'' ''shop.cancel'' ''d1'' demo_input
     = (resp, Some d', [cancel_request])" using demo_execute by blast
  then have "serve_execute demo_site demo_sv clk0 0 (Some approved_db) execute_request body site_ctx = (Executed resp, Some d', [cancel_request])"
    by (simp add: serve_execute_def demo_site_def demo_sv_def t)
  then show ?thesis by (rule that)
qed

lemma site_st_chi [simp]: "st_chi demo_site = site_router"
  by (simp add: demo_site_def)

lemma site_executes:
  "\<exists>resp pool'. policy_service demo_site demo_sv clk0 0 ''q1'' ''d2'' (Some approved_db) [] execute_request body
    = (resp, pool', [(''https://id.test/jwks'', (''keys'', jwksTTL))], [cancel_request])"
  by (rule site_serves [of body]) (simp add: policy_service_def site_guarded site_chi)

lemma site_laws:
  "Env (st_cfg demo_site) \<noteq> ''dev''" "router_literal (st_chi demo_site)" "routes_registered (st_chi demo_site)"
  "parser_checks (st_parse demo_site)" "tracks (st_keys demo_site) (jwks_entry []) 0"
  by (simp_all add: demo_site_def site_router_laws demo_parser_checks tracks_def jwks_entry_def Load_def env_or_def prod_env_def)


lemma site_connector_chi: "site_router connector_routes (hi_method execute_request) (hi_path execute_request) = Route 6"
  by code_simp

lemma site_connector_executes:
  "\<exists>resp pool' caches ops'. connector_service demo_site demo_conn_env demo_sv clk0 0 0 ''q1'' ''d2'' (Some approved_db) [] [] [] execute_request []
    = (resp, pool', caches, ops', [cancel_request])"
proof -
  have j: "JWTAuth (st_cfg demo_site) (st_keys demo_site 0) 0 (st_parse demo_site) [] execute_request site_ctx
      = (Pass site_ctx, [(''https://id.test/jwks'', (''keys'', jwksTTL))])"
    by code_simp
  show ?thesis
    by (rule site_serves [of "[]"]) (simp add: connector_service_def site_guarded site_connector_chi protected_def j)
qed


definition well_known_request :: http_in where
  "well_known_request = \<lparr> hi_method = ''GET'', hi_path = ''/.well-known/status'', hi_host = ''acme.test'', hi_headers = [] \<rparr>"

theorem well_known_operations_unauthenticated_witness:
  "connector_service demo_site demo_conn_env demo_sv clk0 0 0 ''q1'' ''d2'' (Some approved_db) [] [] [] well_known_request [] =
    (case dynamicOperationsRouter demo_conn_env site_router 0 0 (Some approved_db) [] well_known_request []
            (no_ctx\<lparr> cx_reqid := ''q1'', cx_tenant := Some site_tenant \<rparr>) of
       (resp, pool', ops', sent) \<Rightarrow> (Connected resp, pool', ([], []), ops', sent))"
proof -
  have p: "has_prefix ''/.well-known/'' (hi_path well_known_request)" "hi_method well_known_request \<noteq> ''OPTIONS''" by code_simp+
  have "tryHosts (strip_port (hi_host well_known_request)) = [''acme.test'']" by code_simp
  then have t: "first_tenant (provider demo_site (Some approved_db)) (tryHosts (strip_port (hi_host well_known_request))) = Some site_tenant"
    by (simp add: provider_def site_lookup)
  have c: "st_chi demo_site connector_routes (hi_method well_known_request) (hi_path well_known_request) = NoRoute 404" by code_simp
  have i: "fst (RequestID ''q1'' well_known_request no_ctx) = ''q1''" by code_simp
  show ?thesis
    using well_known_operations_unauthenticated [OF p t c, of demo_conn_env demo_sv clk0 0 0 "''q1''" "''d2''" "[]" "[]" "[]" "[]"]
    by (simp add: i)
qed

end
