(* ===== verification/Schema.thy ===== *)
theory Schema
  imports Store
begin

text \<open>
  The catalogue of the database and the statements that define tables: \<^verbatim>\<open>CREATE TABLE IF NOT EXISTS\<close>,
  \<^verbatim>\<open>ADD COLUMN IF NOT EXISTS\<close>, unique indexes and constraints, and the block that fills the legacy column of
  \<^verbatim>\<open>tenant_connectors\<close>.  A text of several statements is executed as one transaction.  Shown here: what
  an additive text has done stays done, executing it again changes nothing, and no stored value is lost.

  Roles, extensions, check constraints, foreign keys of existing rows and indexes that are not unique
  are left out; row level security is described in \<^theory_text>\<open>Store\<close>.
\<close>

section \<open>Tables\<close>

datatype sqltype = Uuid | Text | Texts | Boolean | Jsonb | Bytea | Integer4 | Bigserial | Timestamptz

datatype default_value = NoDefault | Const gval | Now | Generated

record column =
  cl_name :: string
  cl_type :: sqltype
  cl_not_null :: bool
  cl_default :: default_value

record unique_index =
  ix_name :: string
  ix_columns :: "string list"

type_synonym cells = "(string \<times> gval option) list"

record sql_table =
  tb_columns :: "column list"
  tb_key :: "string list"
  tb_uniques :: "unique_index list"
  tb_touch :: bool
  tb_rows :: "cells list"

text \<open>\<open>tb_touch\<close>: the table carries the trigger of the migrations that sets \<^verbatim>\<open>updated_at\<close> of every updated row.\<close>

type_synonym schema = "(string \<times> sql_table) list"

text \<open>What the server supplies for defaults: the time, and identifiers or numbers for the rows.\<close>

record server =
  sv_now :: gval
  sv_fresh :: "nat \<Rightarrow> gval"

definition cell :: "cells \<Rightarrow> string \<Rightarrow> gval option" where
  "cell r c = (case map_of r c of None \<Rightarrow> None | Some v \<Rightarrow> v)"

definition set_cell :: "string \<Rightarrow> gval option \<Rightarrow> cells \<Rightarrow> cells" where
  "set_cell c v r = (if cell r c = v then r else AList.update c v r)"

definition has_table :: "schema \<Rightarrow> string \<Rightarrow> bool" where
  "has_table s t \<longleftrightarrow> t \<in> set (map fst s)"

definition table_columns :: "schema \<Rightarrow> string \<Rightarrow> string list" where
  "table_columns s t = (case map_of s t of None \<Rightarrow> [] | Some tb \<Rightarrow> map cl_name (tb_columns tb))"

definition has_column :: "schema \<Rightarrow> string \<Rightarrow> string \<Rightarrow> bool" where
  "has_column s t c \<longleftrightarrow> c \<in> set (table_columns s t)"

definition table_rows :: "schema \<Rightarrow> string \<Rightarrow> cells list" where
  "table_rows s t = (case map_of s t of None \<Rightarrow> [] | Some tb \<Rightarrow> tb_rows tb)"

text \<open>Names of tables and indexes are one name space.\<close>

definition index_names :: "schema \<Rightarrow> string \<Rightarrow> string list" where
  "index_names s t = (case map_of s t of None \<Rightarrow> [] | Some tb \<Rightarrow> map ix_name (tb_uniques tb))"

definition relations :: "schema \<Rightarrow> string list" where
  "relations s = map fst s @ concat (map (index_names s) (map fst s))"

text \<open>Uniqueness does not regard rows with a NULL in one of the columns.\<close>

definition unique_holds :: "string list \<Rightarrow> cells list \<Rightarrow> bool" where
  "unique_holds cols rows = distinct (filter (\<lambda>vs. None \<notin> set vs) (map (\<lambda>r. map (cell r) cols) rows))"

definition rows_allowed :: "sql_table \<Rightarrow> cells list \<Rightarrow> bool" where
  "rows_allowed tb rows \<longleftrightarrow>
     list_all (\<lambda>c. \<not> cl_not_null c \<or> list_all (\<lambda>r. cell r (cl_name c) \<noteq> None) rows) (tb_columns tb)
     \<and> unique_holds (tb_key tb) rows
     \<and> list_all (\<lambda>ix. unique_holds (ix_columns ix) rows) (tb_uniques tb)"

section \<open>Definitions of tables\<close>

datatype ddl =
    CreateTable string "column list" "string list" "string list list" "string list"
  | AddColumn string column
  | CreateUniqueIndex string string "string list"
  | DropConstraint string string
  | AddUnique string string "string list"
  | TouchTrigger string
  | BackfillConnectorId

text \<open>\<open>CreateTable\<close> takes the columns, the primary key, the unique constraints and the tables referred to.
  A constraint without a name gets the name PostgreSQL makes for it.\<close>

definition auto_name :: "string \<Rightarrow> string list \<Rightarrow> string" where
  "auto_name t cols = t @ concat (map (\<lambda>c. ''_'' @ c) cols) @ ''_key''"

definition new_table :: "string \<Rightarrow> column list \<Rightarrow> string list \<Rightarrow> string list list \<Rightarrow> sql_table" where
  "new_table t cols key uniques =
     \<lparr> tb_columns = map (\<lambda>c. if cl_name c \<in> set key then c\<lparr> cl_not_null := True \<rparr> else c) cols, tb_key = key,
       tb_uniques = map (\<lambda>u. \<lparr> ix_name = auto_name t u, ix_columns = u \<rparr>) uniques, tb_touch = False, tb_rows = [] \<rparr>"

text \<open>\<^verbatim>\<open>ADD COLUMN\<close> gives the default to the rows there are.\<close>

definition default_cell :: "server \<Rightarrow> default_value \<Rightarrow> nat \<Rightarrow> gval option" where
  "default_cell sv dv i = (case dv of NoDefault \<Rightarrow> None | Const v \<Rightarrow> Some v | Now \<Rightarrow> Some (sv_now sv) | Generated \<Rightarrow> Some (sv_fresh sv i))"

fun add_cells :: "server \<Rightarrow> column \<Rightarrow> nat \<Rightarrow> cells list \<Rightarrow> cells list" where
  "add_cells sv c i [] = []"
| "add_cells sv c i (r # rs) = (r @ [(cl_name c, default_cell sv (cl_default c) i)]) # add_cells sv c (Suc i) rs"

definition add_column :: "server \<Rightarrow> column \<Rightarrow> sql_table \<Rightarrow> sql_table option" where
  "add_column sv c tb =
     (if cl_name c \<in> set (map cl_name (tb_columns tb)) then Some tb
      else if cl_not_null c \<and> cl_default c = NoDefault \<and> tb_rows tb \<noteq> [] then None
      else Some (tb\<lparr> tb_columns := tb_columns tb @ [c], tb_rows := add_cells sv c 0 (tb_rows tb) \<rparr>))"

definition add_unique :: "string \<Rightarrow> string list \<Rightarrow> sql_table \<Rightarrow> sql_table option" where
  "add_unique n cols tb =
     (if set cols \<subseteq> set (map cl_name (tb_columns tb)) \<and> unique_holds cols (tb_rows tb)
      then Some (tb\<lparr> tb_uniques := tb_uniques tb @ [\<lparr> ix_name = n, ix_columns = cols \<rparr>] \<rparr>) else None)"

text \<open>The legacy column: where \<^verbatim>\<open>tenant_connectors\<close> still has a column \<^verbatim>\<open>kind\<close>, it may be NULL unless it is part of
  the key, and each of the two columns is filled from the other where it is NULL.\<close>

definition fill_row :: "server \<Rightarrow> bool \<Rightarrow> (cells \<Rightarrow> bool) \<Rightarrow> string \<Rightarrow> string \<Rightarrow> cells \<Rightarrow> cells" where
  "fill_row sv touch cond c other r =
     (if \<not> cond r then r
      else if touch then set_cell ''updated_at'' (Some (sv_now sv)) (set_cell c (cell r other) r)
      else set_cell c (cell r other) r)"

definition fill_rows :: "server \<Rightarrow> (cells \<Rightarrow> bool) \<Rightarrow> string \<Rightarrow> string \<Rightarrow> sql_table \<Rightarrow> sql_table option" where
  "fill_rows sv cond c other tb =
     (let rows = map (fill_row sv (tb_touch tb) cond c other) (tb_rows tb) in
      if tb_touch tb \<and> ''updated_at'' \<notin> set (map cl_name (tb_columns tb)) \<and> list_ex cond (tb_rows tb) then None
      else if rows = tb_rows tb \<or> rows_allowed tb rows then Some (tb\<lparr> tb_rows := rows \<rparr>) else None)"

definition lacks_id :: "cells \<Rightarrow> bool" where "lacks_id r \<longleftrightarrow> cell r ''connector_id'' = None"

definition lacks_kind :: "cells \<Rightarrow> bool" where
  "lacks_kind r \<longleftrightarrow> cell r ''kind'' = None \<and> cell r ''connector_id'' \<noteq> None"

definition drop_not_null :: "string \<Rightarrow> sql_table \<Rightarrow> sql_table" where
  "drop_not_null n tb = tb\<lparr> tb_columns := map (\<lambda>c. if cl_name c = n then c\<lparr> cl_not_null := False \<rparr> else c) (tb_columns tb) \<rparr>"

definition backfill :: "server \<Rightarrow> sql_table \<Rightarrow> sql_table option" where
  "backfill sv tb =
     (if ''kind'' \<notin> set (map cl_name (tb_columns tb)) then Some tb
      else if ''connector_id'' \<notin> set (map cl_name (tb_columns tb)) then None
      else Option.bind
             (fill_rows sv lacks_id ''connector_id'' ''kind''
                (if ''kind'' \<in> set (tb_key tb) then tb else drop_not_null ''kind'' tb))
             (fill_rows sv lacks_kind ''kind'' ''connector_id''))"

definition alter :: "string \<Rightarrow> (sql_table \<Rightarrow> sql_table option) \<Rightarrow> schema \<Rightarrow> schema option" where
  "alter t f s = (case map_of s t of None \<Rightarrow> None | Some tb \<Rightarrow> map_option (\<lambda>tb'. AList.update t tb' s) (f tb))"

fun exec_ddl :: "server \<Rightarrow> ddl \<Rightarrow> schema \<Rightarrow> schema option" where
  "exec_ddl sv (CreateTable t cols key uniques refs) s =
     (if has_table s t then Some s
      else if list_all (has_table s) refs then Some (s @ [(t, new_table t cols key uniques)]) else None)"
| "exec_ddl sv (AddColumn t c) s = alter t (add_column sv c) s"
| "exec_ddl sv (CreateUniqueIndex n t cols) s = (if n \<in> set (relations s) then Some s else alter t (add_unique n cols) s)"
| "exec_ddl sv (DropConstraint t n) s =
     alter t (\<lambda>tb. Some (tb\<lparr> tb_uniques := filter (\<lambda>ix. ix_name ix \<noteq> n) (tb_uniques tb) \<rparr>)) s"
| "exec_ddl sv (AddUnique t n cols) s =
     alter t (\<lambda>tb. if n \<in> set (map ix_name (tb_uniques tb)) then Some tb else add_unique n cols tb) s"
| "exec_ddl sv (TouchTrigger t) s = alter t (\<lambda>tb. Some (tb\<lparr> tb_touch := True \<rparr>)) s"
| "exec_ddl sv BackfillConnectorId s =
     (if has_table s ''tenant_connectors'' then alter ''tenant_connectors'' (backfill sv) s else Some s)"

fun exec_all :: "server \<Rightarrow> ddl list \<Rightarrow> schema \<Rightarrow> schema option" where
  "exec_all sv [] s = Some s"
| "exec_all sv (x # xs) s = (case exec_ddl sv x s of None \<Rightarrow> None | Some s' \<Rightarrow> exec_all sv xs s')"

text \<open>A call of \<^verbatim>\<open>Exec\<close> without arguments sends its text in one message, which the server runs as one transaction.\<close>

definition exec_batch :: "server \<Rightarrow> ddl list \<Rightarrow> schema \<Rightarrow> bool \<times> schema" where
  "exec_batch sv xs s = (case exec_all sv xs s of None \<Rightarrow> (False, s) | Some s' \<Rightarrow> (True, s'))"


section \<open>Repeated execution\<close>

lemma update_same: "map_of s t = Some tb \<Longrightarrow> AList.update t tb s = s"
  by (induction s) (auto split: if_splits)

lemma cell_set [simp]: "cell (set_cell c v r) c' = (if c' = c then v else cell r c')"
  by (simp add: set_cell_def cell_def update_conv')

lemma cell_fill:
  "c' \<noteq> ''updated_at'' \<Longrightarrow>
     cell (fill_row sv touch cond c other r) c' = (if c' = c \<and> cond r then cell r other else cell r c')"
  by (simp add: fill_row_def)

lemma alter_Some:
  "alter t f s = Some s' \<longleftrightarrow> (\<exists>tb tb'. map_of s t = Some tb \<and> f tb = Some tb' \<and> s' = AList.update t tb' s)"
  by (auto simp: alter_def split: option.splits)

lemma alter_same: "map_of s t = Some tb \<Longrightarrow> f tb = Some tb \<Longrightarrow> alter t f s = Some s"
  by (simp add: alter_def update_same)

lemma map_of_update: "map_of (AList.update t tb s) t' = (if t' = t then Some tb else map_of s t')"
  by (simp add: update_conv')

lemma has_table_map_of: "has_table s t \<longleftrightarrow> map_of s t \<noteq> None"
  by (simp add: has_table_def map_of_eq_None_iff)

lemma has_column_map_of: "has_column s t c \<longleftrightarrow> (\<exists>tb. map_of s t = Some tb \<and> c \<in> set (map cl_name (tb_columns tb)))"
  by (cases "map_of s t") (simp_all add: has_column_def table_columns_def)

lemma relation_iff:
  "n \<in> set (relations s) \<longleftrightarrow> has_table s n \<or> (\<exists>t tb. map_of s t = Some tb \<and> n \<in> ix_name ` set (tb_uniques tb))"
proof -
  have "n \<in> set (index_names s t) \<longleftrightarrow> (\<exists>tb. map_of s t = Some tb \<and> n \<in> ix_name ` set (tb_uniques tb))" for t
    by (cases "map_of s t") (simp_all add: index_names_def)
  moreover have "n \<in> set (relations s) \<longleftrightarrow> has_table s n \<or> (\<exists>t\<in>set (map fst s). n \<in> set (index_names s t))"
    by (simp add: relations_def has_table_def)
  moreover have "t \<in> set (map fst s)" if "map_of s t = Some tb" for t tb
    using that by (metis has_table_def has_table_map_of option.distinct(1))
  ultimately show ?thesis by metis
qed

text \<open>Nothing an additive statement does to a table removes a column or a unique index.\<close>

definition grows :: "sql_table \<Rightarrow> sql_table \<Rightarrow> bool" where
  "grows tb tb' \<longleftrightarrow> set (map cl_name (tb_columns tb)) \<subseteq> set (map cl_name (tb_columns tb'))
     \<and> set (tb_uniques tb) \<subseteq> set (tb_uniques tb') \<and> tb_key tb' = tb_key tb"

lemma grows_refl [simp]: "grows tb tb" by (simp add: grows_def)

lemma add_column_grows: "add_column sv c tb = Some tb' \<Longrightarrow> grows tb tb'"
  by (auto simp: add_column_def grows_def split: if_splits)

lemma add_unique_grows: "add_unique n cols tb = Some tb' \<Longrightarrow> grows tb tb'"
  by (auto simp: add_unique_def grows_def split: if_splits)

lemma fill_rows_cases:
  "fill_rows sv cond c other tb = Some tb' \<Longrightarrow> tb' = tb\<lparr> tb_rows := map (fill_row sv (tb_touch tb) cond c other) (tb_rows tb) \<rparr>"
  by (auto simp: fill_rows_def Let_def split: if_splits)

definition backfill_row :: "server \<Rightarrow> bool \<Rightarrow> cells \<Rightarrow> cells" where
  "backfill_row sv touch r =
     fill_row sv touch lacks_kind ''kind'' ''connector_id'' (fill_row sv touch lacks_id ''connector_id'' ''kind'' r)"

lemma backfill_cases:
  assumes "backfill sv tb = Some tb'"
  obtains "''kind'' \<notin> set (map cl_name (tb_columns tb))" "tb' = tb"
  | "''kind'' \<in> set (map cl_name (tb_columns tb))" "''connector_id'' \<in> set (map cl_name (tb_columns tb))"
    "tb' = (if ''kind'' \<in> set (tb_key tb) then tb else drop_not_null ''kind'' tb)
       \<lparr> tb_rows := map (backfill_row sv (tb_touch tb)) (tb_rows tb) \<rparr>"
  using assms
  by (auto simp: backfill_def bind_eq_Some_conv drop_not_null_def backfill_row_def comp_def dest!: fill_rows_cases split: if_splits)

lemma backfill_row_cells:
  "cell (backfill_row sv touch r) ''kind'' = (if cell r ''kind'' = None then cell r ''connector_id'' else cell r ''kind'')"
  "cell (backfill_row sv touch r) ''connector_id'' = (if cell r ''connector_id'' = None then cell r ''kind'' else cell r ''connector_id'')"
  by (simp_all add: backfill_row_def cell_fill lacks_kind_def lacks_id_def)

lemma backfill_row_keeps: "c \<noteq> ''updated_at'' \<Longrightarrow> cell r c \<noteq> None \<Longrightarrow> cell (backfill_row sv touch r) c = cell r c"
  by (auto simp: backfill_row_def cell_fill lacks_kind_def lacks_id_def)

lemma drop_not_null_names: "map cl_name (tb_columns (drop_not_null n tb)) = map cl_name (tb_columns tb)"
  by (simp add: drop_not_null_def)

lemma backfill_names:
  assumes "backfill sv tb = Some tb'"
  shows "map cl_name (tb_columns tb') = map cl_name (tb_columns tb)" "tb_uniques tb' = tb_uniques tb" "tb_key tb' = tb_key tb"
  using assms by (cases rule: backfill_cases; simp add: drop_not_null_names; simp add: drop_not_null_def)+

lemma backfill_grows: "backfill sv tb = Some tb' \<Longrightarrow> grows tb tb'"
  by (simp only: grows_def backfill_names order_refl simp_thms)

lemmas grow_rules = add_column_grows add_unique_grows backfill_grows

text \<open>The statements of the processes are additive; only the migrations drop a constraint or create a trigger.\<close>

fun additive :: "ddl \<Rightarrow> bool" where
  "additive (DropConstraint t n) = False"
| "additive (AddUnique t n cols) = False"
| "additive (TouchTrigger t) = False"
| "additive _ = True"

definition schema_grows :: "schema \<Rightarrow> schema \<Rightarrow> bool" where
  "schema_grows s s' \<longleftrightarrow> (\<forall>t tb. map_of s t = Some tb \<longrightarrow> (\<exists>tb'. map_of s' t = Some tb' \<and> grows tb tb'))"

lemma schema_grows_alter:
  assumes "alter t f s = Some s'" "\<And>tb tb'. f tb = Some tb' \<Longrightarrow> grows tb tb'"
  shows "schema_grows s s'"
  using assms by (auto simp: alter_Some schema_grows_def map_of_update)

lemma schema_grows_append: "\<not> has_table s t \<Longrightarrow> schema_grows s (s @ [(t, tb)])"
  by (auto simp: schema_grows_def map_add_def)

lemma schema_grows_refl [simp]: "schema_grows s s" by (simp add: schema_grows_def)

lemma exec_ddl_grows:
  assumes "exec_ddl sv x s = Some s'" "additive x"
  shows "schema_grows s s'"
  using assms
  by (cases x) (auto split: if_splits intro: schema_grows_append schema_grows_alter dest: grow_rules)

lemma schema_grows_columns: "schema_grows s s' \<Longrightarrow> has_table s t \<Longrightarrow> has_table s' t"
  "schema_grows s s' \<Longrightarrow> has_column s t c \<Longrightarrow> has_column s' t c"
  by (force simp: schema_grows_def has_table_map_of has_column_map_of grows_def)+


lemma schema_grows_relations: "schema_grows s s' \<Longrightarrow> n \<in> set (relations s) \<Longrightarrow> n \<in> set (relations s')"
  unfolding relation_iff by (force simp: schema_grows_def has_table_map_of grows_def)

text \<open>What a statement has done when it has nothing left to do.\<close>

definition backfilled :: "sql_table \<Rightarrow> bool" where
  "backfilled tb \<longleftrightarrow> ''kind'' \<in> set (map cl_name (tb_columns tb)) \<longrightarrow>
     ''connector_id'' \<in> set (map cl_name (tb_columns tb))
     \<and> (''kind'' \<in> set (tb_key tb) \<or> (\<forall>c\<in>set (tb_columns tb). cl_name c = ''kind'' \<longrightarrow> \<not> cl_not_null c))
     \<and> (\<forall>r\<in>set (tb_rows tb). (cell r ''connector_id'' = None) = (cell r ''kind'' = None))"

fun settled :: "ddl \<Rightarrow> schema \<Rightarrow> bool" where
  "settled (CreateTable t cols key uniques refs) s = has_table s t"
| "settled (AddColumn t c) s = has_column s t (cl_name c)"
| "settled (CreateUniqueIndex n t cols) s = (n \<in> set (relations s))"
| "settled BackfillConnectorId s = (\<forall>tb. map_of s ''tenant_connectors'' = Some tb \<longrightarrow> backfilled tb)"
| "settled _ s = False"

lemma drop_not_null_id: "(\<forall>c\<in>set (tb_columns tb). cl_name c = n \<longrightarrow> \<not> cl_not_null c) \<Longrightarrow> drop_not_null n tb = tb"
proof -
  assume "\<forall>c\<in>set (tb_columns tb). cl_name c = n \<longrightarrow> \<not> cl_not_null c"
  then have "map (\<lambda>c. if cl_name c = n then c\<lparr> cl_not_null := False \<rparr> else c) (tb_columns tb) = tb_columns tb"
    by (intro map_idI) auto
  then show ?thesis by (simp add: drop_not_null_def)
qed

text \<open>Where the trigger meets rows that name neither, the two updates touch these rows each time; a table without the trigger,
  without the legacy column or with a kind in every row is calm.\<close>

definition calm_table :: "sql_table \<Rightarrow> bool" where
  "calm_table tb \<longleftrightarrow> tb_touch tb \<longrightarrow> ''kind'' \<in> set (map cl_name (tb_columns tb)) \<longrightarrow> list_all (\<lambda>r. cell r ''kind'' \<noteq> None) (tb_rows tb)"

definition calm :: "schema \<Rightarrow> bool" where
  "calm s \<longleftrightarrow> (case map_of s ''tenant_connectors'' of None \<Rightarrow> True | Some tb \<Rightarrow> calm_table tb)"

lemma fill_row_id: "\<not> cond r \<or> \<not> touch \<and> cell r c = cell r other \<Longrightarrow> fill_row sv touch cond c other r = r"
  by (auto simp: fill_row_def set_cell_def)

lemma fill_rows_id:
  assumes "\<And>r. r \<in> set (tb_rows tb) \<Longrightarrow> \<not> cond r \<or> \<not> tb_touch tb \<and> cell r c = cell r other"
  shows "fill_rows sv cond c other tb = Some tb"
proof -
  have "map (fill_row sv (tb_touch tb) cond c other) (tb_rows tb) = tb_rows tb"
    using assms by (intro map_idI fill_row_id) auto
  then show ?thesis using assms by (auto simp: fill_rows_def Let_def list_ex_iff)
qed

lemma backfilled_id:
  assumes "backfilled tb" "calm_table tb"
  shows "backfill sv tb = Some tb"
proof (cases "''kind'' \<in> set (map cl_name (tb_columns tb))")
  case True
  then have "(if ''kind'' \<in> set (tb_key tb) then tb else drop_not_null ''kind'' tb) = tb"
    using assms(1) by (auto simp: backfilled_def drop_not_null_id)
  moreover have "fill_rows sv lacks_id ''connector_id'' ''kind'' tb = Some tb"
    "fill_rows sv lacks_kind ''kind'' ''connector_id'' tb = Some tb"
    using assms True
    by (auto simp: backfilled_def calm_table_def list_all_iff lacks_id_def lacks_kind_def intro!: fill_rows_id)
  ultimately show ?thesis using True assms(1) by (simp add: backfill_def backfilled_def)
qed (simp add: backfill_def)

lemma backfill_backfilled:
  assumes "backfill sv tb = Some tb'"
  shows "backfilled tb'"
  using assms
proof (cases rule: backfill_cases)
  case 2
  have names: "map cl_name (tb_columns tb') = map cl_name (tb_columns tb)" "tb_key tb' = tb_key tb"
    using backfill_names [OF assms] by simp_all
  show ?thesis unfolding backfilled_def names
    using 2 by (auto simp: backfill_row_cells drop_not_null_def)
qed (simp add: backfilled_def)

lemma settled_exec: "settled x s \<Longrightarrow> calm s \<Longrightarrow> exec_ddl sv x s = Some s"
  by (cases x)
    (auto simp: has_column_map_of has_table_map_of alter_same add_column_def backfilled_id calm_def intro: alter_same)

lemma exec_settles:
  assumes "exec_ddl sv x s = Some s'" "additive x"
  shows "settled x s'"
proof (cases x)
  case (CreateTable t cols key uniques refs)
  with assms show ?thesis by (auto simp: has_table_def split: if_splits)
next
  case (AddColumn t c)
  then obtain tb tb' where tb: "add_column sv c tb = Some tb'" "s' = AList.update t tb' s"
    using assms by (auto simp: alter_Some)
  then have "cl_name c \<in> set (map cl_name (tb_columns tb'))" by (auto simp: add_column_def split: if_splits)
  then show ?thesis using AddColumn tb(2) by (simp add: has_column_map_of map_of_update)
next
  case (CreateUniqueIndex n t cols)
  with assms show ?thesis
    by (auto simp: alter_Some relation_iff map_of_update add_unique_def split: if_splits)
next
  case BackfillConnectorId
  with assms show ?thesis
    by (auto simp: alter_Some map_of_update has_table_map_of backfill_backfilled split: if_splits)
qed (use assms in auto)

text \<open>What is done stays done, unless the legacy column itself is added after it has been filled.\<close>

fun adds_kind :: "ddl \<Rightarrow> bool" where
  "adds_kind (CreateTable t cols key uniques refs) = (t = ''tenant_connectors'' \<and> ''kind'' \<in> set (map cl_name cols))"
| "adds_kind (AddColumn t c) = (t = ''tenant_connectors'' \<and> cl_name c = ''kind'')"
| "adds_kind _ = False"

definition keeps :: "ddl \<Rightarrow> ddl \<Rightarrow> bool" where
  "keeps x y \<longleftrightarrow> additive y \<and> (x = BackfillConnectorId \<longrightarrow> \<not> adds_kind y)"

lemma cell_append: "c \<noteq> n \<Longrightarrow> cell (r @ [(n, v)]) c = cell r c"
  by (simp add: cell_def map_add_def split: option.splits)

lemma add_cells_elem: "r' \<in> set (add_cells sv k i rows) \<Longrightarrow> \<exists>r\<in>set rows. \<exists>v. r' = r @ [(cl_name k, v)]"
  by (induction rows arbitrary: i) auto

lemma add_cells_other:
  "cl_name k \<notin> set cols \<Longrightarrow> map (\<lambda>r. map (cell r) cols) (add_cells sv k i rows) = map (\<lambda>r. map (cell r) cols) rows"
  by (induction rows arbitrary: i) (auto intro: cell_append)

lemma backfilled_add_column:
  assumes "backfilled tb" "add_column sv c tb = Some tb'" "cl_name c \<noteq> ''kind''"
  shows "backfilled tb'"
proof (cases "cl_name c \<in> set (map cl_name (tb_columns tb))")
  case False
  then have tb': "tb' = tb\<lparr> tb_columns := tb_columns tb @ [c], tb_rows := add_cells sv c 0 (tb_rows tb) \<rparr>"
    using assms(2) by (auto simp: add_column_def split: if_splits)
  show ?thesis
  proof (cases "''kind'' \<in> set (map cl_name (tb_columns tb))")
    case True
    then have c: "''connector_id'' \<noteq> cl_name c" using assms(1) False by (auto simp: backfilled_def)
    have "\<forall>r\<in>set (add_cells sv c 0 (tb_rows tb)). (cell r ''connector_id'' = None) = (cell r ''kind'' = None)"
      using assms(1) True c not_sym [OF assms(3)]
      by (auto simp: backfilled_def cell_append dest!: add_cells_elem)
    then show ?thesis using assms(1,3) True unfolding tb' by (auto simp: backfilled_def)
  qed (use assms(3) in \<open>auto simp: backfilled_def tb'\<close>)
qed (use assms(1,2) in \<open>auto simp: add_column_def\<close>)

lemma settled_kept:
  assumes "settled x s" "exec_ddl sv y s = Some s'" "keeps x y"
  shows "settled x s'"
proof -
  have grow: "schema_grows s s'" using assms(2,3) by (auto simp: keeps_def intro: exec_ddl_grows)
  show ?thesis
  proof (cases x)
    case BackfillConnectorId
    show ?thesis
    proof (cases y)
      case (CreateTable t cols key uniques refs)
      then show ?thesis using assms BackfillConnectorId
        by (auto simp: keeps_def backfilled_def new_table_def map_add_def has_table_map_of split: if_splits option.splits)
    next
      case (AddColumn t c)
      then show ?thesis using assms BackfillConnectorId
        by (auto simp: alter_Some map_of_update keeps_def intro: backfilled_add_column split: if_splits)
    next
      case (CreateUniqueIndex n t cols)
      then show ?thesis using assms BackfillConnectorId
        by (auto simp: alter_Some map_of_update add_unique_def backfilled_def split: if_splits)
    next
      case BackfillConnectorId: BackfillConnectorId
      then show ?thesis using assms \<open>x = BackfillConnectorId\<close>
        by (auto simp: alter_Some map_of_update backfill_backfilled split: if_splits)
    qed (use assms in \<open>auto simp: keeps_def\<close>)
  next
    case (CreateTable t cols key uniques refs)
    then show ?thesis using assms(1) schema_grows_columns(1) [OF grow] by simp
  next
    case (AddColumn t c)
    then show ?thesis using assms(1) schema_grows_columns(2) [OF grow] by simp
  next
    case (CreateUniqueIndex n t cols)
    then show ?thesis using assms(1) schema_grows_relations [OF grow] by simp
  qed (use assms in auto)
qed

lemma calm_kept:
  assumes "calm s" "exec_ddl sv x s = Some s'" "additive x" "\<not> adds_kind x"
  shows "calm s'"
proof (cases x)
  case (CreateTable t cols key uniques refs)
  then show ?thesis using assms
    by (auto simp: calm_def calm_table_def new_table_def map_add_def has_table_map_of split: if_splits option.splits)
next
  case (AddColumn t c)
  have "calm_table tb'" if "calm_table tb" "add_column sv c tb = Some tb'" "cl_name c \<noteq> ''kind''" for tb tb'
    using that not_sym [OF that(3)]
    by (auto simp: add_column_def calm_table_def list_all_iff cell_append dest!: add_cells_elem split: if_splits)
  then show ?thesis using AddColumn assms by (auto simp: calm_def alter_Some map_of_update split: option.splits)
next
  case (CreateUniqueIndex n t cols)
  then show ?thesis using assms
    by (auto simp: calm_def calm_table_def alter_Some map_of_update add_unique_def split: if_splits option.splits)
next
  case BackfillConnectorId
  have "calm_table tb'" if "calm_table tb" "backfill sv tb = Some tb'" for tb tb'
    using that(2)
  proof (cases rule: backfill_cases)
    case 2
    have "tb_touch tb' = tb_touch tb" using 2 by (simp add: drop_not_null_def)
    then show ?thesis using 2 that backfill_names(1) [OF that(2)] unfolding calm_table_def
      by (auto simp: list_all_iff backfill_row_cells)
  qed (use that in simp)
  then show ?thesis using BackfillConnectorId assms
    by (auto simp: calm_def alter_Some map_of_update split: if_splits option.splits)
qed (use assms in auto)

lemma settled_kept_all:
  assumes "settled x s" "exec_all sv ys s = Some s'" "list_all (keeps x) ys"
  shows "settled x s'"
  using assms by (induction ys arbitrary: s) (auto split: option.splits dest: settled_kept)

lemma exec_all_settles:
  assumes "exec_all sv xs s = Some s'" "list_all additive xs" "sorted_wrt keeps xs" "x \<in> set xs"
  shows "settled x s'"
  using assms
proof (induction xs arbitrary: s)
  case (Cons y ys)
  then obtain s1 where "exec_ddl sv y s = Some s1" "exec_all sv ys s1 = Some s'"
    by (auto split: option.splits)
  then show ?case
    using Cons.IH [of s1] Cons.prems settled_kept_all [OF exec_settles, of sv y s s1 sv ys s']
    by (auto simp: list_all_iff)
qed simp

lemma exec_all_id: "(\<And>x. x \<in> set xs \<Longrightarrow> settled x s) \<Longrightarrow> calm s \<Longrightarrow> exec_all sv xs s = Some s"
  by (induction xs) (simp_all add: settled_exec)

text \<open>Texts that may be executed again.\<close>

definition repeatable :: "ddl list \<Rightarrow> bool" where
  "repeatable xs \<longleftrightarrow> list_all (\<lambda>x. additive x \<and> \<not> adds_kind x) xs"

lemma repeatable_keeps: "repeatable xs \<Longrightarrow> y \<in> set xs \<Longrightarrow> keeps x y"
  by (auto simp: repeatable_def list_all_iff keeps_def)

lemma repeatable_settles:
  assumes "repeatable xs" "exec_all sv xs s = Some s'" "x \<in> set xs"
  shows "settled x s'"
proof (rule exec_all_settles [OF assms(2) _ _ assms(3)])
  show "list_all additive xs" "sorted_wrt keeps xs"
    using assms(1) repeatable_keeps [OF assms(1)]
    by (auto simp: repeatable_def list_all_iff sorted_wrt_iff_nth_less)
qed

definition done_with :: "ddl list \<Rightarrow> schema \<Rightarrow> bool" where
  "done_with xs s \<longleftrightarrow> (\<forall>x\<in>set xs. settled x s)"

lemma batch_done: "repeatable xs \<Longrightarrow> exec_batch sv xs s = (True, s') \<Longrightarrow> done_with xs s'"
  by (auto simp: exec_batch_def done_with_def dest: repeatable_settles split: option.splits)

lemma batch_calm: "repeatable xs \<Longrightarrow> calm s \<Longrightarrow> calm (snd (exec_batch sv xs s))"
proof -
  have "exec_all sv ys s = Some s' \<Longrightarrow> repeatable ys \<Longrightarrow> calm s \<Longrightarrow> calm s'" for ys s s'
    by (induction ys arbitrary: s) (auto split: option.splits simp: repeatable_def dest: calm_kept)
  then show "repeatable xs \<Longrightarrow> calm s \<Longrightarrow> calm (snd (exec_batch sv xs s))"
    by (auto simp: exec_batch_def split: option.splits)
qed

lemma done_batch: "done_with xs s \<Longrightarrow> calm s \<Longrightarrow> exec_batch sv xs s = (True, s)"
  by (simp add: exec_batch_def exec_all_id done_with_def)

lemma done_kept:
  assumes "done_with xs s" "repeatable ys"
  shows "done_with xs (snd (exec_batch sv ys s))"
  using assms settled_kept_all [of _ s sv ys] repeatable_keeps [OF assms(2)]
  by (auto simp: exec_batch_def done_with_def list_all_iff split: option.splits)

section \<open>Which tables there are\<close>

fun created :: "ddl \<Rightarrow> string list" where
  "created (CreateTable t cols key uniques refs) = [t]"
| "created _ = []"

fun needed :: "ddl \<Rightarrow> string list" where
  "needed (CreateTable t cols key uniques refs) = refs"
| "needed (AddColumn t c) = [t]"
| "needed (CreateUniqueIndex n t cols) = [t]"
| "needed _ = []"

lemma alter_tables: "alter t f s = Some s' \<Longrightarrow> has_table s' t' = has_table s t'"
  by (cases "t' = t") (auto simp: alter_Some has_table_map_of map_of_update)

lemma exec_ddl_tables: "exec_ddl sv x s = Some s' \<Longrightarrow> has_table s' t \<longleftrightarrow> has_table s t \<or> t \<in> set (created x)"
  by (cases x) (auto simp: alter_tables split: if_splits, auto simp: has_table_def)

lemma exec_all_tables: "exec_all sv xs s = Some s' \<Longrightarrow> has_table s' t \<longleftrightarrow> has_table s t \<or> t \<in> set (concat (map created xs))"
  by (induction xs arbitrary: s) (auto split: option.splits simp: exec_ddl_tables)

text \<open>A column can only be added to a table that exists or is created by the same text.\<close>

lemma exec_all_needs:
  assumes "exec_all sv xs s = Some s'" "AddColumn t c \<in> set xs"
  shows "has_table s t \<or> t \<in> set (concat (map created xs))"
  using assms
proof (induction xs arbitrary: s)
  case (Cons x xs)
  from Cons.prems(1) obtain s1 where s1: "exec_ddl sv x s = Some s1" "exec_all sv xs s1 = Some s'"
    by (auto split: option.splits)
  show ?case
  proof (cases "x = AddColumn t c")
    case True
    then show ?thesis using s1(1) by (auto simp: alter_Some has_table_map_of)
  next
    case False
    then show ?thesis using Cons.IH [OF s1(2)] Cons.prems(2) exec_ddl_tables [OF s1(1)] by auto
  qed
qed simp

text \<open>The table as a text creates it when it does not exist; later statements only add columns.\<close>

fun first_table :: "string \<Rightarrow> ddl list \<Rightarrow> sql_table option" where
  "first_table t [] = None"
| "first_table t (CreateTable t' cols key uniques refs # xs) =
     (if t' = t then Some (new_table t' cols key uniques) else first_table t xs)"
| "first_table t (x # xs) = first_table t xs"

definition first_columns :: "string \<Rightarrow> ddl list \<Rightarrow> string list" where
  "first_columns t xs = (case first_table t xs of None \<Rightarrow> [] | Some tb \<Rightarrow> map cl_name (tb_columns tb))"

definition widens :: "sql_table \<Rightarrow> sql_table \<Rightarrow> bool" where
  "widens tb tb' \<longleftrightarrow> set (map cl_name (tb_columns tb)) \<subseteq> set (map cl_name (tb_columns tb')) \<and> tb_key tb' = tb_key tb"

lemma widens_refl [simp]: "widens tb tb" by (simp add: widens_def)

lemma grows_widens: "grows tb tb' \<Longrightarrow> widens tb tb'" by (simp add: grows_def widens_def)

lemma widens_trans: "widens a b \<Longrightarrow> widens b c \<Longrightarrow> widens a c" by (auto simp: widens_def)

lemma alter_widens:
  "alter t' f s = Some s' \<Longrightarrow> (\<And>tb tb'. f tb = Some tb' \<Longrightarrow> widens tb tb') \<Longrightarrow> map_of s t = Some tb \<Longrightarrow>
     \<exists>tb'. map_of s' t = Some tb' \<and> widens tb tb'"
  by (cases "t' = t") (auto simp: alter_Some map_of_update)

lemma exec_ddl_widens:
  assumes "exec_ddl sv x s = Some s'" "map_of s t = Some tb"
  shows "\<exists>tb'. map_of s' t = Some tb' \<and> widens tb tb'"
proof (cases "additive x")
  case True
  then show ?thesis using exec_ddl_grows [OF assms(1) True] assms(2) unfolding schema_grows_def by (blast intro: grows_widens)
next
  case False
  show ?thesis
  proof (cases x)
    case (DropConstraint t' n)
    then show ?thesis
      using assms(1) by (intro alter_widens [OF _ _ assms(2)]) (auto simp: widens_def)
  next
    case (AddUnique t' n cols)
    then show ?thesis
      using assms(1) by (intro alter_widens [OF _ _ assms(2)]) (auto simp: widens_def add_unique_def split: if_splits)
  next
    case (TouchTrigger t')
    then show ?thesis
      using assms(1) by (intro alter_widens [OF _ _ assms(2)]) (auto simp: widens_def)
  qed (use False in auto)
qed

lemma exec_all_widens:
  "exec_all sv xs s = Some s' \<Longrightarrow> map_of s t = Some tb \<Longrightarrow> \<exists>tb'. map_of s' t = Some tb' \<and> widens tb tb'"
proof (induction xs arbitrary: s tb)
  case (Cons x xs)
  then obtain s1 tb1 where "exec_all sv xs s1 = Some s'" "map_of s1 t = Some tb1" "widens tb tb1"
    using exec_ddl_widens by (fastforce split: option.splits)
  then show ?case using Cons.IH by (blast intro: widens_trans)
qed simp

lemma exec_all_created:
  assumes "exec_all sv xs s = Some s'" "\<not> has_table s t" "first_table t xs = Some tb"
  shows "\<exists>tb'. map_of s' t = Some tb' \<and> widens tb tb'"
  using assms
proof (induction xs arbitrary: s)
  case (Cons x xs)
  from Cons.prems(1) obtain s1 where s1: "exec_ddl sv x s = Some s1" "exec_all sv xs s1 = Some s'"
    by (auto split: option.splits)
  show ?case
  proof (cases "t \<in> set (created x)")
    case True
    then obtain cols key uniques refs where x: "x = CreateTable t cols key uniques refs" by (cases x) auto
    then have "map_of s1 t = Some tb"
      using s1(1) Cons.prems(2,3) by (auto simp: map_add_def has_table_map_of split: if_splits)
    then show ?thesis using s1(2) by (rule exec_all_widens [rotated])
  next
    case False
    then have "first_table t xs = Some tb" using Cons.prems(3) by (cases x) (auto split: if_splits)
    then show ?thesis using Cons s1 False by (auto simp: exec_ddl_tables)
  qed
qed simp

lemma exec_all_first_columns:
  assumes "exec_all sv xs s = Some s'" "\<not> has_table s t" "c \<in> set (first_columns t xs)"
  shows "has_column s' t c"
proof -
  obtain tb where tb: "first_table t xs = Some tb" "c \<in> set (map cl_name (tb_columns tb))"
    using assms(3) by (cases "first_table t xs") (auto simp: first_columns_def)
  from exec_all_created [OF assms(1,2) tb(1)] tb(2) show ?thesis
    unfolding has_column_map_of widens_def by blast
qed

lemma exec_all_first_key:
  "exec_all sv xs s = Some s' \<Longrightarrow> \<not> has_table s t \<Longrightarrow> first_table t xs = Some tb \<Longrightarrow>
     \<exists>tb'. map_of s' t = Some tb' \<and> tb_key tb' = tb_key tb"
  by (auto simp: widens_def dest: exec_all_created)

lemma exec_all_adds: "exec_all sv xs s = Some s' \<Longrightarrow> AddColumn t c \<in> set xs \<Longrightarrow> has_column s' t (cl_name c)"
proof (induction xs arbitrary: s)
  case (Cons x xs)
  from Cons.prems(1) obtain s1 where s1: "exec_ddl sv x s = Some s1" "exec_all sv xs s1 = Some s'"
    by (auto split: option.splits)
  show ?case
  proof (cases "x = AddColumn t c")
    case True
    then have "has_column s1 t (cl_name c)" using exec_settles [OF s1(1)] by simp
    then show ?thesis using exec_all_widens [OF s1(2)] by (fastforce simp: has_column_map_of widens_def)
  next
    case False
    then show ?thesis using Cons.IH [OF s1(2)] Cons.prems(2) by auto
  qed
qed simp

section \<open>Texts that succeed\<close>

text \<open>Databases in which \<^verbatim>\<open>tenant_connectors\<close> has the key of the migrations and no legacy column.\<close>

definition connector_key :: "string list" where "connector_key = [''tenant_id'', ''connector_id'']"

definition keyed_table :: "sql_table \<Rightarrow> bool" where
  "keyed_table tb \<longleftrightarrow> tb_key tb = connector_key \<and> list_all (\<lambda>c. c \<in> set (map cl_name (tb_columns tb))) connector_key
     \<and> ''kind'' \<notin> set (map cl_name (tb_columns tb)) \<and> unique_holds connector_key (tb_rows tb)"

definition keyed :: "schema \<Rightarrow> bool" where
  "keyed s = (case map_of s ''tenant_connectors'' of None \<Rightarrow> False | Some tb \<Rightarrow> keyed_table tb)"

fun unconditional :: "ddl \<Rightarrow> bool" where
  "unconditional (CreateTable t cols key uniques refs) = True"
| "unconditional (AddColumn t c) = (cl_not_null c \<longrightarrow> cl_default c \<noteq> NoDefault)"
| "unconditional (CreateUniqueIndex n t cols) = (t = ''tenant_connectors'' \<and> cols = connector_key)"
| "unconditional BackfillConnectorId = True"
| "unconditional _ = False"

lemma keyed_add_column:
  assumes "keyed_table tb" "add_column sv c tb = Some tb'" "cl_name c \<noteq> ''kind''"
  shows "keyed_table tb'"
proof (cases "cl_name c \<in> set (map cl_name (tb_columns tb))")
  case False
  then have "cl_name c \<notin> set connector_key" using assms(1) by (auto simp: keyed_table_def list_all_iff)
  then show ?thesis using assms False
    by (auto simp: add_column_def keyed_table_def unique_holds_def add_cells_other list_all_iff split: if_splits)
qed (use assms in \<open>simp add: add_column_def\<close>)

lemma keyed_kept:
  assumes "keyed s" "exec_ddl sv x s = Some s'" "additive x" "\<not> adds_kind x"
  shows "keyed s'"
proof (cases x)
  case (CreateTable t cols key uniques refs)
  then show ?thesis using assms by (auto simp: keyed_def map_add_def has_table_map_of split: if_splits option.splits)
next
  case (AddColumn t c)
  then show ?thesis using assms
    by (auto simp: keyed_def alter_Some map_of_update split: if_splits option.splits intro: keyed_add_column)
next
  case (CreateUniqueIndex n t cols)
  then show ?thesis using assms
    by (auto simp: keyed_def keyed_table_def alter_Some map_of_update add_unique_def split: if_splits option.splits)
next
  case BackfillConnectorId
  have "s' = s" if "map_of s ''tenant_connectors'' = Some tb" "keyed_table tb" for tb
    using that assms(2) BackfillConnectorId
    by (auto simp: has_table_map_of keyed_table_def backfill_def alter_def update_same split: if_splits)
  then show ?thesis using assms(1) by (auto simp: keyed_def split: option.splits)
qed (use assms in auto)

lemma exec_succeeds:
  assumes "keyed s" "unconditional x" "list_all (has_table s) (needed x)"
  shows "exec_ddl sv x s \<noteq> None"
  using assms
  by (cases x) (auto simp: alter_def add_column_def add_unique_def backfill_def keyed_def keyed_table_def list_all_iff
      connector_key_def has_table_map_of split: option.splits)

text \<open>A check of a text against the tables known to exist.\<close>

fun runnable :: "string list \<Rightarrow> ddl list \<Rightarrow> bool" where
  "runnable T [] = True"
| "runnable T (x # xs) \<longleftrightarrow> unconditional x \<and> additive x \<and> \<not> adds_kind x \<and> list_all (\<lambda>t. t \<in> set T) (needed x)
     \<and> runnable (created x @ T) xs"

lemma runnable_succeeds:
  assumes "runnable T xs" "keyed s" "list_all (has_table s) T"
  shows "\<exists>s'. exec_all sv xs s = Some s' \<and> keyed s'"
  using assms
proof (induction xs arbitrary: s T)
  case (Cons x xs)
  then obtain s1 where s1: "exec_ddl sv x s = Some s1"
    using exec_succeeds [of s x sv] by (auto simp: list_all_iff)
  then have "keyed s1" "list_all (has_table s1) (created x @ T)"
    using Cons.prems keyed_kept [of s sv x s1] by (auto simp: list_all_iff exec_ddl_tables)
  then show ?case using Cons.IH [of "created x @ T" s1] Cons.prems(1) s1 by auto
qed simp

section \<open>Stored values\<close>

text \<open>Rows are kept, in order, and so is every value in them that is not NULL, apart from the time of the last update.\<close>

definition keeps_values :: "cells list \<Rightarrow> cells list \<Rightarrow> bool" where
  "keeps_values rows rows' \<longleftrightarrow> list_all2 (\<lambda>r r'. \<forall>c. c \<noteq> ''updated_at'' \<longrightarrow> cell r c \<noteq> None \<longrightarrow> cell r' c = cell r c) rows rows'"

lemma keeps_values_refl [simp]: "keeps_values rows rows"
  by (simp add: keeps_values_def list.rel_refl)

lemma keeps_values_trans: "keeps_values a b \<Longrightarrow> keeps_values b c \<Longrightarrow> keeps_values a c"
  unfolding keeps_values_def list_all2_conv_all_nth by auto

lemma keeps_values_map: "(\<And>r c. c \<noteq> ''updated_at'' \<Longrightarrow> cell r c \<noteq> None \<Longrightarrow> cell (f r) c = cell r c) \<Longrightarrow> keeps_values rows (map f rows)"
  by (simp add: keeps_values_def list_all2_map2 list.rel_refl)

lemma add_cells_keep: "keeps_values rows (add_cells sv c i rows)"
  by (induction rows arbitrary: i) (auto simp: keeps_values_def cell_def map_add_def split: option.splits)

lemma backfill_keeps: "backfill sv tb = Some tb' \<Longrightarrow> keeps_values (tb_rows tb) (tb_rows tb')"
  by (erule backfill_cases) (auto simp: drop_not_null_def intro!: keeps_values_map backfill_row_keeps)

lemma exec_ddl_keeps:
  assumes "exec_ddl sv x s = Some s'"
  shows "keeps_values (table_rows s t) (table_rows s' t)"
proof -
  have alter: "keeps_values (table_rows s t) (table_rows s1 t)"
    if "alter t' f s = Some s1" "\<And>tb tb'. f tb = Some tb' \<Longrightarrow> keeps_values (tb_rows tb) (tb_rows tb')" for t' f s1
    using that by (auto simp: alter_Some table_rows_def map_of_update)
  have add: "keeps_values (tb_rows tb) (tb_rows tb')" if "add_unique n cols tb = Some tb'" for n cols tb tb'
    using that by (auto simp: add_unique_def split: if_splits)
  show ?thesis
  proof (cases x)
    case (CreateTable t' cols key uniques refs)
    then show ?thesis using assms
      by (auto simp: table_rows_def new_table_def map_add_def has_table_map_of split: if_splits option.splits)
  next
    case (AddColumn t' c)
    then show ?thesis using assms
      by (auto simp: add_column_def add_cells_keep split: if_splits intro!: alter)
  qed (use assms add backfill_keeps in \<open>auto split: if_splits intro!: alter\<close>)
qed

lemma exec_all_keeps: "exec_all sv xs s = Some s' \<Longrightarrow> keeps_values (table_rows s t) (table_rows s' t)"
  by (induction xs arbitrary: s) (auto split: option.splits dest: exec_ddl_keeps intro: keeps_values_trans)

lemma exec_batch_keeps: "keeps_values (table_rows s t) (table_rows (snd (exec_batch sv xs s)) t)"
  by (auto simp: exec_batch_def split: option.splits dest: exec_all_keeps)

end
