(* ===== verification/Tables.thy ===== *)
theory Tables
  imports Schema Registry Tenants
begin

text \<open>
  The tables of the program: the SQL files of \<^verbatim>\<open>db/migrations\<close>, \<^verbatim>\<open>EnsureSchema\<close>
  (\<^verbatim>\<open>pkg/tenants/postgres.go\<close>) that every public process runs when it starts, and the two texts of
  \<^verbatim>\<open>internal/adminapi/schema.go\<close> that the admin process runs; the order in which processes are started, and
  the tables, columns and conflict targets each statement of the program needs.
\<close>

section \<open>The migrations\<close>

definition col :: "string \<Rightarrow> sqltype \<Rightarrow> column" where
  "col n ty = \<lparr> cl_name = n, cl_type = ty, cl_not_null = False, cl_default = NoDefault \<rparr>"

definition col_dflt :: "string \<Rightarrow> sqltype \<Rightarrow> default_value \<Rightarrow> column" where
  "col_dflt n ty v = \<lparr> cl_name = n, cl_type = ty, cl_not_null = False, cl_default = v \<rparr>"

definition must :: "string \<Rightarrow> sqltype \<Rightarrow> column" where
  "must n ty = \<lparr> cl_name = n, cl_type = ty, cl_not_null = True, cl_default = NoDefault \<rparr>"

definition must_dflt :: "string \<Rightarrow> sqltype \<Rightarrow> default_value \<Rightarrow> column" where
  "must_dflt n ty v = \<lparr> cl_name = n, cl_type = ty, cl_not_null = True, cl_default = v \<rparr>"

definition created_at :: column where "created_at = must_dflt ''created_at'' Timestamptz Now"

definition updated_at :: column where "updated_at = must_dflt ''updated_at'' Timestamptz Now"

definition id_column :: column where "id_column = must_dflt ''id'' Uuid Generated"

definition migration_0001 :: "ddl list" where
  "migration_0001 =
     [CreateTable ''tenants''
        [id_column, must ''slug'' Text, must ''host'' Text, must_dflt ''auth_mode'' Text (Const (VStr ''byoidc'')),
         must ''oauth_issuer'' Text, must_dflt ''accepted_audiences'' Texts (Const (VArr [VStr ''https://lamdis.ai''])),
         col ''client_id_user'' Text, col ''client_id_machine'' Text, must_dflt ''account_claim'' Text (Const (VStr ''sub'')),
         must_dflt ''dpop_required'' Boolean (Const (VBool False)), created_at, updated_at]
        [''id''] [[''slug''], [''host'']] [],
      CreateTable ''tenant_connectors''
        [must ''tenant_id'' Uuid, must ''connector_id'' Text, must_dflt ''enabled'' Boolean (Const (VBool False)),
         col ''secrets_encrypted'' Bytea, updated_at]
        [''tenant_id'', ''connector_id''] [] [''tenants''],
      CreateTable ''connectors''
        [col ''id'' Text, must ''kind'' Text, must ''display_name'' Text, must_dflt ''capabilities'' Jsonb (Const (VArr [])),
         must_dflt ''requirements'' Jsonb (Const (VMap [(''secrets'', VArr []), (''webhooks'', VArr [])])),
         must_dflt ''audit_mode'' Text (Const (VStr ''none'')), created_at, updated_at]
        [''id''] [] [],
      CreateTable ''policies''
        [col ''tenant_id'' Uuid, must_dflt ''machine_allowed_scopes'' Texts (Const (VArr [])),
         must_dflt ''step_up'' Jsonb (Const (VMap [])), created_at, updated_at]
        [''tenant_id''] [] [''tenants''],
      CreateTable ''audit_log''
        [col_dflt ''id'' Bigserial Generated, must ''tenant_id'' Uuid, must ''action'' Text, col ''rail'' Text,
         col ''order_id'' Text, col ''actor_sub'' Text, col ''mode'' Text, col ''result_code'' Integer4,
         col ''request_id'' Text, must_dflt ''ts'' Timestamptz Now]
        [''id''] [] [''tenants''],
      CreateTable ''usage_events''
        [col_dflt ''id'' Bigserial Generated, must ''tenant_id'' Uuid, col ''action_id'' Text, col ''method'' Text,
         col ''path'' Text, col ''mode'' Text, col ''rail'' Text, col ''actor_sub'' Text, col ''request_id'' Text,
         col ''status_code'' Integer4, col ''duration_ms'' Integer4, must_dflt ''started_at'' Timestamptz Now,
         col ''finished_at'' Timestamptz]
        [''id''] [] [''tenants''],
      TouchTrigger ''tenants'', TouchTrigger ''tenant_connectors'', TouchTrigger ''connectors'', TouchTrigger ''policies'']"

text \<open>The second file holds two versions of the same schema one after the other: of a table in both, the first is created.\<close>

definition migration_0002_first :: "ddl list" where
  "migration_0002_first =
     [CreateTable ''actions''
        [must ''tenant_id'' Uuid, must ''key'' Text, col ''display_name'' Text,
         col_dflt ''inputs_schema'' Jsonb (Const (VMap [])), created_at, updated_at]
        [''tenant_id'', ''key''] [] [''tenants''],
      CreateTable ''fact_resolvers''
        [id_column, must ''tenant_id'' Uuid, must ''action_key'' Text, must ''name'' Text, col ''connector_key'' Text,
         col_dflt ''request_template'' Jsonb (Const (VMap [])), col_dflt ''response_sample'' Jsonb (Const (VMap [])),
         col_dflt ''needs'' Jsonb (Const (VArr [])), must_dflt ''enabled'' Boolean (Const (VBool True)), created_at, updated_at]
        [''id''] [[''tenant_id'', ''action_key'', ''name'']] [''tenants''],
      CreateTable ''fact_mappings''
        [id_column, must ''tenant_id'' Uuid, must ''action_key'' Text, must ''name'' Text, must ''jmespath'' Text,
         must ''fact_key'' Text, col ''transform'' Text, col_dflt ''transform_args'' Jsonb (Const (VArr [])),
         must_dflt ''required'' Boolean (Const (VBool False)), created_at, updated_at]
        [''id''] [[''tenant_id'', ''action_key'', ''name'']] [''tenants''],
      CreateTable ''policy_versions''
        [id_column, must ''tenant_id'' Uuid, must ''version'' Integer4, col ''compiled_rego'' Text,
         must_dflt ''status'' Text (Const (VStr ''draft'')), created_at, updated_at]
        [''id''] [[''tenant_id'', ''version'']] [''tenants''],
      CreateTable ''decisions''
        [id_column, must ''tenant_id'' Uuid, must ''action_key'' Text, must_dflt ''inputs'' Jsonb (Const (VMap [])),
         must_dflt ''facts'' Jsonb (Const (VMap [])), must_dflt ''policy_version'' Integer4 (Const (VInt 0)),
         must ''status'' Text, col ''reasons'' Jsonb, col ''needs'' Jsonb, col ''alternatives'' Jsonb, col ''hash'' Text,
         col ''expires_at'' Timestamptz, created_at]
        [''id''] [] [''tenants''],
      CreateTable ''executions''
        [id_column, must ''tenant_id'' Uuid, must ''action_key'' Text, col ''decision_id'' Uuid, col ''idempotency_key'' Text,
         col ''steps'' Jsonb, col ''result'' Jsonb, col ''status'' Text, created_at]
        [''id''] [] [''tenants'', ''decisions''],
      TouchTrigger ''actions'', TouchTrigger ''fact_resolvers'', TouchTrigger ''fact_mappings'', TouchTrigger ''policy_versions'']"

definition migration_0002_second :: "ddl list" where
  "migration_0002_second =
     [CreateTable ''actions''
        [id_column, must ''tenant_id'' Uuid, must ''key'' Text, must ''display_name'' Text,
         must_dflt ''requires_preflight'' Boolean (Const (VBool True)), must_dflt ''flow'' Jsonb (Const (VMap [])),
         must_dflt ''enabled'' Boolean (Const (VBool True)), must_dflt ''version'' Integer4 (Const (VInt 1)), created_at, updated_at]
        [''id''] [[''tenant_id'', ''key'']] [''tenants''],
      CreateTable ''policy_sets''
        [id_column, must ''tenant_id'' Uuid, must ''name'' Text, must ''environment'' Text]
        [''id''] [[''tenant_id'', ''name'', ''environment'']] [''tenants''],
      CreateTable ''policy_versions''
        [id_column, must ''tenant_id'' Uuid, must ''policy_set_id'' Uuid, must ''version'' Integer4, must ''status'' Text,
         must ''dsl'' Jsonb, col ''compiled_rego'' Text, col ''created_by'' Text, created_at, col ''published_at'' Timestamptz]
        [''id''] [[''tenant_id'', ''policy_set_id'', ''version'']] [''tenants'', ''policy_sets''],
      CreateTable ''fact_resolvers''
        [id_column, must ''tenant_id'' Uuid, must ''action_key'' Text, must ''name'' Text, must ''connector_key'' Text,
         must_dflt ''request_template'' Jsonb (Const (VMap [])), col ''response_sample'' Jsonb,
         must_dflt ''enabled'' Boolean (Const (VBool True)), created_at]
        [''id''] [] [''tenants''],
      CreateTable ''fact_mappings''
        [id_column, must ''tenant_id'' Uuid, must ''action_key'' Text, must ''name'' Text, must ''jmespath'' Text,
         must ''fact_key'' Text, col ''transform'' Text, must_dflt ''required'' Boolean (Const (VBool False)), created_at]
        [''id''] [] [''tenants''],
      CreateTable ''alternatives''
        [id_column, must ''tenant_id'' Uuid, must ''action_key'' Text, must ''when'' Text, must ''alt_action_key'' Text,
         must_dflt ''params_template'' Jsonb (Const (VMap [])), must_dflt ''consent_template'' Jsonb (Const (VMap [])), created_at]
        [''id''] [] [''tenants''],
      CreateTable ''decisions''
        [id_column, must ''tenant_id'' Uuid, must ''action_key'' Text, must_dflt ''inputs'' Jsonb (Const (VMap [])),
         must_dflt ''facts'' Jsonb (Const (VMap [])), must ''policy_version'' Integer4, must ''status'' Text,
         col ''reasons'' Jsonb, col ''needs'' Jsonb, col ''alternatives'' Jsonb, col ''hash'' Text,
         col ''expires_at'' Timestamptz, created_at]
        [''id''] [] [''tenants''],
      CreateTable ''executions''
        [id_column, must ''tenant_id'' Uuid, must ''action_key'' Text, must ''decision_id'' Uuid, col ''idempotency_key'' Text,
         must_dflt ''steps'' Jsonb (Const (VArr [])), col ''result'' Jsonb, must ''status'' Text, created_at]
        [''id''] [] [''tenants'', ''decisions''],
      CreateTable ''secrets''
        [id_column, must ''tenant_id'' Uuid, must ''name'' Text, must ''ciphertext'' Bytea, created_at]
        [''id''] [[''tenant_id'', ''name'']] [''tenants'']]"

definition migration_0003 :: "ddl list" where
  "migration_0003 =
     [AddColumn ''fact_mappings'' (col_dflt ''transform_args'' Jsonb (Const (VArr []))),
      AddColumn ''fact_resolvers'' (col_dflt ''needs'' Jsonb (Const (VArr []))),
      AddColumn ''actions'' (col_dflt ''inputs_schema'' Jsonb (Const (VMap []))),
      AddColumn ''fact_mappings'' (must_dflt ''transform_args'' Jsonb (Const (VArr []))),
      AddColumn ''fact_resolvers'' (must_dflt ''needs'' Jsonb (Const (VArr []))),
      AddColumn ''actions'' (must_dflt ''inputs_schema'' Jsonb (Const (VMap [])))]"

definition migration_0004 :: "ddl list" where
  "migration_0004 =
     [AddColumn ''policy_versions'' (must_dflt ''action_key'' Text (Const (VStr []))),
      DropConstraint ''policy_versions'' ''policy_versions_tenant_id_version_key'',
      AddUnique ''policy_versions'' ''policy_versions_tenant_action_version_key'' [''tenant_id'', ''action_key'', ''version'']]"

section \<open>The statements of the processes\<close>

definition align_tenant_connectors :: "ddl list" where
  "align_tenant_connectors =
     [AddColumn ''tenant_connectors'' (col ''connector_id'' Text),
      AddColumn ''tenant_connectors'' (col_dflt ''enabled'' Boolean (Const (VBool False))),
      AddColumn ''tenant_connectors'' (col ''secrets_encrypted'' Bytea),
      AddColumn ''tenant_connectors'' (col_dflt ''updated_at'' Timestamptz Now)]"

definition tenant_tables :: "ddl list" where
  "tenant_tables =
     [CreateTable ''tenants''
        [col ''id'' Uuid, col ''slug'' Text, col ''host'' Text, col ''oauth_issuer'' Text, col ''jwks_url'' Text,
         col ''base_public_url'' Text, col_dflt ''auth_mode'' Text (Const (VStr ''byoidc'')), col ''discovery_url'' Text,
         col_dflt ''accepted_audiences'' Texts (Const (VArr [])), col_dflt ''account_claim'' Text (Const (VStr ''sub'')),
         col_dflt ''machine_allowed_scopes'' Texts (Const (VArr [])),
         col_dflt ''required_acr_by_action'' Jsonb (Const (VMap [])), col_dflt ''dpop_required'' Boolean (Const (VBool False))]
        [''id''] [[''slug''], [''host'']] [],
      CreateTable ''tenant_connectors''
        [col ''tenant_id'' Uuid, col ''connector_id'' Text, must_dflt ''enabled'' Boolean (Const (VBool False)),
         col ''secrets_encrypted'' Bytea, updated_at]
        [''tenant_id'', ''connector_id''] [] [''tenants''],
      CreateTable ''connector_definitions''
        [col ''id'' Uuid, col ''tenant_id'' Uuid, col ''kind'' Text, col ''builtin_kind'' Text, col ''auth'' Jsonb,
         col ''config'' Jsonb, col ''secret'' Jsonb]
        [''id''] [[''tenant_id'', ''kind'']] [''tenants''],
      CreateTable ''connector_operations''
        [col ''id'' Uuid, col ''connector_id'' Uuid, col ''method'' Text, col ''path'' Text, col ''summary'' Text,
         col_dflt ''scopes'' Texts (Const (VArr [])), col ''request_schema'' Jsonb, col ''response_schema'' Jsonb]
        [''id''] [] [''connector_definitions''],
      CreateTable ''usage_events''
        [col_dflt ''id'' Bigserial Generated, must ''tenant_id'' Uuid, col ''action_id'' Text, col ''method'' Text,
         col ''path'' Text, col ''mode'' Text, col ''rail'' Text, col ''actor_sub'' Text, col ''request_id'' Text,
         col ''status_code'' Integer4, col ''duration_ms'' Integer4, must_dflt ''started_at'' Timestamptz Now,
         col ''finished_at'' Timestamptz]
        [''id''] [] [''tenants'']]"

definition tenant_columns :: "ddl list" where
  "tenant_columns =
     map (AddColumn ''tenants'')
       [col_dflt ''auth_mode'' Text (Const (VStr ''byoidc'')), col ''discovery_url'' Text,
        col_dflt ''accepted_audiences'' Texts (Const (VArr [])), col_dflt ''account_claim'' Text (Const (VStr ''sub'')),
        col_dflt ''machine_allowed_scopes'' Texts (Const (VArr [])),
        col_dflt ''required_acr_by_action'' Jsonb (Const (VMap [])), col_dflt ''dpop_required'' Boolean (Const (VBool False)),
        col ''jwks_url'' Text, col ''base_public_url'' Text, created_at, updated_at]"

definition connector_columns :: "ddl list" where
  "connector_columns =
     map (AddColumn ''connector_definitions'')
       [col ''base_url'' Text, col ''auth_ref'' Uuid, col ''title'' Text, col ''summary'' Text]
     @ map (AddColumn ''connector_operations'') [col ''request_tmpl'' Jsonb, col ''params'' Jsonb]"

definition tenant_connectors_index :: ddl where
  "tenant_connectors_index =
     CreateUniqueIndex ''tenant_connectors_tenant_connector_idx'' ''tenant_connectors'' [''tenant_id'', ''connector_id'']"

definition tenant_ddl :: "ddl list" where
  "tenant_ddl = tenant_tables @ tenant_columns @ connector_columns @ align_tenant_connectors
     @ [BackfillConnectorId, tenant_connectors_index]"

definition EnsureSchema :: "server \<Rightarrow> schema \<Rightarrow> bool \<times> schema" where
  "EnsureSchema sv s = exec_batch sv tenant_ddl s"

definition connector_ddl :: "ddl list" where
  "connector_ddl =
     [CreateTable ''connectors''
        [col ''id'' Text, must ''kind'' Text, must ''display_name'' Text, must_dflt ''capabilities'' Jsonb (Const (VArr [])),
         must_dflt ''requirements'' Jsonb (Const (VMap [(''secrets'', VArr []), (''webhooks'', VArr [])])),
         must_dflt ''audit_mode'' Text (Const (VStr ''none'')), created_at, updated_at]
        [''id''] [] [],
      AddColumn ''connectors'' (col ''category'' Text),
      AddColumn ''connectors'' (col_dflt ''tags'' Texts (Const (VArr [])))]"

definition ensureConnectorSchema :: "server \<Rightarrow> schema \<Rightarrow> bool \<times> schema" where
  "ensureConnectorSchema sv s = exec_batch sv connector_ddl s"

definition marketplace_ddl :: "ddl list" where
  "marketplace_ddl =
     [AddColumn ''tenants'' (col ''client_id_user'' Text), AddColumn ''tenants'' (col ''client_id_machine'' Text),
      CreateTable ''tenant_auth_configs''
        [col ''id'' Uuid, must ''tenant_id'' Uuid, must ''name'' Text, must ''type'' Text,
         must_dflt ''config'' Jsonb (Const (VMap [])), col ''secrets_encrypted'' Bytea, updated_at]
        [''id''] [[''tenant_id'', ''name'']] [''tenants'']]
     @ connector_columns
     @ [AddColumn ''connector_operations'' (must_dflt ''enabled'' Boolean (Const (VBool True)))]
     @ align_tenant_connectors
     @ [AddColumn ''tenants'' created_at, AddColumn ''tenants'' updated_at, BackfillConnectorId, tenant_connectors_index]"

definition ensureTenantMarketplaceSchema :: "server \<Rightarrow> schema \<Rightarrow> bool \<times> schema" where
  "ensureTenantMarketplaceSchema sv s = exec_batch sv marketplace_ddl s"

section \<open>Starting processes\<close>

text \<open>Of the public processes the connector service ends when its schema fails, the others go on; the admin process
  ends when one of its two schemas fails.\<close>

datatype process = Public_Service | Admin_API

definition start_process :: "server \<Rightarrow> process \<Rightarrow> schema \<Rightarrow> bool \<times> schema" where
  "start_process sv p s =
     (case p of
        Public_Service \<Rightarrow> EnsureSchema sv s
      | Admin_API \<Rightarrow> (case ensureConnectorSchema sv s of
            (False, s1) \<Rightarrow> (False, s1)
          | (True, s1) \<Rightarrow> ensureTenantMarketplaceSchema sv s1))"

definition started :: "server \<Rightarrow> process list \<Rightarrow> schema \<Rightarrow> schema" where
  "started sv ps s = fold (\<lambda>p s. snd (start_process sv p s)) ps s"

text \<open>What happens to the database: a process starts, or the rows of a table change in a way its constraints allow.\<close>

datatype event = Start process | Write string "cells list"

definition write_rows :: "string \<Rightarrow> cells list \<Rightarrow> schema \<Rightarrow> schema" where
  "write_rows t rows s =
     (case map_of s t of None \<Rightarrow> s
      | Some tb \<Rightarrow> if rows_allowed tb rows then AList.update t (tb\<lparr> tb_rows := rows \<rparr>) s else s)"

definition happen :: "server \<Rightarrow> event \<Rightarrow> schema \<Rightarrow> schema" where
  "happen sv e s = (case e of Start p \<Rightarrow> snd (start_process sv p s) | Write t rows \<Rightarrow> write_rows t rows s)"

definition history :: "server \<Rightarrow> event list \<Rightarrow> schema \<Rightarrow> schema" where
  "history sv es s = fold (happen sv) es s"

definition migrations :: "ddl list" where
  "migrations = migration_0001 @ migration_0002_first @ migration_0002_second @ migration_0003 @ migration_0004"

definition migrated :: "server \<Rightarrow> schema" where
  "migrated sv = snd (exec_batch sv migrations [])"

section \<open>What the statements need\<close>

datatype need = Columns string "string list" | ConflictOn string "string list"

definition met :: "schema \<Rightarrow> need \<Rightarrow> bool" where
  "met s n =
     (case n of
        Columns t cs \<Rightarrow> has_table s t \<and> list_all (has_column s t) cs
      | ConflictOn t cs \<Rightarrow> (case map_of s t of None \<Rightarrow> False
          | Some tb \<Rightarrow> set (tb_key tb) = set cs \<or> list_ex (\<lambda>ix. set (ix_columns ix) = set cs) (tb_uniques tb)))"

definition tenant_cols :: "string list" where
  "tenant_cols = [''id'', ''slug'', ''host'', ''oauth_issuer'', ''jwks_url'', ''base_public_url'', ''auth_mode'', ''discovery_url'',
     ''accepted_audiences'', ''account_claim'', ''machine_allowed_scopes'', ''required_acr_by_action'', ''dpop_required'']"

definition catalogue_cols :: "string list" where
  "catalogue_cols = [''id'', ''kind'', ''display_name'', ''capabilities'', ''requirements'', ''audit_mode'', ''updated_at'']"

definition facts_needs :: "(stmt \<times> need list) list" where
  "facts_needs =
     [(LoadResolvers, [Columns ''fact_resolvers'' [''id'', ''action_key'', ''name'', ''connector_key'',
        ''request_template'', ''response_sample'', ''needs'', ''enabled'']]),
      (LoadMappings, [Columns ''fact_mappings'' [''id'', ''action_key'', ''name'', ''jmespath'', ''fact_key'',
        ''transform'', ''transform_args'', ''required'']]),
      (NeedsQuery, [Columns ''fact_resolvers'' [''needs'', ''action_key'', ''enabled'']])]"

definition policy_needs :: "(stmt \<times> need list) list" where
  "policy_needs =
     [(LatestPolicy, [Columns ''policy_versions'' [''compiled_rego'', ''version'', ''action_key'', ''status'']]),
      (InsertDecision, [Columns ''decisions'' [''tenant_id'', ''action_key'', ''inputs'', ''facts'', ''policy_version'',
        ''status'', ''reasons'', ''needs'', ''alternatives'', ''hash'', ''expires_at'', ''id'']]),
      (SelectDecision, [Columns ''decisions'' [''status'', ''expires_at'', ''id'']]),
      (SelectDecisionBind, [Columns ''decisions'' [''status'', ''action_key'', ''policy_version'', ''hash'', ''expires_at'',
        ''id'']])]"

definition orchestrator_needs :: "(stmt \<times> need list) list" where
  "orchestrator_needs =
     [(ListOperations, [Columns ''connector_definitions'' [''id'', ''tenant_id'', ''base_url'', ''kind'', ''title''],
        Columns ''connector_operations'' [''connector_id'', ''method'', ''path'', ''request_tmpl'', ''enabled'']]),
      (InsertExecution, [Columns ''executions'' [''tenant_id'', ''action_key'', ''decision_id'', ''idempotency_key'',
        ''steps'', ''result'', ''status'']])]"

definition connector_needs :: "(stmt \<times> need list) list" where
  "connector_needs =
     [(InsertUsage, [Columns ''usage_events'' [''tenant_id'', ''action_id'', ''method'', ''path'', ''mode'', ''rail'',
        ''actor_sub'', ''request_id'', ''status_code'', ''duration_ms'', ''started_at'', ''finished_at'']]),
      (AuthConfigQuery, [Columns ''tenant_auth_configs'' [''type'', ''config'', ''secrets_encrypted'', ''id'']])]"

definition registry_needs :: "(stmt \<times> need list) list" where
  "registry_needs =
     [(RegistryQuery, [Columns ''connector_operations'' [''connector_id'', ''method'', ''path'', ''summary'', ''scopes'',
        ''params''], Columns ''connector_definitions'' [''id'', ''tenant_id'', ''base_url'', ''auth_ref'', ''kind''],
        Columns ''tenant_connectors'' [''connector_id'', ''tenant_id'', ''enabled'']])]"

definition tenant_needs :: "(stmt \<times> need list) list" where
  "tenant_needs =
     [(TenantByHost, [Columns ''tenants'' tenant_cols]),
      (TenantById, [Columns ''tenants'' tenant_cols]),
      (CredsQuery, [Columns ''connector_definitions'' [''config'', ''secret'', ''tenant_id'', ''kind'']]),
      (KindsQuery, [Columns ''connector_definitions'' [''kind'', ''tenant_id'']])]"

definition admin_policies_needs :: "(stmt \<times> need list) list" where
  "admin_policies_needs =
     [(PutPolicies, [Columns ''policies'' [''tenant_id'', ''machine_allowed_scopes'', ''step_up'', ''updated_at''],
        ConflictOn ''policies'' [''tenant_id'']]),
      (SelectPolicyVersion, [Columns ''policy_versions'' [''compiled_rego'', ''status'', ''action_key'', ''version'']]),
      (ActivePolicy, [Columns ''policy_versions'' [''compiled_rego'', ''version'', ''action_key'', ''status'']]),
      (MaxPolicyVersion, [Columns ''policy_versions'' [''version'', ''action_key'']]),
      (InsertPolicyVersion, [Columns ''policy_versions'' [''id'', ''tenant_id'', ''action_key'', ''version'',
        ''compiled_rego'', ''status'', ''updated_at''], ConflictOn ''policy_versions'' [''tenant_id'', ''action_key'',
        ''version'']]),
      (PublishPolicyVersion, [Columns ''policy_versions'' [''status'', ''version'', ''updated_at'', ''tenant_id'',
        ''action_key'']]),
      (ListPolicyVersions, [Columns ''policy_versions'' [''version'', ''status'', ''updated_at'', ''action_key'']])]"

definition admin_actions_needs :: "(stmt \<times> need list) list" where
  "admin_actions_needs =
     [(ListActions, [Columns ''actions'' [''key'', ''display_name'', ''inputs_schema'', ''updated_at'']]),
      (UpsertAction, [Columns ''actions'' [''tenant_id'', ''key'', ''display_name'', ''inputs_schema'', ''updated_at''],
        ConflictOn ''actions'' [''tenant_id'', ''key'']]),
      (ListResolvers, [Columns ''fact_resolvers'' [''name'', ''connector_key'', ''request_template'', ''response_sample'',
        ''needs'', ''enabled'', ''updated_at'', ''action_key'']]),
      (UpsertResolver, [Columns ''fact_resolvers'' [''tenant_id'', ''action_key'', ''name'', ''connector_key'',
        ''request_template'', ''response_sample'', ''needs'', ''enabled'', ''updated_at''],
        ConflictOn ''fact_resolvers'' [''tenant_id'', ''action_key'', ''name'']]),
      (DeleteResolver, [Columns ''fact_resolvers'' [''action_key'', ''name'']]),
      (ListMappings, [Columns ''fact_mappings'' [''name'', ''jmespath'', ''fact_key'', ''transform'', ''transform_args'',
        ''required'', ''updated_at'', ''action_key'']]),
      (UpsertMapping, [Columns ''fact_mappings'' [''tenant_id'', ''action_key'', ''name'', ''jmespath'', ''fact_key'',
        ''transform'', ''transform_args'', ''required'', ''updated_at''], ConflictOn ''fact_mappings'' [''tenant_id'',
        ''action_key'', ''name'']]),
      (DeleteMapping, [Columns ''fact_mappings'' [''action_key'', ''name'']])]"

definition admin_tenant_needs :: "(stmt \<times> need list) list" where
  "admin_tenant_needs =
     [(TenantSelf, [Columns ''tenants'' [''id'', ''slug'', ''host'', ''oauth_issuer'', ''account_claim'',
        ''accepted_audiences'', ''client_id_user'', ''client_id_machine'', ''dpop_required'']]),
      (PutOIDC, [Columns ''tenants'' [''oauth_issuer'', ''accepted_audiences'', ''client_id_user'', ''client_id_machine'',
        ''account_claim'', ''dpop_required'', ''id'']])]"

definition admin_auth_needs :: "(stmt \<times> need list) list" where
  "admin_auth_needs =
     [(ListAuth, [Columns ''tenant_auth_configs'' [''id'', ''name'', ''type'', ''config'', ''updated_at'', ''tenant_id'']]),
      (CreateAuth, [Columns ''tenant_auth_configs'' [''id'', ''tenant_id'', ''name'', ''type'', ''config'',
        ''secrets_encrypted'']]),
      (UpdateAuth, [Columns ''tenant_auth_configs'' [''name'', ''type'', ''config'', ''secrets_encrypted'', ''updated_at'',
        ''id'', ''tenant_id'']]),
      (DeleteAuth, [Columns ''tenant_auth_configs'' [''id'', ''tenant_id'']])]"

definition admin_connectors_needs :: "(stmt \<times> need list) list" where
  "admin_connectors_needs =
     [(SelectDefinition, [Columns ''connector_definitions'' [''id'', ''kind'', ''base_url'', ''auth_ref'', ''title'',
        ''summary'', ''tenant_id'', ''builtin_kind'']]),
      (SelectConnector, [Columns ''connectors'' [''id'', ''kind'', ''display_name'']]),
      (PutTenantConnector, [Columns ''tenant_connectors'' [''tenant_id'', ''connector_id'', ''enabled'',
        ''secrets_encrypted'', ''updated_at''], ConflictOn ''tenant_connectors'' [''tenant_id'', ''connector_id'']]),
      (InsertAction, [Columns ''actions'' [''tenant_id'', ''key'', ''display_name''], ConflictOn ''actions'' [''tenant_id'',
        ''key'']]),
      (ListConnectors, [Columns ''connectors'' [''id'', ''kind'', ''display_name'', ''requirements'', ''category'',
        ''tags'', ''capabilities'', ''audit_mode''], Columns ''tenant_connectors'' [''enabled'', ''connector_id'',
        ''tenant_id''], Columns ''connector_definitions'' [''id'', ''kind'', ''builtin_kind'', ''config'',
        ''base_url'', ''auth_ref'', ''title'', ''summary'', ''tenant_id'']]),
      (InsertDefinition, [Columns ''connector_definitions'' [''id'', ''tenant_id'', ''kind'', ''builtin_kind'', ''auth'',
        ''config'', ''secret'', ''base_url'', ''auth_ref'', ''title'', ''summary'']]),
      (InsertOperation, [Columns ''connector_operations'' [''id'', ''connector_id'', ''method'', ''path'', ''summary'',
        ''scopes'', ''request_tmpl'', ''params'', ''enabled'']]),
      (UpdateDefinition, [Columns ''connector_definitions'' [''kind'', ''base_url'', ''auth_ref'', ''title'', ''summary'',
        ''id'', ''tenant_id'']]),
      (DeleteOperations, [Columns ''connector_operations'' [''connector_id'']]),
      (SelectOperations, [Columns ''connector_operations'' [''id'', ''method'', ''path'', ''summary'', ''scopes'',
        ''params'', ''request_tmpl'', ''enabled'', ''connector_id''], Columns ''connector_definitions'' [''id'',
        ''tenant_id'']]),
      (EnableOperation, [Columns ''connector_operations'' [''enabled'', ''id'']])]"

definition admin_catalogue_needs :: "(stmt \<times> need list) list" where
  "admin_catalogue_needs =
     [(UpsertConnector, [Columns ''connectors'' catalogue_cols, ConflictOn ''connectors'' [''id'']]),
      (CountConnectors, [Columns ''connectors'' []])]"

definition admin_analytics_needs :: "(stmt \<times> need list) list" where
  "admin_analytics_needs =
     [(AuditQuery, [Columns ''audit_log'' [''action'', ''rail'', ''order_id'', ''actor_sub'', ''mode'', ''result_code'',
        ''request_id'', ''ts'', ''tenant_id'']]),
      (UsageDaily, [Columns ''usage_events'' [''started_at'', ''action_id'', ''method'', ''path'', ''duration_ms'',
        ''status_code'', ''tenant_id'']]),
      (UsageTotals, [Columns ''usage_events'' [''status_code'', ''duration_ms'', ''tenant_id'']]),
      (CoverageQuery, [Columns ''actions'' [''key'', ''display_name'', ''tenant_id''], Columns ''fact_resolvers'' [''id'',
        ''tenant_id'', ''action_key'', ''enabled''], Columns ''fact_mappings'' [''id'', ''tenant_id'', ''action_key'',
        ''required'']]),
      (DecisionSummary, [Columns ''decisions'' [''status'', ''created_at'']]),
      (ListDecisions, [Columns ''decisions'' [''id'', ''action_key'', ''status'', ''policy_version'', ''expires_at'',
        ''created_at'']])]"

definition admin_login_needs :: "(stmt \<times> need list) list" where
  "admin_login_needs =
     [(ResolveTid, [Columns ''tenants'' [''id'', ''slug'', ''host'']])]"

definition needs_table :: "(stmt \<times> need list) list" where
  "needs_table = facts_needs @ policy_needs @ orchestrator_needs @ connector_needs @ registry_needs @ tenant_needs @
     admin_policies_needs @ admin_actions_needs @ admin_tenant_needs @ admin_auth_needs @ admin_connectors_needs
     @ admin_catalogue_needs @ admin_analytics_needs @ admin_login_needs"

definition stmt_needs :: "stmt \<Rightarrow> need list" where
  "stmt_needs st = (case map_of needs_table st of None \<Rightarrow> [] | Some ns \<Rightarrow> ns)"

text \<open>The statements a schema lets fail: those that name something it does not have.\<close>

definition schema_faults :: "server \<Rightarrow> schema \<Rightarrow> stmt \<Rightarrow> bool" where
  "schema_faults sv s st =
     (if st = ConnectorSchema then \<not> fst (ensureConnectorSchema sv s)
      else if st = MarketplaceSchema then \<not> fst (ensureTenantMarketplaceSchema sv (snd (ensureConnectorSchema sv s)))
      else \<not> list_all (met s) (stmt_needs st))"

section \<open>Connector records\<close>

text \<open>\<^verbatim>\<open>ListTenantConnectors\<close> asks for columns that are not among those above.  An error of \<^verbatim>\<open>rows.Scan\<close> (a NULL
  kind) is dropped: the row is listed without contents, and is the last.\<close>

definition json_cell :: "gval option \<Rightarrow> gomap" where
  "json_cell v = (case v of None \<Rightarrow> None | Some w \<Rightarrow> unmarshal_map w)"

fun scan_records :: "string \<Rightarrow> cells list \<Rightarrow> ConnectorRecord list" where
  "scan_records tid [] = []"
| "scan_records tid (r # rs) =
     (case cell r ''kind'' of
        Some (VStr k) \<Rightarrow>
          \<lparr> cr_TenantID = tid, cr_Kind = k, cr_BuiltinKind = k, cr_ConfigJSON = json_cell (cell r ''config''),
            cr_SecretJSON = json_cell (cell r ''secret'') \<rparr> # scan_records tid rs
      | _ \<Rightarrow> [\<lparr> cr_TenantID = tid, cr_Kind = [], cr_BuiltinKind = [], cr_ConfigJSON = None, cr_SecretJSON = None \<rparr>])"

definition ListTenantConnectors :: "schema \<Rightarrow> string \<Rightarrow> ConnectorRecord list option" where
  "ListTenantConnectors s tid =
     (if met s (Columns ''tenant_connectors'' [''kind'', ''config'', ''secret'', ''tenant_id''])
      then Some (scan_records tid (filter (\<lambda>r. cell r ''tenant_id'' = Some (VStr tid)) (table_rows s ''tenant_connectors'')))
      else None)"

section \<open>Starting again\<close>

lemma ddl_repeatable: "repeatable tenant_ddl" "repeatable connector_ddl" "repeatable marketplace_ddl"
  by (code_simp+)

definition ddl_of :: "process \<Rightarrow> ddl list" where
  "ddl_of p = (case p of Public_Service \<Rightarrow> tenant_ddl | Admin_API \<Rightarrow> connector_ddl @ marketplace_ddl)"

lemmas schema_defs = start_process_def EnsureSchema_def ensureConnectorSchema_def ensureTenantMarketplaceSchema_def

lemma done_with_append: "done_with (xs @ ys) s \<longleftrightarrow> done_with xs s \<and> done_with ys s"
  by (auto simp: done_with_def)

lemma start_done:
  assumes "start_process sv p s = (True, s')"
  shows "done_with (ddl_of p) s'"
proof (cases p)
  case Admin_API
  then obtain s1 where s1: "exec_batch sv connector_ddl s = (True, s1)" "exec_batch sv marketplace_ddl s1 = (True, s')"
    using assms by (auto simp: schema_defs split: prod.splits bool.splits)
  then show ?thesis
    using done_kept [OF batch_done [OF ddl_repeatable(2) s1(1)] ddl_repeatable(3), of sv] batch_done [OF ddl_repeatable(3) s1(2)]
    by (simp add: Admin_API ddl_of_def done_with_append)
qed (use assms batch_done [OF ddl_repeatable(1)] in \<open>simp add: schema_defs ddl_of_def\<close>)

lemma done_start: "done_with (ddl_of p) s \<Longrightarrow> calm s \<Longrightarrow> start_process sv p s = (True, s)"
  by (cases p) (simp_all add: schema_defs ddl_of_def done_with_append done_batch)

lemma done_started: "done_with xs s \<Longrightarrow> done_with xs (started sv ps s)"
proof (induction ps arbitrary: s)
  case (Cons p ps)
  have "done_with xs (snd (start_process sv p s))"
    using Cons.prems done_kept [OF Cons.prems ddl_repeatable(1)] done_kept [OF Cons.prems ddl_repeatable(2), of sv]
      done_kept [OF done_kept [OF Cons.prems ddl_repeatable(2)] ddl_repeatable(3), of sv sv]
    by (auto simp: schema_defs split: process.splits prod.splits bool.splits)
  then show ?case using Cons.IH by (simp add: started_def)
qed (simp add: started_def)

lemma calm_start: "calm s \<Longrightarrow> calm (snd (start_process sv p s))"
  using batch_calm [OF ddl_repeatable(1), of s sv] batch_calm [OF ddl_repeatable(2), of s sv]
    batch_calm [OF ddl_repeatable(3), of "snd (exec_batch sv connector_ddl s)" sv]
  by (auto simp: schema_defs split: process.splits prod.splits bool.splits)

lemma calm_started: "calm s \<Longrightarrow> calm (started sv ps s)"
  by (induction ps arbitrary: s) (simp_all add: started_def calm_start)




text \<open>A database from the time of the column \<^verbatim>\<open>kind\<close>.\<close>

definition demo_server :: server where "demo_server = \<lparr> sv_now = VStr ''now'', sv_fresh = VInt \<circ> int \<rparr>"

definition legacy_schema :: schema where
  "legacy_schema =
     [(''tenants'', new_table ''tenants'' [col ''id'' Uuid, col ''slug'' Text, col ''host'' Text] [''id''] []),
      (''tenant_connectors'', (new_table ''tenant_connectors'' [col ''tenant_id'' Uuid, col ''kind'' Text] [''tenant_id'', ''kind''] [])
         \<lparr> tb_touch := True, tb_rows := [[(''tenant_id'', Some (VStr ''t1'')), (''kind'', Some (VStr ''shopify''))]] \<rparr>)]"

lemma legacy_starts:
  "calm legacy_schema"
  "fst (start_process demo_server Public_Service legacy_schema)"
  "map (\<lambda>r. cell r ''connector_id'') (table_rows (snd (start_process demo_server Public_Service legacy_schema)) ''tenant_connectors'')
     = [Some (VStr ''shopify'')]"
  by code_simp+


section \<open>The order of starts\<close>

text \<open>The columns a text adds or creates.\<close>

fun added_columns :: "ddl \<Rightarrow> (string \<times> string) list" where
  "added_columns (AddColumn t c) = [(t, cl_name c)]"
| "added_columns _ = []"

definition declared :: "ddl list \<Rightarrow> string list \<Rightarrow> (string \<times> string) list" where
  "declared xs new = concat (map added_columns xs) @ concat (map (\<lambda>t. map (Pair t) (first_columns t xs)) new)"

definition provides :: "(string \<times> string) list \<Rightarrow> schema \<Rightarrow> bool" where
  "provides cs s \<longleftrightarrow> list_all (\<lambda>(t, c). has_column s t c) cs"

definition tenant_provides :: "(string \<times> string) list" where
  "tenant_provides = declared tenant_ddl [''connector_definitions'', ''connector_operations'']"

definition admin_provides :: "(string \<times> string) list" where
  "admin_provides = declared connector_ddl [] @ declared marketplace_ddl [''tenant_auth_configs'']"

lemma exec_all_provides:
  assumes "exec_all sv xs s = Some s'" "list_all (\<lambda>t. \<not> has_table s t) new"
  shows "provides (declared xs new) s'"
proof -
  have "has_column s' t c" if "(t, c) \<in> set (added_columns x)" "x \<in> set xs" for t c x
    using exec_all_adds [OF assms(1)] that by (cases x) auto
  moreover have "has_column s' t c" if "t \<in> set new" "c \<in> set (first_columns t xs)" for t c
    using exec_all_first_columns [OF assms(1) _ that(2)] assms(2) that(1) by (auto simp: list_all_iff)
  ultimately show ?thesis by (auto simp: provides_def declared_def list_all_iff)
qed

lemma repeatable_additive: "repeatable xs \<Longrightarrow> list_all additive xs"
  by (simp add: repeatable_def list_all_iff)

lemma grows_trans: "grows a b \<Longrightarrow> grows b c \<Longrightarrow> grows a c"
  by (auto simp: grows_def)

lemma schema_grows_trans: "schema_grows a b \<Longrightarrow> schema_grows b c \<Longrightarrow> schema_grows a c"
  unfolding schema_grows_def by (meson grows_trans)

lemma exec_all_schema_grows: "exec_all sv xs s = Some s' \<Longrightarrow> list_all additive xs \<Longrightarrow> schema_grows s s'"
  by (induction xs arbitrary: s) (auto split: option.splits intro: schema_grows_trans exec_ddl_grows)

lemma batch_grows: "repeatable xs \<Longrightarrow> schema_grows s (snd (exec_batch sv xs s))"
  by (auto simp: exec_batch_def split: option.splits intro: exec_all_schema_grows repeatable_additive)

lemma write_rows_grows: "schema_grows s (write_rows t rows s)"
  by (auto simp: write_rows_def schema_grows_def map_of_update grows_def split: option.splits)

lemma start_grows: "schema_grows s (snd (start_process sv p s))"
  using batch_grows [OF ddl_repeatable(1), of s sv] batch_grows [OF ddl_repeatable(2), of s sv]
    batch_grows [OF ddl_repeatable(3), of "snd (exec_batch sv connector_ddl s)" sv]
  by (auto simp: schema_defs split: process.splits prod.splits bool.splits intro: schema_grows_trans)

lemma happen_grows: "schema_grows s (happen sv e s)"
  by (cases e) (simp_all add: happen_def start_grows write_rows_grows)

lemma provides_grows: "provides cs s \<Longrightarrow> schema_grows s s' \<Longrightarrow> provides cs s'"
  by (auto simp: provides_def list_all_iff intro: schema_grows_columns)

lemma met_grows: "met s n \<Longrightarrow> schema_grows s s' \<Longrightarrow> met s' n"
proof (cases n)
  case (Columns t cs)
  then show "met s n \<Longrightarrow> schema_grows s s' \<Longrightarrow> met s' n"
    by (auto simp: met_def list_all_iff intro: schema_grows_columns)
next
  case (ConflictOn t cs)
  assume "met s n" "schema_grows s s'"
  then obtain tb tb' where "map_of s t = Some tb" "map_of s' t = Some tb'" "grows tb tb'"
    "set (tb_key tb) = set cs \<or> (\<exists>ix\<in>set (tb_uniques tb). set (ix_columns ix) = set cs)"
    using ConflictOn by (fastforce simp: met_def schema_grows_def list_ex_iff split: option.splits)
  then show "met s' n" using ConflictOn by (auto simp: met_def grows_def list_ex_iff)
qed

text \<open>No statement adds the legacy column or breaks the key; writing does not either.\<close>

lemma exec_all_keyed: "exec_all sv xs s = Some s' \<Longrightarrow> repeatable xs \<Longrightarrow> keyed s \<Longrightarrow> keyed s'"
  by (induction xs arbitrary: s) (auto split: option.splits simp: repeatable_def dest: keyed_kept)

lemma batch_keyed: "repeatable xs \<Longrightarrow> keyed s \<Longrightarrow> keyed (snd (exec_batch sv xs s))"
  by (auto simp: exec_batch_def split: option.splits intro: exec_all_keyed)

lemma happen_keyed: "keyed s \<Longrightarrow> keyed (happen sv e s)"
proof (cases e)
  case (Start p)
  moreover assume "keyed s"
  ultimately show ?thesis
    using batch_keyed [OF ddl_repeatable(1), of s sv] batch_keyed [OF ddl_repeatable(2), of s sv]
      batch_keyed [OF ddl_repeatable(3), of "snd (exec_batch sv connector_ddl s)" sv]
    by (auto simp: happen_def schema_defs split: process.splits prod.splits bool.splits)
next
  case (Write t rows)
  moreover assume "keyed s"
  ultimately show ?thesis
    by (auto simp: happen_def write_rows_def keyed_def keyed_table_def map_of_update rows_allowed_def split: option.splits)
qed


definition old_tables :: "string list" where "old_tables = [''tenants'', ''tenant_connectors'', ''connectors'']"

definition new_tables :: "string list" where
  "new_tables = [''connector_definitions'', ''connector_operations'', ''tenant_auth_configs'']"

definition before_public :: "schema \<Rightarrow> bool" where
  "before_public s \<longleftrightarrow> keyed s \<and> list_all (has_table s) old_tables \<and> list_all (\<lambda>t. \<not> has_table s t) new_tables"

definition all_needs :: "need list" where "all_needs = concat (map snd needs_table)"

lemma stmt_needs_all: "n \<in> set (stmt_needs st) \<Longrightarrow> n \<in> set all_needs"
proof (cases "map_of needs_table st")
  case (Some ns)
  then have "(st, ns) \<in> set needs_table" by (rule map_of_SomeD)
  then show "n \<in> set (stmt_needs st) \<Longrightarrow> n \<in> set all_needs"
    using Some by (force simp: stmt_needs_def all_needs_def)
qed (simp add: stmt_needs_def)

lemma migrated_before: "before_public (migrated sv)"
  by code_simp

text \<open>The columns a migrated database has, and what the texts add to it.\<close>

definition migrated_tables :: "string list" where
  "migrated_tables = [''tenants'', ''tenant_connectors'', ''connectors'', ''policies'', ''audit_log'', ''usage_events'', ''actions'',
     ''fact_resolvers'', ''fact_mappings'', ''policy_versions'', ''decisions'', ''executions'']"

definition initial_columns :: "string \<Rightarrow> string list" where
  "initial_columns t =
     (if t \<in> set migrated_tables then first_columns t migrations
      else if t = ''tenant_auth_configs'' then first_columns t marketplace_ddl else first_columns t tenant_ddl)"

definition all_added :: "(string \<times> string) list" where
  "all_added = concat (map added_columns (migration_0003 @ migration_0004 @ tenant_ddl @ connector_ddl @ marketplace_ddl))"

definition known_columns :: "string \<Rightarrow> string list" where
  "known_columns t = initial_columns t @ map snd (filter (\<lambda>k. fst k = t) all_added)"

definition columns_needed :: "string \<Rightarrow> string list" where
  "columns_needed t = remdups (concat (map (\<lambda>n. case n of Columns t' cs \<Rightarrow> if t' = t then cs else [] | ConflictOn t' cs \<Rightarrow> [])
     all_needs))"

lemma needed_known:
  "list_all (\<lambda>t. list_all (\<lambda>c. c \<in> set (known_columns t)) (columns_needed t)) (migrated_tables @ new_tables)"
  by code_simp

definition conflict_needs :: "need list" where
  "conflict_needs = filter (\<lambda>n. case n of Columns t cs \<Rightarrow> False | ConflictOn t cs \<Rightarrow> True) all_needs"

lemma migrated_conflicts: "list_all (met (migrated sv)) conflict_needs"
  by code_simp

lemma migrated_old: "list_all (has_table (migrated sv)) migrated_tables"
  by code_simp

lemma tables_needed:
  "list_all (\<lambda>n. case n of Columns t cs \<Rightarrow> t \<in> set (migrated_tables @ new_tables) | ConflictOn t cs \<Rightarrow> True)
     all_needs"
  by code_simp

lemma runnable_texts:
  "runnable old_tables tenant_ddl" "runnable old_tables connector_ddl"
  "runnable (''connector_definitions'' # ''connector_operations'' # old_tables) marketplace_ddl"
  by code_simp+

lemma public_creates: "list_all (\<lambda>t. t \<in> set (concat (map created tenant_ddl))) [''connector_definitions'', ''connector_operations'']"
  "\<not> list_ex (\<lambda>t. t \<in> set (concat (map created tenant_ddl))) [''tenant_auth_configs'']"
  "\<not> list_ex (\<lambda>t. t \<in> set (concat (map created connector_ddl))) new_tables"
  "''connector_definitions'' \<notin> set (concat (map created marketplace_ddl))"
  "AddColumn ''connector_definitions'' (col ''title'' Text) \<in> set marketplace_ddl"
  by code_simp+


lemma batch_succeeds:
  assumes "runnable T xs" "keyed s" "list_all (has_table s) T"
  shows "\<exists>s'. exec_batch sv xs s = (True, s') \<and> exec_all sv xs s = Some s' \<and> keyed s'"
  using runnable_succeeds [OF assms, of sv] by (auto simp: exec_batch_def)

text \<open>Before a public service was started.\<close>

lemma admin_before:
  assumes "before_public s"
  shows "\<not> fst (start_process sv Admin_API s)" "before_public (snd (start_process sv Admin_API s))"
proof -
  obtain s1 where s1: "exec_batch sv connector_ddl s = (True, s1)" "exec_all sv connector_ddl s = Some s1" "keyed s1"
    using batch_succeeds [OF runnable_texts(2), of s sv] assms by (auto simp: before_public_def)
  have old: "list_all (has_table s1) old_tables"
    using assms exec_all_tables [OF s1(2)] by (auto simp: before_public_def list_all_iff)
  have new: "list_all (\<lambda>t. \<not> has_table s1 t) new_tables"
    using assms exec_all_tables [OF s1(2)] public_creates(3) by (auto simp: before_public_def list_all_iff list_ex_iff)
  have "exec_all sv marketplace_ddl s1 = None"
    using exec_all_needs [of sv marketplace_ddl s1 _ "''connector_definitions''", OF _ public_creates(5)] public_creates(4) new
    by (cases "exec_all sv marketplace_ddl s1") (auto simp: new_tables_def simp del: set_concat)
  then have "start_process sv Admin_API s = (False, s1)" using s1(1) by (simp add: schema_defs exec_batch_def)
  then show "\<not> fst (start_process sv Admin_API s)" "before_public (snd (start_process sv Admin_API s))"
    using s1(3) old new by (simp_all add: before_public_def)
qed

text \<open>After one was.\<close>

definition after_public :: "schema \<Rightarrow> bool" where
  "after_public s \<longleftrightarrow> keyed s \<and> list_all (has_table s) old_tables \<and> provides tenant_provides s"

lemma after_public_happen: "after_public s \<Longrightarrow> after_public (happen sv e s)"
  using happen_grows [of s sv e]
  by (auto simp: after_public_def happen_keyed list_all_iff intro: schema_grows_columns(1) provides_grows)

lemma public_before:
  assumes "before_public s"
  shows "after_public (snd (start_process sv Public_Service s))"
    "\<not> has_table (snd (start_process sv Public_Service s)) ''tenant_auth_configs''"
proof -
  obtain s' where s': "exec_batch sv tenant_ddl s = (True, s')" "exec_all sv tenant_ddl s = Some s'" "keyed s'"
    using batch_succeeds [OF runnable_texts(1), of s sv] assms by (auto simp: before_public_def)
  have "list_all (has_table s') old_tables"
    using assms exec_all_tables [OF s'(2)] by (auto simp: before_public_def list_all_iff)
  moreover have "provides tenant_provides s'"
    using exec_all_provides [OF s'(2)] assms by (simp add: tenant_provides_def before_public_def new_tables_def)
  ultimately show "after_public (snd (start_process sv Public_Service s))"
    using s' by (simp add: schema_defs after_public_def)
  show "\<not> has_table (snd (start_process sv Public_Service s)) ''tenant_auth_configs''"
    using assms exec_all_tables [OF s'(2)] public_creates(2) s'(1)
    by (simp add: schema_defs before_public_def new_tables_def)
qed

lemma provides_table: "provides cs s \<Longrightarrow> t \<in> set (map fst cs) \<Longrightarrow> has_table s t"
  by (auto simp: provides_def list_all_iff has_column_map_of has_table_map_of)

lemma tenant_provides_tables:
  "list_all (\<lambda>t. t \<in> set (map fst tenant_provides)) [''connector_definitions'', ''connector_operations'']"
  "''tenant_auth_configs'' \<in> set (map fst admin_provides)"
  by code_simp+

lemma admin_after:
  assumes "after_public s"
  shows "fst (start_process sv Admin_API s)"
    "has_table s ''tenant_auth_configs'' \<or> provides admin_provides (snd (start_process sv Admin_API s))"
proof -
  obtain s1 where s1: "exec_batch sv connector_ddl s = (True, s1)" "exec_all sv connector_ddl s = Some s1" "keyed s1"
    using batch_succeeds [OF runnable_texts(2), of s sv] assms by (auto simp: after_public_def)
  have "list_all (has_table s1) (''connector_definitions'' # ''connector_operations'' # old_tables)"
    using assms exec_all_tables [OF s1(2)] tenant_provides_tables(1)
    by (auto simp: after_public_def list_all_iff simp del: set_map intro: provides_table)
  from batch_succeeds [OF runnable_texts(3) s1(3) this] obtain s2 where
    s2: "exec_batch sv marketplace_ddl s1 = (True, s2)" "exec_all sv marketplace_ddl s1 = Some s2" by blast
  have start: "start_process sv Admin_API s = (True, s2)" using s1(1) s2(1) by (simp add: schema_defs)
  have "provides (declared connector_ddl []) s2"
    using provides_grows [OF exec_all_provides [OF s1(2), of "[]"]] batch_grows [OF ddl_repeatable(3), of s1 sv] s2(1)
    by simp
  moreover have "provides (declared marketplace_ddl [''tenant_auth_configs'']) s2" if "\<not> has_table s ''tenant_auth_configs''"
    using exec_all_provides [OF s2(2)] that exec_all_tables [OF s1(2)] public_creates(3)
    by (simp add: list_ex_iff new_tables_def)
  ultimately show "fst (start_process sv Admin_API s)"
    "has_table s ''tenant_auth_configs'' \<or> provides admin_provides (snd (start_process sv Admin_API s))"
    using start by (auto simp: provides_def admin_provides_def)
qed

text \<open>Every history is in one of the two states.\<close>

definition reached :: "event list \<Rightarrow> schema \<Rightarrow> bool" where
  "reached es s \<longleftrightarrow>
     (if Start Public_Service \<in> set es
      then after_public s \<and> (has_table s ''tenant_auth_configs'' \<longrightarrow> provides admin_provides s) else before_public s)"

lemma write_rows_tables: "has_table (write_rows t rows s) t' = has_table s t'"
  by (auto simp: write_rows_def has_table_map_of map_of_update split: option.splits)

lemma public_no_auth: "has_table (snd (start_process sv Public_Service s)) ''tenant_auth_configs'' \<Longrightarrow> has_table s ''tenant_auth_configs''"
  using exec_all_tables [of sv tenant_ddl s _ "''tenant_auth_configs''"] public_creates(2)
  by (auto simp: schema_defs exec_batch_def split: option.splits)

lemma reached_step:
  assumes "reached es s"
  shows "reached (es @ [e]) (happen sv e s)"
proof (cases "Start Public_Service \<in> set es")
  case True
  then have s: "after_public s" "has_table s ''tenant_auth_configs'' \<longrightarrow> provides admin_provides s"
    using assms by (simp_all add: reached_def)
  have "provides admin_provides (happen sv e s)" if t: "has_table (happen sv e s) ''tenant_auth_configs''"
  proof (cases "has_table s ''tenant_auth_configs''")
    case False
    have "e = Start Admin_API"
    proof (cases e)
      case (Start p)
      then show ?thesis using t False public_no_auth [of sv s] by (cases p) (simp_all add: happen_def)
    qed (use t False in \<open>simp add: happen_def write_rows_tables\<close>)
    then show ?thesis using admin_after(2) [OF s(1), of sv] False by (simp add: happen_def)
  qed (use s happen_grows in \<open>auto intro: provides_grows\<close>)
  then show ?thesis using True s(1) by (simp add: reached_def after_public_happen)
next
  case False
  then have s: "before_public s" using assms by (simp add: reached_def)
  show ?thesis
  proof (cases "e = Start Public_Service")
    case True
    then show ?thesis using public_before [OF s, of sv] by (simp add: reached_def happen_def)
  next
    case e: False
    have "before_public (happen sv e s)"
    proof (cases e)
      case (Start p)
      then have "p = Admin_API" using e by (cases p) auto
      then show ?thesis using Start admin_before(2) [OF s] by (simp add: happen_def)
    next
      case (Write t rows)
      then show ?thesis using s happen_keyed [of s sv e]
        by (simp add: before_public_def happen_def write_rows_tables list_all_iff)
    qed
    then show ?thesis using False e by (simp add: reached_def)
  qed
qed

lemma history_reached: "reached es (history sv es (migrated sv))"
proof (induction es rule: rev_induct)
  case Nil
  show ?case using migrated_before by (simp add: reached_def history_def)
next
  case (snoc e es)
  then show ?case using reached_step by (simp add: history_def)
qed

text \<open>C28: The admin process starts only after a public service.  On a migrated database, after any history of starts
  and of changes of rows, its schema statements succeed exactly if one of the public services was started before:
  the tables it alters are in no migration.\<close>

theorem admin_starts_iff:
  "fst (start_process sv Admin_API (history sv es (migrated sv))) \<longleftrightarrow> Start Public_Service \<in> set es"
  using history_reached [of es sv] admin_before(1) admin_after(1)
  by (cases "Start Public_Service \<in> set es") (simp_all add: reached_def)


lemma migrated_provides: "provides (declared migrations migrated_tables) (migrated sv)"
proof -
  obtain m where m: "exec_all sv migrations [] = Some m" "migrated sv = m"
    using migrated_before [of sv]
    by (cases "exec_all sv migrations []") (auto simp: migrated_def exec_batch_def before_public_def keyed_def)
  then show ?thesis using exec_all_provides [OF m(1)] by (simp add: has_table_def list_all_iff)
qed

lemma declared_added: "k \<in> set (concat (map added_columns xs)) \<Longrightarrow> k \<in> set (declared xs new)"
  by (simp add: declared_def)

lemma declared_first: "c \<in> set (first_columns t xs) \<Longrightarrow> t \<in> set new \<Longrightarrow> (t, c) \<in> set (declared xs new)"
  by (auto simp: declared_def)

lemma initial_columns_declared:
  assumes "t \<in> set (migrated_tables @ new_tables)" "c \<in> set (initial_columns t)"
  shows "(t, c) \<in> set (declared migrations migrated_tables @ tenant_provides @ admin_provides)"
proof -
  consider "t \<in> set migrated_tables" | "t = ''tenant_auth_configs''" "t \<notin> set migrated_tables"
    | "t \<in> set [''connector_definitions'', ''connector_operations'']" "t \<notin> set migrated_tables" "t \<noteq> ''tenant_auth_configs''"
    using assms(1) by (auto simp: new_tables_def)
  then show ?thesis
    using assms(2)
    by cases (simp_all only: initial_columns_def if_True if_False simp_thms declared_first tenant_provides_def admin_provides_def
        set_append Un_iff list.set insert_iff)
qed

lemma all_added_declared:
  assumes "k \<in> set all_added"
  shows "k \<in> set (declared migrations migrated_tables @ tenant_provides @ admin_provides)"
proof -
  have "k \<in> set (concat (map added_columns migrations)) \<or> k \<in> set (concat (map added_columns tenant_ddl))
      \<or> k \<in> set (concat (map added_columns connector_ddl)) \<or> k \<in> set (concat (map added_columns marketplace_ddl))"
    using assms unfolding all_added_def migrations_def by auto
  then show ?thesis unfolding tenant_provides_def admin_provides_def set_append Un_iff using declared_added by blast
qed

lemma known_columns_declared:
  assumes "t \<in> set (migrated_tables @ new_tables)" "c \<in> set (known_columns t)"
  shows "(t, c) \<in> set (declared migrations migrated_tables @ tenant_provides @ admin_provides)"
proof -
  have "c \<in> set (initial_columns t) \<or> (t, c) \<in> set all_added"
    using assms(2) unfolding known_columns_def by auto
  then show ?thesis using initial_columns_declared [OF assms(1)] all_added_declared by blast
qed

lemma columns_met:
  assumes "Columns t cs \<in> set all_needs" "schema_grows (migrated sv) s"
    and "provides tenant_provides s" "provides admin_provides s"
  shows "met s (Columns t cs)"
proof -
  have t: "t \<in> set (migrated_tables @ new_tables)" using tables_needed assms(1) unfolding list_all_iff by fastforce
  have "has_table s t"
  proof (cases "t \<in> set migrated_tables")
    case True
    then show ?thesis using migrated_old [of sv] assms(2) by (auto simp: list_all_iff intro: schema_grows_columns(1))
  next
    case False
    then have "t \<in> set [''connector_definitions'', ''connector_operations''] \<or> t = ''tenant_auth_configs''"
      using t by (auto simp: new_tables_def)
    then show ?thesis using tenant_provides_tables provides_table [OF assms(3)] provides_table [OF assms(4)]
      unfolding list_all_iff by blast
  qed
  moreover have "has_column s t c" if "c \<in> set cs" for c
  proof -
    have "c \<in> set (columns_needed t)" using that assms(1) unfolding columns_needed_def by fastforce
    then have "(t, c) \<in> set (declared migrations migrated_tables @ tenant_provides @ admin_provides)"
      using needed_known t known_columns_declared unfolding list_all_iff by blast
    then show ?thesis
      using provides_grows [OF migrated_provides assms(2)] assms(3,4) unfolding provides_def list_all_iff by fastforce
  qed
  ultimately show ?thesis by (simp add: met_def list_all_iff)
qed




text \<open>On such a database connector records cannot be listed, whatever was written.\<close>

theorem list_tenant_connectors_fails: "ListTenantConnectors (history sv es (migrated sv)) tid = None"
proof -
  have "keyed (history sv es (migrated sv))"
    using history_reached [of es sv] by (auto simp: reached_def after_public_def before_public_def split: if_splits)
  then have "\<not> has_column (history sv es (migrated sv)) ''tenant_connectors'' ''kind''"
    by (auto simp: keyed_def keyed_table_def has_column_map_of split: option.splits)
  then show ?thesis by (simp add: ListTenantConnectors_def met_def)
qed

end
