(* ===== verification/Admin_Server.thy ===== *)
theory Admin_Server
  imports Admin Services Tables
begin

text \<open>
  The admin process: the route table of \<^verbatim>\<open>internal/adminapi/server.go\<close>, the middlewares in front of it and
  the dispatch to the handlers.  A call is a route with its parameters and its decoded body; running it
  gives the answer, the new database and the requests sent.
\<close>

section \<open>Surroundings\<close>

text \<open>Libraries, clocks and identifiers as the handlers use them, and the orders in which the server lists rows.\<close>

record orders =
  lo_audit :: "audit_row list \<Rightarrow> audit_row list"
  lo_auth :: "auth_config_row list \<Rightarrow> auth_config_row list"
  lo_definitions :: "definition_row list \<Rightarrow> definition_row list"
  lo_configured :: "configured list \<Rightarrow> configured list"
  lo_operations :: "operation_row list \<Rightarrow> operation_row list"
  lo_usage :: "(int \<times> string) list \<Rightarrow> (int \<times> string) list"
  lo_coverage :: "(string \<times> string option) list \<Rightarrow> (string \<times> string option) list"
  lo_status :: "string list \<Rightarrow> string list"
  lo_actions :: "action_row list \<Rightarrow> action_row list"
  lo_resolvers :: "resolver_row list \<Rightarrow> resolver_row list"
  lo_mappings :: "mapping_row list \<Rightarrow> mapping_row list"
  lo_connectors :: "connector_row list \<Rightarrow> connector_row list"

record admin_env =
  ae_env :: environ
  ae_rt :: runtime
  ae_is_uuid :: "string \<Rightarrow> bool"
  ae_vault :: vault
  ae_fresh :: "nat \<Rightarrow> string"
  ae_compile :: "string \<Rightarrow> string option"
  ae_search :: jmes
  ae_rego :: rego
  ae_net :: network
  ae_clk :: clock
  ae_now :: int
  ae_show :: "int \<Rightarrow> string"
  ae_created :: "decision_row \<Rightarrow> int"
  ae_day :: "int \<Rightarrow> int"
  ae_ilike :: "string \<Rightarrow> string \<Rightarrow> bool"
  ae_order :: orders

section \<open>Calls\<close>

datatype admin_call =
    GetTenantSelf | PutTenantOIDC "OIDCBody option"
  | GetRegistry string string | PutRegistry string "ConnectorSpec option"
  | PutConnector string "ConnectorBody option" | PutPoliciesCall "PoliciesBody option"
  | GetAuditLog | GetDecisions string string
  | GetAuth | PostAuth "AuthBody option" | PutAuth string "AuthBody option" | DropAuth string
  | GetConnectors | GetConfigured | PostConnector "CustomConnectorBody option"
  | GetCustom string | PutCustom string "CustomConnectorBody option" | PutOperation string string "bool option" | GetOperations string
  | GetUsage
  | GetVersions string | GetVersion string string | GetActive string | PostVersion "PolicyVersionBody option"
  | PostPublish string string | PostCompile "string option" | PostDryRun "DryRunBody option" | PostTestExecute "TestExecuteBody option"
  | GetCoverage | GetSummary
  | GetActions | PutAction string "UpsertActionBody option"
  | GetResolvers string | PutResolver string string "UpsertResolverBody option" | DropResolver string string
  | GetMappings string | PutMapping string string "UpsertMappingBody option" | DropMapping string string

datatype admin_reply = Reply admin_response | Tested test_response | Recovered

definition reading :: "db \<Rightarrow> admin_response \<Rightarrow> admin_reply \<times> db \<times> http_request list" where
  "reading d resp = (Reply resp, d, [])"

definition editing :: "admin_response \<times> db \<Rightarrow> admin_reply \<times> db \<times> http_request list" where
  "editing x = (Reply (fst x), snd x, [])"

definition testing :: "db \<Rightarrow> (admin_response + test_response) \<times> db option \<times> http_request list \<Rightarrow> admin_reply \<times> db \<times> http_request list" where
  "testing d x = (case x of (resp, d', sent) \<Rightarrow>
     ((case resp of Inl e \<Rightarrow> Reply e | Inr t \<Rightarrow> Tested t), (case d' of None \<Rightarrow> d | Some e \<Rightarrow> e), sent))"

primrec run_call :: "admin_env \<Rightarrow> db \<Rightarrow> string \<Rightarrow> admin_call \<Rightarrow> admin_reply \<times> db \<times> http_request list" where
  "run_call e d tid GetTenantSelf = reading d (getTenantSelf d tid)"
| "run_call e d tid (PutTenantOIDC b) = editing (putTenantOIDC d tid b)"
| "run_call e d tid (GetRegistry q cat) = reading d (getRegistry (lo_connectors (ae_order e)) (ae_ilike e) d tid q cat)"
| "run_call e d tid (PutRegistry i b) = editing (upsertConnector d i b)"
| "run_call e d tid (PutConnector i b) = editing (putTenantConnector (ae_vault e) d tid i b)"
| "run_call e d tid (PutPoliciesCall b) = editing (putPolicies d tid b)"
| "run_call e d tid GetAuditLog = reading d (getAudit (ae_show e) (lo_audit (ae_order e)) d tid)"
| "run_call e d tid (GetDecisions limit after) = reading d (listDecisions (ae_rt e) (ae_show e) (ae_created e) d tid limit after)"
| "run_call e d tid GetAuth = reading d (listAuth (lo_auth (ae_order e)) d tid)"
| "run_call e d tid (PostAuth b) = editing (createAuth (ae_vault e) (ae_fresh e 0) d tid b)"
| "run_call e d tid (PutAuth i b) = editing (updateAuth (ae_vault e) d tid i b)"
| "run_call e d tid (DropAuth i) = editing (deleteAuth d tid i)"
| "run_call e d tid GetConnectors = reading d (listTenantConnectors (lo_definitions (ae_order e)) d tid)"
| "run_call e d tid GetConfigured = reading d (listConfiguredConnectors (lo_configured (ae_order e)) d tid)"
| "run_call e d tid (PostConnector b) = editing (createCustomConnector (ae_is_uuid e) (ae_fresh e) d tid b)"
| "run_call e d tid (GetCustom i) = reading d (getCustomConnector (lo_operations (ae_order e)) d tid i)"
| "run_call e d tid (PutCustom i b) = editing (updateCustomConnector (ae_is_uuid e) (ae_fresh e) d tid i b)"
| "run_call e d tid (PutOperation i op b) = editing (putConnectorAction d tid i op b)"
| "run_call e d tid (GetOperations i) = reading d (listConnectorActions (lo_operations (ae_order e)) d tid i)"
| "run_call e d tid GetUsage = reading d (getUsageSummary (ae_show e) (ae_day e) (lo_usage (ae_order e)) d tid)"
| "run_call e d tid (GetVersions k) = reading d (listPolicyVersions d tid k)"
| "run_call e d tid (GetVersion k v) = reading d (getPolicyVersion d tid k v)"
| "run_call e d tid (GetActive k) = reading d (getActivePolicy d tid k)"
| "run_call e d tid (PostVersion b) = editing (createPolicyVersion (ae_compile e) d tid b)"
| "run_call e d tid (PostPublish k v) = editing (publishPolicyVersion d tid k v)"
| "run_call e d tid (PostCompile b) = reading d (compilePolicy (ae_compile e) b)"
| "run_call e d tid (PostDryRun b) = reading d (dryRunPolicy (ae_rt e) (ae_search e) (ae_rego e) (ae_clk e) d tid b)"
| "run_call e d tid (PostTestExecute b) = testing d (testExecutePolicy (ae_env e) (ae_rt e) (ae_search e) (ae_rego e) (ae_net e)
     (ae_clk e) (ae_now e) (ae_fresh e 0) d tid b)"
| "run_call e d tid GetCoverage = reading d (getActionsCoverage (lo_coverage (ae_order e)) d tid)"
| "run_call e d tid GetSummary = reading d (getActionsSummary (ae_created e) (ae_now e) (lo_status (ae_order e)) d tid)"
| "run_call e d tid GetActions = reading d (listActions (lo_actions (ae_order e)) d tid)"
| "run_call e d tid (PutAction k b) = editing (upsertAction d tid k b)"
| "run_call e d tid (GetResolvers k) = reading d (listResolvers (lo_resolvers (ae_order e)) d tid k)"
| "run_call e d tid (PutResolver k n b) = editing (upsertResolver (ae_fresh e 0) d tid k n b)"
| "run_call e d tid (DropResolver k n) = editing (deleteResolver d tid k n)"
| "run_call e d tid (GetMappings k) = reading d (listMappings (lo_mappings (ae_order e)) d tid k)"
| "run_call e d tid (PutMapping k n b) = editing (upsertMapping (ae_fresh e 0) d tid k n b)"
| "run_call e d tid (DropMapping k n) = editing (deleteMapping d tid k n)"

section \<open>Routes\<close>

text \<open>Decoding of request bodies: \<^const>\<open>None\<close> is malformed JSON.\<close>

record admin_bodies =
  bd_oidc :: "string \<Rightarrow> OIDCBody option"
  bd_spec :: "string \<Rightarrow> ConnectorSpec option"
  bd_connector :: "string \<Rightarrow> ConnectorBody option"
  bd_policies :: "string \<Rightarrow> PoliciesBody option"
  bd_auth :: "string \<Rightarrow> AuthBody option"
  bd_custom :: "string \<Rightarrow> CustomConnectorBody option"
  bd_enabled :: "string \<Rightarrow> bool option"
  bd_version :: "string \<Rightarrow> PolicyVersionBody option"
  bd_code :: "string \<Rightarrow> string option"
  bd_dry_run :: "string \<Rightarrow> DryRunBody option"
  bd_test :: "string \<Rightarrow> TestExecuteBody option"
  bd_action :: "string \<Rightarrow> UpsertActionBody option"
  bd_resolver :: "string \<Rightarrow> UpsertResolverBody option"
  bd_mapping :: "string \<Rightarrow> UpsertMappingBody option"

text \<open>The table of the routes below \<^verbatim>\<open>/admin\<close> in the order they are registered: method, pattern and call, given the
  parameters \<open>u\<close> of the matched pattern and the parameters \<open>q\<close> of the query.\<close>

definition admin_table ::
  "admin_bodies \<Rightarrow> (string \<Rightarrow> string) \<Rightarrow> (string \<Rightarrow> string) \<Rightarrow> string \<Rightarrow> (string \<times> string \<times> admin_call) list" where
  "admin_table b u q body =
     [(''GET'', ''/admin/tenant/self'', GetTenantSelf),
       (''PUT'', ''/admin/tenant/oidc'', PutTenantOIDC (bd_oidc b body)),
       (''GET'', ''/admin/registry/connectors'', GetRegistry (q ''q'') (q ''category'')),
       (''PUT'', ''/admin/registry/connectors/{id}'', PutRegistry (u ''id'') (bd_spec b body)),
       (''PUT'', ''/admin/tenant/connectors/{connectorId}'', PutConnector (u ''connectorId'') (bd_connector b body)),
       (''PUT'', ''/admin/tenant/policies'', PutPoliciesCall (bd_policies b body)),
       (''GET'', ''/admin/audit'', GetAuditLog),
       (''GET'', ''/admin/decisions'', GetDecisions (q ''limit'') (q ''after'')),
       (''GET'', ''/admin/auth'', GetAuth),
       (''POST'', ''/admin/auth'', PostAuth (bd_auth b body)),
       (''PUT'', ''/admin/auth/{id}'', PutAuth (u ''id'') (bd_auth b body)),
       (''DELETE'', ''/admin/auth/{id}'', DropAuth (u ''id'')),
       (''GET'', ''/admin/tenant/connectors'', GetConnectors),
       (''GET'', ''/admin/tenant/configured-connectors'', GetConfigured),
       (''POST'', ''/admin/tenant/connectors'', PostConnector (bd_custom b body)),
       (''GET'', ''/admin/tenant/custom-connectors/{id}'', GetCustom (u ''id'')),
       (''PUT'', ''/admin/tenant/custom-connectors/{id}'', PutCustom (u ''id'') (bd_custom b body)),
       (''PUT'', ''/admin/tenant/custom-connectors/{id}/actions/{opId}'', PutOperation (u ''id'') (u ''opId'') (bd_enabled b body)),
       (''GET'', ''/admin/tenant/custom-connectors/{id}/actions'', GetOperations (u ''id'')),
       (''GET'', ''/admin/usage/summary'', GetUsage),
       (''GET'', ''/admin/policies/versions'', GetVersions (q ''action_key'')),
       (''GET'', ''/admin/policies/versions/{version}'', GetVersion (q ''action_key'') (u ''version'')),
       (''GET'', ''/admin/policies/active'', GetActive (q ''action_key'')),
       (''POST'', ''/admin/policies/versions'', PostVersion (bd_version b body)),
       (''POST'', ''/admin/policies/versions/{version}/publish'', PostPublish (q ''action_key'') (u ''version'')),
       (''POST'', ''/admin/policies/compile'', PostCompile (bd_code b body)),
       (''POST'', ''/admin/policies/dry-run'', PostDryRun (bd_dry_run b body)),
       (''POST'', ''/admin/policies/test-execute'', PostTestExecute (bd_test b body)),
       (''GET'', ''/admin/actions/coverage'', GetCoverage),
       (''GET'', ''/admin/actions/summary'', GetSummary),
       (''GET'', ''/admin/actions'', GetActions),
       (''PUT'', ''/admin/actions/{key}'', PutAction (u ''key'') (bd_action b body)),
       (''GET'', ''/admin/actions/{key}/resolvers'', GetResolvers (u ''key'')),
       (''PUT'', ''/admin/actions/{key}/resolvers/{name}'', PutResolver (u ''key'') (u ''name'') (bd_resolver b body)),
       (''DELETE'', ''/admin/actions/{key}/resolvers/{name}'', DropResolver (u ''key'') (u ''name'')),
       (''GET'', ''/admin/actions/{key}/mappings'', GetMappings (u ''key'')),
       (''PUT'', ''/admin/actions/{key}/mappings/{name}'', PutMapping (u ''key'') (u ''name'') (bd_mapping b body)),
       (''DELETE'', ''/admin/actions/{key}/mappings/{name}'', DropMapping (u ''key'') (u ''name''))]"

record 'k admin_site =
  am_env :: admin_env
  am_bodies :: admin_bodies
  am_app :: "'k admin_app"
  am_parse :: "'k admin_parser"
  am_chi :: chi
  am_params :: "string \<Rightarrow> string \<Rightarrow> string \<Rightarrow> string"

definition admin_routes :: "(string \<times> string) list" where
  "admin_routes = map (\<lambda>(m, p, _). (m, p))
     (admin_table \<lparr> bd_oidc = \<lambda>_. None, bd_spec = \<lambda>_. None, bd_connector = \<lambda>_. None, bd_policies = \<lambda>_. None, bd_auth = \<lambda>_. None,
        bd_custom = \<lambda>_. None, bd_enabled = \<lambda>_. None, bd_version = \<lambda>_. None, bd_code = \<lambda>_. None, bd_dry_run = \<lambda>_. None,
        bd_test = \<lambda>_. None, bd_action = \<lambda>_. None, bd_resolver = \<lambda>_. None, bd_mapping = \<lambda>_. None \<rparr> (\<lambda>_. []) (\<lambda>_. []) [])"

definition admin_call_of :: "'k admin_site \<Rightarrow> (string \<Rightarrow> string) \<Rightarrow> string \<Rightarrow> string \<Rightarrow> nat \<Rightarrow> admin_call" where
  "admin_call_of s q path body i =
     snd (snd (admin_table (am_bodies s) (am_params s (snd (admin_routes ! i)) path) q body ! i))"

text \<open>One request: the health check is outside of \<^verbatim>\<open>/admin\<close>; below it, cross-origin requests and authentication come first,
  also for paths that have no route.  A panic is answered by the recovery of the router library.\<close>

definition admin_service ::
  "'k admin_site \<Rightarrow> db \<Rightarrow> (string \<Rightarrow> string) \<Rightarrow> http_in \<Rightarrow> string \<Rightarrow> admin_reply \<times> db \<times> http_request list" where
  "admin_service s d q r body =
     (if hi_path r = ''/healthz''
      then reading d (if hi_method r = ''GET'' then AJson 200 [(''ok'', VBool True)] else AEmpty 405)
      else if hi_path r \<noteq> ''/admin'' \<and> \<not> has_prefix ''/admin/'' (hi_path r) then reading d (AEmpty 404)
      else if snd (cors (allowed_origins (ae_env (am_env s))) r) then reading d (AEmpty 204)
      else (case adminAuth (ae_rt (am_env s)) (ae_is_uuid (am_env s)) (am_parse s) (am_app s) d r of
              ARespond resp \<Rightarrow> reading d resp
            | APanic \<Rightarrow> (Recovered, d, [])
            | APass tid \<Rightarrow>
                (case am_chi s admin_routes (hi_method r) (hi_path r) of
                   Route i \<Rightarrow> run_call (am_env s) d tid (admin_call_of s q (hi_path r) body i)
                 | NoRoute st \<Rightarrow> reading d (AEmpty st)
                 | RoutePanic \<Rightarrow> (Recovered, d, []))))"

section \<open>Start of the process\<close>

record admin_config =
  af_addr :: string
  af_issuer :: string
  af_aud :: string
  af_jwks_url :: string
  af_dir :: string
  af_key :: string

definition admin_main :: "environ \<Rightarrow> admin_config" where
  "admin_main env = \<lparr> af_addr = (if trim_space (env ''ADMIN_HTTP_ADDR'') = [] then '':8082'' else env ''ADMIN_HTTP_ADDR''),
     af_issuer = env ''ADMIN_OIDC_ISSUER'', af_aud = env ''ADMIN_OIDC_AUDIENCE'', af_jwks_url = env ''ADMIN_JWKS_URL'',
     af_dir = env ''REGISTRY_DIR'', af_key = env ''ENCRYPTION_KEY'' \<rparr>"

text \<open>The application: the key set is fetched once (a failure is a panic), the schemas must be created, then the catalogue is
  filled.\<close>

datatype 'k start = Panicked | Fatal | Running "'k admin_app" string db

definition new_app ::
  "(string \<Rightarrow> 'k option) \<Rightarrow> decoder \<Rightarrow> decoder \<Rightarrow> (string \<times> string option) list \<Rightarrow> db \<Rightarrow> admin_config \<Rightarrow> 'k start" where
  "new_app fetch js ya files d cfg =
     (if af_jwks_url cfg \<noteq> [] \<and> fetch (af_jwks_url cfg) = None then Panicked
      else if faults d ConnectorSchema \<or> faults d MarketplaceSchema then Fatal
      else Running \<lparr> ap_jwks = (if af_jwks_url cfg = [] then None else fetch (af_jwks_url cfg)), ap_issuer = af_issuer cfg, ap_aud = af_aud cfg \<rparr>
             (af_key cfg) (startup js ya (af_dir cfg) files d))"

text \<open>A migrated database on which no public service has run yet ends the process, however often it is started.\<close>

lemma admin_waits_for_public:
  assumes "Start Public_Service \<notin> set es" "\<And>st. schema_faults sv (history sv es (migrated sv)) st \<Longrightarrow> faults d st"
    and "af_jwks_url cfg = [] \<or> fetch (af_jwks_url cfg) \<noteq> None"
  shows "new_app fetch js ya files d cfg = Fatal"
proof -
  let ?s = "history sv es (migrated sv)"
  have "\<not> fst (start_process sv Admin_API ?s)"
    using admin_before(1) [of ?s sv] history_reached [of es sv] assms(1) by (simp add: reached_def)
  then have "schema_faults sv ?s ConnectorSchema \<or> schema_faults sv ?s MarketplaceSchema"
    by (auto simp: schema_faults_def start_process_def split: prod.splits bool.splits)
  then show ?thesis using assms(2,3) by (auto simp: new_app_def)
qed

text \<open>With a key set URL the process runs with a key set, so that every caller needs a token.\<close>

lemma new_app_keys:
  "new_app fetch js ya files d cfg = Running app key d' \<Longrightarrow> (ap_jwks app = None) = (af_jwks_url cfg = [])"
  by (auto simp: new_app_def split: if_splits)

text \<open>Without a key set URL everybody is an administrator.  If \<^verbatim>\<open>ADMIN_JWKS_URL\<close> is not set, whatever the other
  settings, every request that names a tenant in its header passes the authentication for that tenant.\<close>

theorem admin_open_without_keys:
  assumes "new_app fetch js ya files d (admin_main env) = Running app key d'" "env ''ADMIN_JWKS_URL'' = []"
    and "hi_method r \<noteq> ''OPTIONS''" "trim_space (header_get (hi_headers r) ''X-Tenant-ID'') = tid" "tid \<noteq> []" "is_uuid tid"
  shows "adminAuth rt is_uuid parse app d' r = APass tid"
  using assms by (auto simp: new_app_def admin_main_def adminAuth_def dev_auth_def for_tenant_def resolve_tid_def split: if_splits)

theorem admin_open_without_keys_witness:
  "\<exists>app key d'. new_app (\<lambda>_. None) (\<lambda>_. Inl []) (\<lambda>_. Inl []) [] empty_db (admin_main (\<lambda>_. [])) = Running (app :: unit admin_app) key d'
     \<and> adminAuth demo_rt (\<lambda>_. True) (demo_admin []) app d' admin_request = APass ''t2''"
proof -
  have "\<exists>app key d'. new_app (\<lambda>_. None) (\<lambda>_. Inl []) (\<lambda>_. Inl []) [] empty_db (admin_main (\<lambda>_. [])) = Running (app :: unit admin_app) key d'"
    by (simp add: new_app_def admin_main_def empty_db_def)
  moreover have "trim_space (header_get (hi_headers admin_request) ''X-Tenant-ID'') = ''t2''" "hi_method admin_request \<noteq> ''OPTIONS''"
    by code_simp+
  ultimately show ?thesis using admin_open_without_keys [of _ _ _ _ _ "\<lambda>_. []" _ _ _ admin_request "''t2''" "\<lambda>_. True"] by blast
qed

section \<open>Requests as edits\<close>

lemmas edits =
  admin_edit.policies [OF prod.collapse [symmetric]]
  admin_edit.action [OF prod.collapse [symmetric]]
  admin_edit.resolver [OF prod.collapse [symmetric]]
  admin_edit.no_resolver [OF prod.collapse [symmetric]]
  admin_edit.mapping [OF prod.collapse [symmetric]]
  admin_edit.no_mapping [OF prod.collapse [symmetric]]
  admin_edit.oidc [OF prod.collapse [symmetric]]
  admin_edit.auth [OF prod.collapse [symmetric]]
  admin_edit.auth_update [OF prod.collapse [symmetric]]
  admin_edit.no_auth [OF prod.collapse [symmetric]]
  admin_edit.toggle [OF prod.collapse [symmetric]]
  admin_edit.custom [OF prod.collapse [symmetric]]
  admin_edit.custom_update [OF prod.collapse [symmetric]]
  admin_edit.operation [OF prod.collapse [symmetric]]
  admin_edit.catalogue_entry [OF prod.collapse [symmetric]]
  admin_edit.versions [OF policy_edit.draft [OF prod.collapse [symmetric]]]
  admin_edit.versions [OF policy_edit.publish [OF prod.collapse [symmetric]]]

lemma run_call_edit:
  assumes "run_call e d tid c = (resp, d', sent)" "\<And>b. c \<noteq> PostTestExecute b"
  shows "sent = [] \<and> (d' = d \<or> admin_edit d d')"
  using assms by (cases c) (auto simp: reading_def editing_def intro: edits)

lemma run_call_tested:
  assumes "run_call e d tid c = (resp, d', sent)" "\<And>t. resp \<noteq> Tested t"
  shows "sent = [] \<and> (d' = d \<or> admin_edit d d')"
proof (cases "\<exists>b. c = PostTestExecute b")
  case True
  then obtain b where c: "c = PostTestExecute b" by blast
  show ?thesis
    using assms by (auto simp: c testing_def testExecutePolicy_def Let_def split: option.splits prod.splits sum.splits)
next
  case False
  then show ?thesis by (intro run_call_edit [OF assms(1)]) blast
qed

lemma admin_service_runs:
  assumes "admin_service s d q r body = (resp, d', sent)" "d' \<noteq> d \<or> sent \<noteq> []"
  obtains tid i where "adminAuth (ae_rt (am_env s)) (ae_is_uuid (am_env s)) (am_parse s) (am_app s) d r = APass tid"
    and "am_chi s admin_routes (hi_method r) (hi_path r) = Route i"
    and "run_call (am_env s) d tid (admin_call_of s q (hi_path r) body i) = (resp, d', sent)"
  using assms
  by (auto simp: admin_service_def reading_def split: if_splits admin_outcome.splits route.splits)

text \<open>C7: Only administrators change anything.  If a request to the admin process changes the database or makes it send
  something, it carries a token the library verified for the configured issuer and audience, with one of the
  two administrator roles; if the token names a tenant, the request acts for that tenant.\<close>

theorem admin_service_needs_administrator:
  assumes "admin_service s d q r body = (resp, d', sent)" "d' \<noteq> d \<or> sent \<noteq> []" "ap_jwks (am_app s) = Some ks"
  shows "\<exists>tok jt role tid c. bearer r = Some tok \<and> am_parse s ks (ap_issuer (am_app s)) (ap_aud (am_app s)) tok = Some jt
     \<and> mget jt ''role'' = VStr role \<and> role \<in> {''tenant_admin'', ''lamdis_admin''}
     \<and> (mget jt ''tid'' \<noteq> VNil \<longrightarrow> resolve_tid (ae_is_uuid (am_env s)) d (sprint (ae_rt (am_env s)) (mget jt ''tid'')) = Some tid)
     \<and> run_call (am_env s) d tid c = (resp, d', sent)"
  using admin_service_runs [OF assms(1,2)] adminAuth_token [OF _ assms(3)] by metis

text \<open>C6: What holds of the policy service holds while it is administered.  After any request to the admin process that is
  not a test execution, a reachable state of the policy service is a reachable state with the new database:
  each such request makes an edit of the configuration or none.\<close>

theorem admin_service_is_configuration:
  assumes "reachable sv w0 w" "w_pool w = Some d" "admin_service s d q r body = (resp, d', sent)" "\<And>t. resp \<noteq> Tested t"
  shows "reachable sv w0 (w\<lparr> w_pool := Some d' \<rparr>)"
proof -
  have "reconfigured d d'"
  proof (cases "d' = d")
    case False
    then have "d' \<noteq> d \<or> sent \<noteq> []" by simp
    then obtain tid c where "run_call (am_env s) d tid c = (resp, d', sent)"
      by (rule admin_service_runs [OF assms(3)]) blast
    then show ?thesis using run_call_tested [OF _ assms(4)] False admin_edit_reconfigures by blast
  qed simp
  then show ?thesis using assms(1,2) by (auto intro: more configure_step)
qed

section \<open>A small instance\<close>

definition key_vault :: vault where
  "key_vault = \<lparr> va_rt = demo_rt, va_gcm = demo_gcm, va_key = ''k'', va_nonce = replicate 12 CHR ''n'' \<rparr>"

definition demo_orders :: orders where
  "demo_orders = \<lparr> lo_audit = (\<lambda>x. x), lo_auth = (\<lambda>x. x), lo_definitions = (\<lambda>x. x), lo_configured = (\<lambda>x. x),
     lo_operations = (\<lambda>x. x), lo_usage = (\<lambda>x. x), lo_coverage = (\<lambda>x. x), lo_status = (\<lambda>x. x), lo_actions = (\<lambda>x. x),
     lo_resolvers = (\<lambda>x. x), lo_mappings = (\<lambda>x. x), lo_connectors = (\<lambda>x. x) \<rparr>"

definition demo_admin_env :: admin_env where
  "demo_admin_env = \<lparr> ae_env = prod_env, ae_rt = demo_rt, ae_is_uuid = (\<lambda>_. True), ae_vault = key_vault,
     ae_fresh = show_nat, ae_compile = (\<lambda>_. None), ae_search = demo_search, ae_rego = demo_rego, ae_net = demo_net, ae_clk = clk0,
     ae_now = 0, ae_show = show_int, ae_created = (\<lambda>_. 0), ae_day = (\<lambda>t. t), ae_ilike = (\<lambda>_ _. True), ae_order = demo_orders \<rparr>"

definition demo_bodies :: admin_bodies where
  "demo_bodies = \<lparr> bd_oidc = \<lambda>_. None, bd_spec = \<lambda>_. None, bd_connector = \<lambda>_. None,
     bd_policies = \<lambda>_. Some \<lparr> pb_scopes = Some [''order:read''], pb_step_up = Some [] \<rparr>, bd_auth = \<lambda>_. None,
     bd_custom = \<lambda>_. None, bd_enabled = \<lambda>_. None, bd_version = \<lambda>_. None, bd_code = \<lambda>_. None, bd_dry_run = \<lambda>_. None,
     bd_test = \<lambda>_. None, bd_action = \<lambda>_. None, bd_resolver = \<lambda>_. None, bd_mapping = \<lambda>_. None \<rparr>"

definition demo_admin_site :: "unit admin_site" where
  "demo_admin_site = \<lparr> am_env = demo_admin_env, am_bodies = demo_bodies, am_app = \<lparr> ap_jwks = Some (), ap_issuer = [], ap_aud = [] \<rparr>,
     am_parse = demo_admin ''lamdis_admin'', am_chi = site_router, am_params = (\<lambda>_ _ _. []) \<rparr>"

definition put_policies_request :: http_in where
  "put_policies_request = admin_request\<lparr> hi_method := ''PUT'', hi_path := ''/admin/tenant/policies'' \<rparr>"

lemma put_policies_run: "\<exists>resp d'. admin_service demo_admin_site approved_db (\<lambda>_. []) put_policies_request [] = (Reply resp, d', []) \<and> d' \<noteq> approved_db"
proof -
  have h: "bearer put_policies_request = Some ''x''" "header_get (hi_headers put_policies_request) ''X-Tenant-ID'' = ''t2''"
    "hi_path put_policies_request \<noteq> ''/healthz''" "has_prefix ''/admin/'' (hi_path put_policies_request)"
    "\<not> snd (cors (allowed_origins prod_env) put_policies_request)"
    by code_simp+
  have route: "site_router admin_routes (hi_method put_policies_request) (hi_path put_policies_request) = Route 5"
    by code_simp
  have call: "admin_call_of demo_admin_site (\<lambda>_. []) (hi_path put_policies_request) [] 5
      = PutPoliciesCall (Some \<lparr> pb_scopes = Some [''order:read''], pb_step_up = Some [] \<rparr>)"
    by (simp add: admin_call_of_def admin_table_def demo_admin_site_def demo_bodies_def)
  have auth: "adminAuth demo_rt (\<lambda>_. True) (demo_admin ''lamdis_admin'') \<lparr> ap_jwks = Some (), ap_issuer = [], ap_aud = [] \<rparr> approved_db put_policies_request
     = APass ''t2''"
    by (simp add: adminAuth_def h demo_admin_def demo_admin_claims admin_roles_def token_tid_def for_tenant_def resolve_tid_def)
  have db: "faults approved_db = (\<lambda>_. False)" "tenant_exists approved_db ''t2''" "tenant_policies approved_db = []"
    by (simp_all add: approved_db_def add_decision_def tenant_exists_def)
      (simp add: start_db_def exec_db_def decided_db_def policy_db_def demo_db_def empty_db_def add_decision_def)
  let ?d = "approved_db\<lparr> tenant_policies := [\<lparr> tp_tenant = ''t2'', tp_scopes = [''order:read''], tp_step_up = VMap [] \<rparr>] \<rparr>"
  have run: "putPolicies approved_db ''t2'' (Some \<lparr> pb_scopes = Some [''order:read''], pb_step_up = Some [] \<rparr>) = (ok_json [], ?d)"
    by (simp add: putPolicies_def db)
  have "tenant_policies ?d \<noteq> tenant_policies approved_db" by (simp add: db)
  then have ne: "?d \<noteq> approved_db" by metis
  have site: "am_env demo_admin_site = demo_admin_env" "am_app demo_admin_site = \<lparr> ap_jwks = Some (), ap_issuer = [], ap_aud = [] \<rparr>"
    "am_parse demo_admin_site = demo_admin ''lamdis_admin''" "am_chi demo_admin_site = site_router"
    "ae_env demo_admin_env = prod_env" "ae_rt demo_admin_env = demo_rt" "ae_is_uuid demo_admin_env = (\<lambda>_. True)"
    by (simp_all add: demo_admin_site_def demo_admin_env_def)
  show ?thesis
    using ne by (simp add: admin_service_def h site auth route call run editing_def)
qed

theorem admin_service_needs_administrator_witness:
  "\<exists>tok jt role. bearer put_policies_request = Some tok \<and> demo_admin ''lamdis_admin'' () [] [] tok = Some jt
     \<and> mget jt ''role'' = VStr role \<and> role \<in> {''tenant_admin'', ''lamdis_admin''}"
proof -
  obtain resp d' where run: "admin_service demo_admin_site approved_db (\<lambda>_. []) put_policies_request [] = (Reply resp, d', [])"
    and "d' \<noteq> approved_db" using put_policies_run by blast
  then have "d' \<noteq> approved_db \<or> ([] :: http_request list) \<noteq> []" by simp
  from admin_service_needs_administrator [OF run this, of "()"] show ?thesis by (simp add: demo_admin_site_def) blast
qed

theorem admin_service_is_configuration_witness:
  "\<exists>resp d'. admin_service demo_admin_site approved_db (\<lambda>_. []) put_policies_request [] = (Reply resp, d', []) \<and> d' \<noteq> approved_db
     \<and> reachable demo_sv w_start (w_approved\<lparr> w_pool := Some d' \<rparr>)"
proof -
  obtain resp d' where run: "admin_service demo_admin_site approved_db (\<lambda>_. []) put_policies_request [] = (Reply resp, d', [])"
    and ne: "d' \<noteq> approved_db" using put_policies_run by blast
  have "w_pool w_approved = Some approved_db" by (simp add: w_approved_def)
  from admin_service_is_configuration [OF reach_approved this run] run ne show ?thesis by blast
qed

end
