(* ===== verification/Spec2Isabelle.thy ===== *)
theory Spec2Isabelle
  imports DPoP Admin_Server
begin

text \<open>
  Verification of the lamdis core services.

  \<^bold>\<open>The program.\<close>  Tenants connect their own HTTP services (connectors with operations) and let agents call them
  as actions.  An agent reads a manifest, asks for a preflight of an action with its inputs, and executes the
  action with the decision it was given.  Four processes share one PostgreSQL database: the manifest service
  publishes the actions of a tenant, the policy service resolves facts, evaluates the tenant's policy,
  stores decisions and executes actions, the connector service serves the operations directly, and the
  admin API edits all of it.  Tenants are told apart by the host name of a request (public services) or
  by a token claim or header (admin API).

  \<^bold>\<open>Theories and sources.\<close>  The theories follow the packages, from the language up.
    \<^item> \<open>Prelude\<close>: association lists as Go maps, rows with unique keys; \<open>Go_Strings\<close>, \<open>Go_Float\<close>, \<open>Go_Values\<close>: what the program
      uses of Go's strings, \<^verbatim>\<open>strconv\<close>, \<^verbatim>\<open>net/url\<close>, binary64 arithmetic, 64-bit durations, \<^verbatim>\<open>any\<close> values, printing
      and JSON text.
    \<^item> \<open>Store\<close>: one record per table of \<^verbatim>\<open>db/migrations\<close> and the schemas created at start-up, row level security,
      the ways statements set the tenant, and failing statements; \<open>Demo\<close>: small instances for witnesses.
    \<^item> \<open>Schema\<close>: the catalogue of tables and the statements that define them; \<open>Tables\<close>: \<^verbatim>\<open>db/migrations\<close>,
      \<^verbatim>\<open>EnsureSchema\<close>, \<^verbatim>\<open>internal/adminapi/schema.go\<close>, the order of starts, what each statement needs.
    \<^item> \<open>Config\<close>: \<^verbatim>\<open>pkg/config\<close>, \<^verbatim>\<open>pkg/problems\<close>; \<open>Tenants\<close>: \<^verbatim>\<open>pkg/tenants\<close>; \<open>Cache\<close>: the contract of the two caches;
      \<open>Middleware\<close> and \<open>DPoP\<close>: \<^verbatim>\<open>pkg/middleware\<close>; \<open>Registry\<close>: \<^verbatim>\<open>pkg/connectors\<close>.
    \<^item> \<open>Facts\<close>: \<^verbatim>\<open>internal/facts/engine.go\<close>; \<open>Policy\<close>, \<open>Policy_HTTP\<close>: \<^verbatim>\<open>internal/policy\<close>; \<open>Slugs\<close>, \<open>Templates\<close>, \<open>Orchestrator\<close>:
      \<^verbatim>\<open>internal/orchestrator/service.go\<close>; \<open>Manifest\<close>: \<^verbatim>\<open>internal/manifest\<close> and \<^verbatim>\<open>pkg/openapi\<close>; \<open>Connector\<close>, \<open>Secrets\<close>:
      \<^verbatim>\<open>internal/connector/handler.go\<close> and \<^verbatim>\<open>internal/adminapi/crypto.go\<close>.
    \<^item> \<open>Admin_Policies\<close>, \<open>Admin_Config\<close>, \<open>Admin_Connectors\<close>, \<open>Admin_Auth\<close>, \<open>Admin_Registry\<close>, \<open>Admin_Analytics\<close>:
      \<^verbatim>\<open>internal/adminapi\<close>, one theory per group of handlers; \<open>Admin\<close>: the relation of all edits.
    \<^item> \<open>Services\<close>: \<^verbatim>\<open>cmd\<close> and \<^verbatim>\<open>pkg/db\<close>, how the three public processes put middlewares, routes and handlers together;
      \<open>Admin_Server\<close>: the admin process, its routes, dispatch and start.

  \<^bold>\<open>State and operations.\<close>  A handler is a function from its parameters, the database (\<^const>\<open>None\<close> where the program runs
  without one) and the request to the response, the new database and the HTTP requests sent; a definition
  carries the name of the Go function it models, and every early return is a branch.  Responses are values
  before JSON encoding.  The policy service is also a step relation (\<open>step\<close>, \<open>reachable\<close>) whose state is
  database, time and the requests sent so far; every request to the admin process but a test execution is one
  of its configuration steps.

  \<^bold>\<open>Interfaces.\<close>  \<open>insert_only_table\<close> (a table whose rows are never changed: decisions), \<open>upsert_table\<close> (insert or update by
  key: actions, resolvers, mappings, enabled connectors, catalogue), \<open>ttl_cache\<close> (a cache returns what the source
  held within the time to live: key sets and operations), \<open>tenant_provider\<close> (a tenant found by host has that
  host: memory and database).  Each is interpreted on the program's definitions in the theory of the
  component that provides it.

  \<^bold>\<open>What the lemmas show.\<close>  The policy gate: every request sent belongs to a stored, unexpired, allowing decision bound to
  the same inputs and facts; decisions never change; a handed-out decision can be used; at most one
  version of a policy is published and publishing takes effect.  Dispatch: what is sent is the operation of
  the tenant the key names; the manifest's keys and the orchestrator's agree.  Tenants: facts, lookups
  and operations depend on the tenant's rows only where row level security works.  Callers: tokens are
  required and verified against fresh keys, proofs of possession are not replayed, scopes are checked.
  Tables: once the public services and the admin process were started, in this order, the statements
  find every column they name; starting again changes nothing and loses nothing.
  Round trips: query strings, encrypted secrets, stored configuration.  Several theorems state where the
  code does not do what it means to; the manifest's findings name the lines.

  \<^bold>\<open>Parameters and bounds.\<close>  Third-party code is a parameter: JMESPath, the Rego engine, SHA-256, AES-GCM, token parsing, the
  HTTP client, the router, JSON and YAML decoders, time formats, the server's collation and clock.  Laws
  that are needed of one are hypotheses of the theorem that needs them.  Integers that can overflow are
  kept at their width (durations, \<^verbatim>\<open>strconv.Atoi\<close>, columns of type \<^verbatim>\<open>int\<close>).  The only fuel is the number of
  requests of the client in \<open>Admin_Analytics\<close>; one more than the number of decisions is shown to be enough.

  \<^bold>\<open>Not modelled.\<close>  The choice of a logger, metrics, the contents of traces and opening connections (\<^verbatim>\<open>pkg/logger\<close>,
  \<^verbatim>\<open>db.go\<close>): calls of libraries without an effect on answers.  Of the migrations the roles, check
  constraints, foreign keys of existing rows and indexes that are not unique.  The life of a process (listening,
  signals, shutdown), a connection that breaks in the middle of a result, and requests that interleave
  within a handler: a handler is one step.  The handlers take \<^verbatim>\<open>tenant_connectors\<close> without the legacy column,
  as every migrated database has it.
\<close>

section \<open>The manifest and the orchestrator\<close>

definition plain_path :: "string \<Rightarrow> bool" where
  "plain_path p \<longleftrightarrow> list_all no_camel (str_split ''/'' (str_trim ''/'' (hd (str_split ''?'' p))))"

lemma plain_path_short: "plain_path p \<Longrightarrow> derive_short p = derive_name p"
  by (rule derive_short_eq_name) (simp add: plain_path_def list_all_iff)

lemma scan_rows_all: "(\<And>r. r \<in> set rows \<Longrightarrow> scan_op r \<noteq> None) \<Longrightarrow> scan_rows rows = map (the \<circ> scan_op) rows"
  by (induction rows) (auto split: option.splits)

lemma in_candidates:
  assumes "\<And>r. r \<in> set rows \<Longrightarrow> scan_op r \<noteq> None" "r \<in> set rows" "scan_op r = Some c" "in_namespace ns c"
  shows "c \<in> set (candidates ns rows)"
proof -
  have "scan_rows rows = map (the \<circ> scan_op) rows" by (rule scan_rows_all) (rule assms(1))
  then show ?thesis using assms(2-4) by (auto simp: candidates_def image_iff intro!: bexI [of _ r])
qed


lemma shop_plain: "plain_path ''/v1/orders/{id}/cancel''"
  by code_simp

lemma exec_joined: "joined exec_db ''t2'' = [(shop_operation ''GET'' ''/v1/orders'' (VMap []), shop_definition ''t2''),
    (shop_operation ''POST'' ''/v1/orders/{id}/cancel'' cancel_tmpl, shop_definition ''t2'')]"
  by (simp add: joined_def exec_db_def shop_definition_def shop_operation_def)


text \<open>C35: The two services agree on namespaces.  For every connector kind, the namespace the manifest publishes
  is the namespace the orchestrator recomputes, although the two normalise the kind in different steps
  and only one trims white space.\<close>

theorem namespaces_agree: "kind_slug kind = slug kind"
  by (rule kind_slug_eq_slug)

text \<open>Disabling a connector does not stop its execution.  Which operation an action key is dispatched to does
  not depend on which connectors the tenant has enabled, although the manifest and the connector
  service list the operations of enabled connectors only.\<close>

theorem disabled_connector_executes:
  "find_operation (Some (d\<lparr> tenant_connectors := tcs \<rparr>)) tid key = find_operation (Some d) tid key"
  by (simp add: find_operation_def list_operations_def joined_def)

definition camel_db :: db where
  "camel_db = exec_db\<lparr> operations := [shop_operation ''GET'' ''/v1/orders'' (VMap []), shop_operation ''POST'' ''/v1/createOrder'' (VMap [])] \<rparr>"

text \<open>Camel-case paths are published under a key that runs something else.  A tenant has the operations
  \<^verbatim>\<open>GET /v1/orders\<close> and \<^verbatim>\<open>POST /v1/createOrder\<close>; the manifest publishes the second as \<^verbatim>\<open>shop.createorder\<close>, and for
  this key the orchestrator chooses the first.\<close>

theorem camel_case_action_misdirected:
  "\<exists>key. ma_Key (manifest_action (\<lambda>_. []) ''acme'' (scan_full (shop_operation ''POST'' ''/v1/createOrder'' (VMap []))
       (shop_definition ''t2'') ''POST'' ''/v1/createOrder'' [])) = key
     \<and> find_operation (Some camel_db) ''t2'' key = (''https://api.shop.test/'', ''GET'', ''/v1/orders'', VMap [])"
proof -
  have names: "derive_name ''/v1/createOrder'' = ''createorder''" "derive_short ''/v1/createOrder'' = ''create-order''"
    "kind_slug ''Shop'' = ''shop''" by code_simp+
  have key: "ma_Key (manifest_action (\<lambda>_. []) ''acme'' (scan_full (shop_operation ''POST'' ''/v1/createOrder'' (VMap []))
       (shop_definition ''t2'') ''POST'' ''/v1/createOrder'' [])) = action_key_of (kind_slug ''Shop'') ''createorder''"
    by (simp add: manifest_action_def op_key_def op_namespace_def scan_full_def shop_definition_def names)
  have cs: "candidates ''shop'' (joined camel_db ''t2'') = [get_orders, ((''https://api.shop.test/'', ''POST'', ''/v1/createOrder'', VMap []), ''Shop'', [])]"
    by (simp add: joined_def camel_db_def exec_db_def shop_definition_def shop_operation_def scan_op_def in_namespace_def
        shop_slugs get_orders_def)
  have flags: "\<not> faults camel_db ListOperations" "text_as_uuid camel_db"
    using exec_db_flags by (simp_all add: camel_db_def)
  have "find_operation (Some camel_db) ''t2'' (action_key_of (kind_slug ''Shop'') ''createorder'') = fst get_orders"
    unfolding find_operation_eq split_key_kind
    using flags by (simp add: list_operations_def names cs choose_op_def exec_shorts has_short_def choice_path_def)
  then show ?thesis unfolding key by (simp add: get_orders_def)
qed

section \<open>The admin API beside the other services\<close>

text \<open>Approvals survive administration.  Every edit the admin API makes, successful or not, is a configuration
  step of the policy service: a state reached by serving requests stays a reachable state after it, so
  that everything shown of the reachable states holds while the configuration is being changed.\<close>

theorem admin_edits_are_configuration:
  assumes "reachable sv w0 w" "w_pool w = Some d" "admin_edit d d'"
  shows "reachable sv w0 (w\<lparr> w_pool := Some d' \<rparr>)"
  using assms by (auto intro: more configure_step admin_edit_reconfigures)

theorem admin_edits_are_configuration_witness:
  "reachable demo_sv w_start (w_approved\<lparr> w_pool := Some (approved_db\<lparr> auth_configs := [] \<rparr>) \<rparr>)"
proof (rule admin_edits_are_configuration [OF reach_approved])
  show "w_pool w_approved = Some approved_db" by (simp add: w_approved_def)
  have "deleteAuth approved_db ''t2'' ''a1'' = (ok_json [], approved_db\<lparr> auth_configs := [] \<rparr>)"
    by (simp add: deleteAuth_def approved_db_def add_decision_def)
      (simp add: start_db_def exec_db_def decided_db_def policy_db_def demo_db_def empty_db_def add_decision_def)
  then show "admin_edit approved_db (approved_db\<lparr> auth_configs := [] \<rparr>)" by (rule no_auth)
qed


definition key_env :: conn_env where
  "key_env = demo_conn_env\<lparr> ce_env := (\<lambda>_. ''k''), ce_json := (\<lambda>_. Some (VMap [(''api_key'', VStr ''s3cret'')])) \<rparr>"

definition key_body :: AuthBody where
  "key_body = \<lparr> ab_Name = ''up'', ab_Type = ''API_KEY'', ab_Config = Some [], ab_Secrets = Some [(''api_key'', ''s3cret'')] \<rparr>"


end
